(* ===== verification/Prelude.thy ===== *)
theory Prelude
  imports Main "HOL-Library.Multiset"
begin

text \<open>
  Shared vocabulary of the development: Python exceptions as values, the result type of a
  fallible operation, Python's \<open>max\<close> and \<open>sorted\<close> with a key, and the generic lemmas the
  component theories use.
\<close>

named_theorems exec_simps \<open>unfolding rules that execute an operation of the model\<close>
named_theorems frame_simps \<open>what an operation leaves unchanged\<close>

section \<open>Exceptions and results\<close>

text \<open>
  An exception carries its class and its message (\<open>str(e)\<close>); some handlers store the message,
  so it is part of the value.
\<close>

datatype exn_kind =
    ValueError | TypeError | AttributeError | KeyError | RuntimeError | PermissionError
  | IndexError | NameError | FileNotFoundError | FileExistsError | OSError | TimeoutError | AsyncioTimeoutError | UnboundLocalError | ZeroDivisionError | NotImplementedError
  | ValidationError | BusinessRuleViolation | ProvisioningValidationError | IntegrityError
  | HTTPException nat | JWTError | OtherError

datatype exn = Exn (kind_of: exn_kind) (str_of: string)

text \<open>\<open>except ValueError\<close> also catches its subclass \<open>ProvisioningValidationError\<close>.\<close>

definition is_value_error :: "exn \<Rightarrow> bool" where
  "is_value_error e \<longleftrightarrow> kind_of e = ValueError \<or> kind_of e = ProvisioningValidationError"

type_synonym 'a result = "exn + 'a"

abbreviation raise :: "exn_kind \<Rightarrow> string \<Rightarrow> 'a result" where
  "raise k m \<equiv> Inl (Exn k m)"

definition is_ok :: "'a result \<Rightarrow> bool" where
  "is_ok r \<longleftrightarrow> (case r of Inl _ \<Rightarrow> False | Inr _ \<Rightarrow> True)"

lemma is_ok_simps [simp]: "is_ok (Inr x)" "\<not> is_ok (Inl e)"
  by (simp_all add: is_ok_def)

lemma is_ok_iff: "is_ok r \<longleftrightarrow> (\<exists>x. r = Inr x)"
  by (cases r) simp_all

fun bind_r :: "'a result \<Rightarrow> ('a \<Rightarrow> 'b result) \<Rightarrow> 'b result" where
  "bind_r (Inl e) f = Inl e"
| "bind_r (Inr x) f = f x"

lemma bind_r_ok_iff: "bind_r r f = Inr y \<longleftrightarrow> (\<exists>x. r = Inr x \<and> f x = Inr y)"
  by (cases r) simp_all

text \<open>A comprehension whose element expression may raise: the first exception wins.\<close>

fun map_r :: "('a \<Rightarrow> 'b result) \<Rightarrow> 'a list \<Rightarrow> 'b list result" where
  "map_r f [] = Inr []"
| "map_r f (x # xs) =
     (case f x of Inl e \<Rightarrow> Inl e
      | Inr y \<Rightarrow> (case map_r f xs of Inl e \<Rightarrow> Inl e | Inr ys \<Rightarrow> Inr (y # ys)))"

lemma map_r_ok_iff: "is_ok (map_r f xs) \<longleftrightarrow> (\<forall>x \<in> set xs. is_ok (f x))"
  by (induction xs) (auto split: sum.splits)

lemma map_r_total: "(\<And>x. x \<in> set xs \<Longrightarrow> f x = Inr (g x)) \<Longrightarrow> map_r f xs = Inr (map g xs)"
  by (induction xs) auto

lemma map_r_length: "map_r f xs = Inr ys \<Longrightarrow> length ys = length xs"
  by (induction xs arbitrary: ys) (auto split: sum.splits)

section \<open>Python's \<open>max\<close> and \<open>sorted\<close> with a key\<close>

text \<open>\<open>max(xs, key=f)\<close> keeps the first of the maximal elements; it is only called on nonempty lists.\<close>

fun py_max_from :: "('a \<Rightarrow> 'k::linorder) \<Rightarrow> 'a \<Rightarrow> 'a list \<Rightarrow> 'a" where
  "py_max_from f m [] = m"
| "py_max_from f m (x # xs) = py_max_from f (if f m < f x then x else m) xs"

fun py_max :: "('a \<Rightarrow> 'k::linorder) \<Rightarrow> 'a list \<Rightarrow> 'a option" where
  "py_max f [] = None"
| "py_max f (x # xs) = Some (py_max_from f x xs)"

lemma py_max_from_mem: "py_max_from f m xs \<in> insert m (set xs)"
  by (induction xs arbitrary: m) (auto split: if_splits)

lemma py_max_from_ge: "x \<in> insert m (set xs) \<Longrightarrow> f x \<le> f (py_max_from f m xs)"
proof (induction xs arbitrary: m x)
  case Nil
  then show ?case by simp
next
  case (Cons y ys)
  show ?case
  proof (cases "f m < f y")
    case True
    then have "f m \<le> f y" by simp
    with Cons.prems Cons.IH [of _ y] True show ?thesis
      by (auto intro: order_trans [of "f m" "f y"])
  next
    case False
    then have "f y \<le> f m" by simp
    with Cons.prems Cons.IH [of _ m] False show ?thesis
      by (auto intro: order_trans [of "f y" "f m"])
  qed
qed

lemma py_max_None_iff [simp]: "py_max f xs = None \<longleftrightarrow> xs = []"
  by (cases xs) simp_all

lemma py_max_SomeD:
  assumes "py_max f xs = Some m"
  shows "m \<in> set xs" and "x \<in> set xs \<Longrightarrow> f x \<le> f m"
proof -
  obtain y ys where xs: "xs = y # ys" and m: "m = py_max_from f y ys"
    using assms by (cases xs) auto
  show "m \<in> set xs"
    using py_max_from_mem [of f y ys] by (simp add: xs m)
  show "f x \<le> f m" if "x \<in> set xs"
    using py_max_from_ge [of x y ys f] that by (simp add: xs m)
qed

text \<open>\<open>sorted(xs, key=f)\<close> is stable, as is \<open>sort_key\<close>; with \<open>reverse=True\<close> Python keeps the
  original order of equal elements.\<close>

definition py_sorted :: "('a \<Rightarrow> 'k::linorder) \<Rightarrow> 'a list \<Rightarrow> 'a list" where
  "py_sorted f xs = sort_key f xs"

definition py_sorted_desc :: "('a \<Rightarrow> 'k::linorder) \<Rightarrow> 'a list \<Rightarrow> 'a list" where
  "py_sorted_desc f xs = rev (sort_key f (rev xs))"

lemma py_sorted_facts [simp]:
  "set (py_sorted f xs) = set xs" "length (py_sorted f xs) = length xs"
  "mset (py_sorted f xs) = mset xs" "sorted (map f (py_sorted f xs))"
  by (simp_all add: py_sorted_def)

lemma py_sorted_desc_facts [simp]:
  "set (py_sorted_desc f xs) = set xs" "length (py_sorted_desc f xs) = length xs"
  "mset (py_sorted_desc f xs) = mset xs"
  by (simp_all add: py_sorted_desc_def)

lemma sorted_wrt_py_sorted_desc: "sorted_wrt (\<lambda>x y. f y \<le> f x) (py_sorted_desc f xs)"
proof -
  have "sorted_wrt (\<lambda>x y. f x \<le> f y) (sort_key f (rev xs))"
    using sorted_sort_key [of f "rev xs"] by (simp add: sorted_map)
  then show ?thesis by (simp add: py_sorted_desc_def sorted_wrt_rev)
qed

lemma py_sorted_desc_Nil_iff [simp]: "py_sorted_desc f xs = [] \<longleftrightarrow> xs = []"
  by (metis length_0_conv py_sorted_desc_facts(2))

lemma hd_py_sorted_desc_ge:
  assumes "x \<in> set xs"
  shows "f x \<le> f (hd (py_sorted_desc f xs))"
proof -
  have "py_sorted_desc f xs \<noteq> []" using assms by auto
  then obtain y ys where ys: "py_sorted_desc f xs = y # ys"
    by (cases "py_sorted_desc f xs") auto
  have "x \<in> set (y # ys)" using assms ys py_sorted_desc_facts(1) [of f xs] by simp
  moreover have "\<forall>z \<in> set ys. f z \<le> f y"
    using sorted_wrt_py_sorted_desc [of f xs] by (simp add: ys)
  ultimately show ?thesis by (auto simp: ys)
qed

section \<open>Lists and maps\<close>

lemma find_SomeD: "List.find P xs = Some x \<Longrightarrow> x \<in> set xs \<and> P x"
  by (induction xs) (auto split: if_splits)

lemma find_None_iff': "List.find P xs = None \<longleftrightarrow> (\<forall>x \<in> set xs. \<not> P x)"
  by (induction xs) auto

lemma find_map_upd:
  assumes "\<And>x. P (f x) = P x"
  shows "List.find P (map f xs) = map_option f (List.find P xs)"
  by (induction xs) (simp_all add: assms)

lemma filter_map_cond:
  "(\<And>x. x \<in> set xs \<Longrightarrow> P (f x) = P x) \<Longrightarrow> filter P (map f xs) = map f (filter P xs)"
  by (induction xs) auto

end
