(* ===== verification/PyString.thy ===== *)
theory PyString
  imports Prelude
begin

text \<open>
  The string methods the program uses. A Python \<open>str\<close> is modelled as a \<open>string\<close> whose characters
  are the code points 0 to 255 (Latin-1); the character classes and case mappings are Python's on
  that range. Text outside that range is outside the model.
\<close>

section \<open>Character classes\<close>

definition py_isspace :: "char \<Rightarrow> bool" where
  "py_isspace c = (let n = (of_char c :: nat) in
     (9 \<le> n \<and> n \<le> 13) \<or> (28 \<le> n \<and> n \<le> 32) \<or> n = 133 \<or> n = 160)"

definition py_isalnum :: "char \<Rightarrow> bool" where
  "py_isalnum c = (let n = (of_char c :: nat) in
     (48 \<le> n \<and> n \<le> 57) \<or> (65 \<le> n \<and> n \<le> 90) \<or> (97 \<le> n \<and> n \<le> 122) \<or> n = 170 \<or>
     n = 178 \<or> n = 179 \<or> n = 181 \<or> n = 185 \<or> n = 186 \<or> (188 \<le> n \<and> n \<le> 190) \<or>
     (192 \<le> n \<and> n \<noteq> 215 \<and> n \<noteq> 247))"

definition is_digit :: "char \<Rightarrow> bool" where
  "is_digit c = (let n = (of_char c :: nat) in 48 \<le> n \<and> n \<le> 57)"

definition is_lower_az :: "char \<Rightarrow> bool" where
  "is_lower_az c = (let n = (of_char c :: nat) in 97 \<le> n \<and> n \<le> 122)"

definition is_upper_az :: "char \<Rightarrow> bool" where
  "is_upper_az c = (let n = (of_char c :: nat) in 65 \<le> n \<and> n \<le> 90)"

definition lower_char :: "char \<Rightarrow> char" where
  "lower_char c = (let n = (of_char c :: nat) in
     if (65 \<le> n \<and> n \<le> 90) \<or> (192 \<le> n \<and> n \<le> 222 \<and> n \<noteq> 215) then char_of (n + 32) else c)"

text \<open>The upper case of code 223 is two letters; codes 181 and 255 have their upper case outside
  Latin-1 and are left as they are.\<close>

definition upper_char :: "char \<Rightarrow> string" where
  "upper_char c = (let n = (of_char c :: nat) in
     if (97 \<le> n \<and> n \<le> 122) \<or> (224 \<le> n \<and> n \<le> 254 \<and> n \<noteq> 247) then [char_of (n - 32)]
     else if n = 223 then ''SS'' else [c])"

definition py_lower :: "string \<Rightarrow> string" where
  "py_lower s = map lower_char s"

definition py_upper :: "string \<Rightarrow> string" where
  "py_upper s = concat (map upper_char s)"

section \<open>Stripping and splitting\<close>

definition py_lstrip :: "string \<Rightarrow> string" where
  "py_lstrip s = dropWhile py_isspace s"

definition py_rstrip :: "string \<Rightarrow> string" where
  "py_rstrip s = rev (dropWhile py_isspace (rev s))"

definition py_strip :: "string \<Rightarrow> string" where
  "py_strip s = py_rstrip (py_lstrip s)"

text \<open>\<open>s.split()\<close>: the maximal runs of characters that are not white space.\<close>

fun split_ws_from :: "string \<Rightarrow> string \<Rightarrow> string list" where
  "split_ws_from cur [] = (if cur = [] then [] else [cur])"
| "split_ws_from cur (c # cs) =
     (if py_isspace c then (if cur = [] then split_ws_from [] cs else cur # split_ws_from [] cs)
      else split_ws_from (cur @ [c]) cs)"

definition py_split_ws :: "string \<Rightarrow> string list" where
  "py_split_ws s = split_ws_from [] s"

text \<open>\<open>s.split(c)\<close> for a separator of one character: always at least one part.\<close>

fun py_split_char :: "char \<Rightarrow> string \<Rightarrow> string list" where
  "py_split_char d [] = [[]]"
| "py_split_char d (c # cs) =
     (if c = d then [] # py_split_char d cs
      else (case py_split_char d cs of [] \<Rightarrow> [[c]] | p # ps \<Rightarrow> (c # p) # ps))"

fun join_with :: "string \<Rightarrow> string list \<Rightarrow> string" where
  "join_with sep [] = []"
| "join_with sep [w] = w"
| "join_with sep (w # v # ws) = w @ sep @ join_with sep (v # ws)"

section \<open>Prefixes, suffixes, substrings\<close>

definition startswith :: "string \<Rightarrow> string \<Rightarrow> bool" where
  "startswith s p \<longleftrightarrow> take (length p) s = p"

definition endswith :: "string \<Rightarrow> string \<Rightarrow> bool" where
  "endswith s p \<longleftrightarrow> length p \<le> length s \<and> drop (length s - length p) s = p"

text \<open>\<open>s.split(sep, 1)\<close>: the parts around the first occurrence, \<open>None\<close> when there is none.\<close>

fun split_first :: "string \<Rightarrow> string \<Rightarrow> (string \<times> string) option" where
  "split_first sep [] = (if sep = [] then Some ([], []) else None)"
| "split_first sep (c # cs) =
     (if startswith (c # cs) sep then Some ([], drop (length sep) (c # cs))
      else map_option (\<lambda>(a, b). (c # a, b)) (split_first sep cs))"

definition contains :: "string \<Rightarrow> string \<Rightarrow> bool" where
  "contains sep s \<longleftrightarrow> split_first sep s \<noteq> None"

text \<open>\<open>s.replace(old, '''')\<close>: every occurrence from the left, without overlap.\<close>

function remove_all :: "string \<Rightarrow> string \<Rightarrow> string" where
  "remove_all old s =
     (if old = [] then s
      else case s of [] \<Rightarrow> []
           | c # cs \<Rightarrow> if startswith s old then remove_all old (drop (length old) s)
                       else c # remove_all old cs)"
  by pat_completeness auto
termination
  by (relation "measure (\<lambda>(old, s). length s)") auto

declare remove_all.simps [simp del]

text \<open>\<open>str(n)\<close> of a natural number.\<close>

fun py_str_nat :: "nat \<Rightarrow> string" where
  "py_str_nat n = (if n < 10 then [char_of (48 + n)] else py_str_nat (n div 10) @ [char_of (48 + n mod 10)])"

declare py_str_nat.simps [simp del]

text \<open>\<open>int(text)\<close>, of texts of decimal digits: blanks, signs and underscores count as malformed.\<close>

definition digit_val :: "char \<Rightarrow> nat option" where
  "digit_val c = (let n = (of_char c :: nat) in if 48 \<le> n \<and> n \<le> 57 then Some (n - 48) else None)"

fun digits_value :: "nat \<Rightarrow> string \<Rightarrow> nat option" where
  "digits_value acc [] = Some acc"
| "digits_value acc (c # cs) = (case digit_val c of None \<Rightarrow> None | Some x \<Rightarrow> digits_value (10 * acc + x) cs)"

definition py_int_text :: "string \<Rightarrow> nat result" where
  "py_int_text s = (if s = [] then raise ValueError ''invalid literal for int()''
     else case digits_value 0 s of None \<Rightarrow> raise ValueError ''invalid literal for int()'' | Some n \<Rightarrow> Inr n)"

text \<open>\<open>s.split(sep)\<close>, \<open>s.replace(old, new)\<close> and the parts around the last occurrence (\<open>s.rfind\<close>),
  for a separator that is not empty.\<close>

lemma split_first_shorter: "split_first sep s = Some (a, b) \<Longrightarrow> sep \<noteq> [] \<Longrightarrow> length b < length s"
  by (induction s arbitrary: a; cases sep) (auto split: if_splits simp: less_Suc_eq_le less_imp_le_nat)

function py_split :: "string \<Rightarrow> string \<Rightarrow> string list" where
  "py_split sep s = (if sep = [] then [s]
     else case split_first sep s of None \<Rightarrow> [s] | Some (a, b) \<Rightarrow> a # py_split sep b)"
  by pat_completeness auto
termination
  by (relation "measure (\<lambda>(sep, s). length s)") (auto dest: split_first_shorter)

function py_replace :: "string \<Rightarrow> string \<Rightarrow> string \<Rightarrow> string" where
  "py_replace old new s = (if old = [] then s
     else case split_first old s of None \<Rightarrow> s | Some (a, b) \<Rightarrow> a @ new @ py_replace old new b)"
  by pat_completeness auto
termination
  by (relation "measure (\<lambda>(old, new, s). length s)") (auto dest: split_first_shorter)

declare py_split.simps [simp del] py_replace.simps [simp del]

definition split_last_char :: "char \<Rightarrow> string \<Rightarrow> (string \<times> string) option" where
  "split_last_char d s = map_option (\<lambda>(a, b). (rev b, rev a)) (split_first [d] (rev s))"

text \<open>\<open>str(i)\<close> of an integer.\<close>

definition py_str_int :: "int \<Rightarrow> string" where
  "py_str_int i = (if i < 0 then CHR ''-'' # py_str_nat (nat (- i)) else py_str_nat (nat i))"

section \<open>Lemmas\<close>

lemma startswith_append [simp]: "startswith (p @ s) p"
  by (simp add: startswith_def)

lemma startswith_iff: "startswith s p \<longleftrightarrow> (\<exists>r. s = p @ r)"
proof
  assume "startswith s p"
  then have "s = p @ drop (length p) s"
    by (metis append_take_drop_id startswith_def)
  then show "\<exists>r. s = p @ r" by blast
qed auto

lemma startswith_Nil [simp]: "startswith s []"
  by (simp add: startswith_def)

lemma startswith_Cons [simp]:
  "startswith (c # s) (d # p) \<longleftrightarrow> c = d \<and> startswith s p"
  "\<not> startswith [] (d # p)"
  by (auto simp: startswith_def)

lemma endswith_append [simp]: "endswith (s @ p) p"
  by (simp add: endswith_def)

lemma split_first_SomeD: "split_first sep s = Some (a, b) \<Longrightarrow> s = a @ sep @ b"
proof (induction s arbitrary: a b)
  case Nil
  then show ?case by (auto split: if_splits)
next
  case (Cons c cs)
  show ?case
  proof (cases "startswith (c # cs) sep")
    case True
    with Cons.prems show ?thesis
      by (auto simp: startswith_def intro: append_take_drop_id [symmetric])
        (metis append_take_drop_id)
  next
    case False
    with Cons.prems obtain a' where "split_first sep cs = Some (a', b)" "a = c # a'"
      by auto
    with Cons.IH show ?thesis by auto
  qed
qed

text \<open>The first occurrence: no earlier one exists.\<close>

lemma split_first_append:
  assumes "sep \<noteq> []"
  shows "split_first sep (p @ sep @ r) = Some (p, r) \<longleftrightarrow>
    (\<forall>i < length p. \<not> startswith (drop i (p @ sep @ r)) sep)"
proof (induction p)
  case Nil
  from assms obtain c cs where "sep = c # cs" by (cases sep) auto
  then show ?case by (simp add: startswith_def)
next
  case (Cons c p)
  have ex: "(\<forall>i < length (c # p). \<not> startswith (drop i ((c # p) @ sep @ r)) sep) \<longleftrightarrow>
    \<not> startswith (c # p @ sep @ r) sep \<and> (\<forall>i < length p. \<not> startswith (drop i (p @ sep @ r)) sep)"
    by (auto simp: less_Suc_eq_0_disj)
  show ?case
    unfolding ex Cons.IH [symmetric] by (auto simp: map_option_case split: option.splits)
qed

lemma contains_iff:
  assumes "sep \<noteq> []"
  shows "contains sep s \<longleftrightarrow> (\<exists>i < length s. startswith (drop i s) sep)"
proof (induction s)
  case Nil
  with assms show ?case by (simp add: contains_def)
next
  case (Cons c cs)
  have "contains sep (c # cs) \<longleftrightarrow> startswith (c # cs) sep \<or> contains sep cs"
    by (auto simp: contains_def)
  then show ?case
    unfolding Cons.IH by (auto simp: less_Suc_eq_0_disj)
qed

lemma startswith_drop_bound:
  assumes "startswith (drop i s) p" and "p \<noteq> []"
  shows "i + length p \<le> length s"
proof -
  from assms(1) obtain r where "drop i s = p @ r" by (auto simp: startswith_iff)
  then have "length s - i = length p + length r"
    by (metis length_append length_drop)
  with assms(2) show ?thesis by (cases p) auto
qed

lemma drop_append_startswith:
  "i + length sep \<le> length u \<Longrightarrow> startswith (drop i (u @ v)) sep = startswith (drop i u) sep"
  by (simp add: startswith_def)

section \<open>Splitting on white space and joining again\<close>

definition is_word :: "string \<Rightarrow> bool" where
  "is_word w \<longleftrightarrow> w \<noteq> [] \<and> (\<forall>c \<in> set w. \<not> py_isspace c)"

lemma py_isspace_space [simp]: "py_isspace CHR '' ''"
  by (simp add: py_isspace_def)

lemma split_ws_from_words:
  "(\<forall>c \<in> set cur. \<not> py_isspace c) \<Longrightarrow> w \<in> set (split_ws_from cur s) \<Longrightarrow> is_word w"
proof (induction cur s rule: split_ws_from.induct)
  case (1 cur)
  then show ?case by (cases "cur = []") (simp_all add: is_word_def)
next
  case (2 cur c cs)
  show ?case
  proof (cases "py_isspace c")
    case True
    then show ?thesis
      using "2.IH"(1,2) "2.prems" by (cases "cur = []") (auto simp: is_word_def)
  next
    case False
    then show ?thesis using "2.IH"(3) "2.prems" by simp
  qed
qed

lemma split_ws_from_word:
  "\<forall>c \<in> set w. \<not> py_isspace c \<Longrightarrow> split_ws_from cur (w @ s) = split_ws_from (cur @ w) s"
  by (induction w arbitrary: cur) auto

lemma split_ws_join:
  "(\<And>w. w \<in> set ws \<Longrightarrow> is_word w) \<Longrightarrow> split_ws_from [] (join_with '' '' ws) = ws"
proof (induction "'' ''" ws rule: join_with.induct)
  case (2 w)
  then show ?case using split_ws_from_word [of w "[]" "[]"] by (simp add: is_word_def)
next
  case (3 w v ws)
  have w: "w \<noteq> []" "\<forall>c \<in> set w. \<not> py_isspace c"
    using "3.prems" [of w] by (simp_all add: is_word_def)
  have IH: "split_ws_from [] (join_with '' '' (v # ws)) = v # ws"
    using "3.hyps" "3.prems" by simp
  show ?case
    using split_ws_from_word [OF w(2), of "[]"] w(1) IH by simp
qed simp

lemma py_split_ws_join:
  "py_split_ws (join_with '' '' (py_split_ws s)) = py_split_ws s"
  unfolding py_split_ws_def
  by (rule split_ws_join) (auto intro: split_ws_from_words [of "[]"])

lemma split_ws_from_space_only:
  "\<forall>c \<in> set u. py_isspace c \<Longrightarrow> split_ws_from cur u = (if cur = [] then [] else [cur])"
  by (induction u arbitrary: cur) auto

lemma split_ws_from_trailing:
  "\<forall>c \<in> set u. py_isspace c \<Longrightarrow> split_ws_from cur (s @ u) = split_ws_from cur s"
  by (induction cur s rule: split_ws_from.induct) (auto simp: split_ws_from_space_only)

lemma split_ws_from_leading:
  "split_ws_from [] (dropWhile py_isspace s) = split_ws_from [] s"
  by (induction s) auto

lemma py_rstrip_decomp: "\<exists>u. s = py_rstrip s @ u \<and> (\<forall>c \<in> set u. py_isspace c)"
proof -
  have "rev s = takeWhile py_isspace (rev s) @ dropWhile py_isspace (rev s)" by simp
  then have "s = py_rstrip s @ rev (takeWhile py_isspace (rev s))"
    by (metis py_rstrip_def rev_append rev_rev_ident)
  then show ?thesis by (auto dest: set_takeWhileD intro!: exI [of _ "rev (takeWhile py_isspace (rev s))"])
qed

text \<open>Stripping first makes no difference to the words.\<close>

lemma py_split_ws_strip: "py_split_ws (py_strip s) = py_split_ws s"
proof -
  obtain u where u: "py_lstrip s = py_strip s @ u" "\<forall>c \<in> set u. py_isspace c"
    using py_rstrip_decomp [of "py_lstrip s"] by (auto simp: py_strip_def)
  have "split_ws_from [] (py_strip s) = split_ws_from [] (py_lstrip s)"
    using split_ws_from_trailing [OF u(2), of "[]" "py_strip s"] by (simp add: u(1))
  also have "\<dots> = split_ws_from [] s"
    by (simp add: py_lstrip_def split_ws_from_leading)
  finally show ?thesis by (simp add: py_split_ws_def)
qed

lemma py_split_ws_Nil_iff: "py_split_ws s = [] \<longleftrightarrow> (\<forall>c \<in> set s. py_isspace c)"
proof -
  have "cur \<noteq> [] \<Longrightarrow> split_ws_from cur s \<noteq> []" for cur s
    by (induction cur s rule: split_ws_from.induct) auto
  then have "split_ws_from [] s = [] \<longleftrightarrow> (\<forall>c \<in> set s. py_isspace c)"
    by (induction s) auto
  then show ?thesis by (simp add: py_split_ws_def)
qed

lemma py_strip_idem [simp]: "py_strip (py_strip s) = py_strip s"
proof -
  have r: "py_rstrip (py_rstrip t) = py_rstrip t" for t
    by (simp add: py_rstrip_def)
  have hd: "py_rstrip t = [] \<or> \<not> py_isspace (hd (py_rstrip t))"
    if h: "t = [] \<or> \<not> py_isspace (hd t)" for t
  proof (cases "py_rstrip t")
    case Nil
    then show ?thesis by simp
  next
    case (Cons x xs)
    obtain u where "t = py_rstrip t @ u" using py_rstrip_decomp [of t] by blast
    with Cons have "t = x # (xs @ u)" by simp
    with h Cons show ?thesis by simp
  qed
  have "py_lstrip s = [] \<or> \<not> py_isspace (hd (py_lstrip s))"
    using hd_dropWhile [of py_isspace s] unfolding py_lstrip_def by blast
  then have "py_strip s = [] \<or> \<not> py_isspace (hd (py_strip s))"
    unfolding py_strip_def by (rule hd)
  then have "py_lstrip (py_strip s) = py_strip s"
    unfolding py_lstrip_def by (metis dropWhile.simps list.collapse)
  then show ?thesis by (simp add: py_strip_def r)
qed

lemma lower_char_idem [simp]: "lower_char (lower_char c) = lower_char c"
proof (cases "(65 \<le> (of_char c :: nat) \<and> (of_char c :: nat) \<le> 90) \<or>
    (192 \<le> (of_char c :: nat) \<and> (of_char c :: nat) \<le> 222 \<and> (of_char c :: nat) \<noteq> 215)")
  case True
  then have l: "lower_char c = char_of ((of_char c :: nat) + 32)"
    by (simp add: lower_char_def Let_def)
  have "(of_char (lower_char c) :: nat) = (of_char c + 32) mod 256"
    unfolding l by simp
  also have "\<dots> = of_char c + 32"
    using True by (intro mod_less) auto
  finally show ?thesis using True by (auto simp add: lower_char_def [of "lower_char c"])
next
  case False
  then have "lower_char c = c" by (auto simp: lower_char_def Let_def)
  then show ?thesis by simp
qed

lemma py_isspace_lower [simp]: "py_isspace (lower_char c) = py_isspace c"
proof (cases "(65 \<le> (of_char c :: nat) \<and> (of_char c :: nat) \<le> 90) \<or>
    (192 \<le> (of_char c :: nat) \<and> (of_char c :: nat) \<le> 222 \<and> (of_char c :: nat) \<noteq> 215)")
  case True
  then have l: "lower_char c = char_of ((of_char c :: nat) + 32)"
    by (simp add: lower_char_def Let_def)
  have "(of_char (lower_char c) :: nat) = (of_char c + 32) mod 256"
    unfolding l by simp
  also have "\<dots> = of_char c + 32"
    using True by (intro mod_less) auto
  finally show ?thesis using True by (auto simp add: py_isspace_def)
next
  case False
  then have "lower_char c = c" by (auto simp: lower_char_def Let_def)
  then show ?thesis by simp
qed

lemma dropWhile_space_lower:
  "dropWhile py_isspace (map lower_char s) = map lower_char (dropWhile py_isspace s)"
  by (simp add: dropWhile_map comp_def)

lemma py_strip_lower: "py_strip (py_lower s) = py_lower (py_strip s)"
  by (simp add: py_strip_def py_rstrip_def py_lstrip_def py_lower_def dropWhile_space_lower
      rev_map)

section \<open>Splitting on a character\<close>

lemma py_split_char_Nil [simp]: "py_split_char d s \<noteq> []"
  by (induction s) (auto split: list.splits)

lemma length_py_split_char: "length (py_split_char d s) = Suc (count_list s d)"
  by (induction s) (auto split: list.splits)

lemma join_py_split_char: "join_with [d] (py_split_char d s) = s"
proof (induction s)
  case Nil
  then show ?case by simp
next
  case (Cons c cs)
  obtain p ps where ps: "py_split_char d cs = p # ps"
    by (cases "py_split_char d cs") auto
  with Cons show ?case by (cases ps) auto
qed

lemma last_py_split_char_free: "d \<notin> set (last (py_split_char d s))"
proof (induction s)
  case Nil
  then show ?case by simp
next
  case (Cons c cs)
  obtain p ps where ps: "py_split_char d cs = p # ps"
    by (cases "py_split_char d cs") auto
  with Cons show ?case by (cases ps) auto
qed

lemma last_py_split_char_append:
  "d \<notin> set t \<Longrightarrow> last (py_split_char d (u @ d # t)) = t"
proof (induction u)
  case Nil
  have "py_split_char d t = [t]" if "d \<notin> set t" for t
    using that by (induction t) auto
  with Nil show ?case by simp
next
  case (Cons c u)
  obtain p ps where ps: "py_split_char d (u @ d # t) = p # ps"
    by (cases "py_split_char d (u @ d # t)") auto
  have "length (py_split_char d (u @ d # t)) = Suc (count_list (u @ d # t) d)"
    by (rule length_py_split_char)
  then have "ps \<noteq> []" by (cases ps) (simp_all add: ps)
  with Cons ps show ?case by auto
qed

lemma py_lower_idem [simp]: "py_lower (py_lower s) = py_lower s"
  by (simp add: py_lower_def)

lemma length_py_lower [simp]: "length (py_lower s) = length s"
  by (simp add: py_lower_def)

section \<open>Numbers as text\<close>

lemma digit_val_code: "n < 10 \<Longrightarrow> digit_val (char_of (48 + n)) = Some n"
  by (simp add: digit_val_def Let_def)

lemma digits_value_append:
  "digits_value acc (s @ [c]) =
     (case digits_value acc s of None \<Rightarrow> None | Some n \<Rightarrow> map_option (\<lambda>x. 10 * n + x) (digit_val c))"
  by (induction acc s rule: digits_value.induct) (auto split: option.splits)

lemma digits_value_str: "digits_value 0 (py_str_nat n) = Some n"
proof (induction n rule: py_str_nat.induct)
  case (1 n)
  show ?case
  proof (cases "n < 10")
    case True
    then show ?thesis using digit_val_code [of n] by (simp add: py_str_nat.simps [of n])
  next
    case False
    then show ?thesis
      using 1 digit_val_code [of "n mod 10"] by (simp add: py_str_nat.simps [of n] digits_value_append)
  qed
qed

text \<open>\<open>int(str(n)) = n\<close>.\<close>

lemma py_int_text_str [simp]: "py_int_text (py_str_nat n) = Inr n"
proof -
  have "py_str_nat n \<noteq> []" by (simp add: py_str_nat.simps [of n])
  then show ?thesis by (simp add: py_int_text_def digits_value_str)
qed

section \<open>Unique identifiers\<close>

text \<open>\<open>uuid.UUID(text)\<close> with \<open>str\<close> of the result: prefixes, braces and dashes are dropped, 32 hexadecimal digits
  must remain (a sign, an underscore or a blank in their place, which \<open>int(_, 16)\<close> might accept, counts as
  malformed), and they are printed in lower case in five groups.\<close>

definition is_hex :: "char \<Rightarrow> bool" where
  "is_hex c \<longleftrightarrow> c \<in> set ''0123456789abcdefABCDEF''"

definition strip_braces :: "string \<Rightarrow> string" where
  "strip_braces s = (let f = dropWhile (\<lambda>c. c \<in> set ''{}'') in rev (f (rev (f s))))"

definition dashed :: "string \<Rightarrow> string" where
  "dashed h = take 8 h @ ''-'' @ take 4 (drop 8 h) @ ''-'' @ take 4 (drop 12 h) @ ''-'' @ take 4 (drop 16 h) @ ''-'' @ drop 20 h"

definition UUID :: "string \<Rightarrow> string result" where
  "UUID s = (let h = filter (\<lambda>c. c \<noteq> CHR ''-'') (strip_braces (remove_all ''uuid:'' (remove_all ''urn:'' s))) in
     if length h \<noteq> 32 then raise ValueError ''badly formed hexadecimal UUID string''
     else if \<exists>c \<in> set h. \<not> is_hex c then raise ValueError ''invalid literal for int() with base 16''
     else Inr (dashed (py_lower h)))"

text \<open>The texts that \<open>str\<close> of a \<open>UUID\<close> yields.\<close>

definition is_uuid :: "string \<Rightarrow> bool" where
  "is_uuid s \<longleftrightarrow> UUID s = Inr s"

lemma uuid_form:
  assumes "is_uuid s"
  obtains h where "length h = 32" "\<forall>c \<in> set h. is_hex c" "s = dashed (py_lower h)"
proof -
  define h where "h = filter (\<lambda>c. c \<noteq> CHR ''-'') (strip_braces (remove_all ''uuid:'' (remove_all ''urn:'' s)))"
  from assms have "length h = 32" "\<forall>c \<in> set h. is_hex c" "s = dashed (py_lower h)"
    by (auto simp: is_uuid_def UUID_def Let_def h_def [symmetric] split: if_splits)
  with that show thesis .
qed

lemma set_dashed: "set (dashed h) \<subseteq> insert CHR ''-'' (set h)"
  by (auto simp: dashed_def dest: in_set_takeD in_set_dropD)

lemma uuid_length: "is_uuid s \<Longrightarrow> length s = 36"
  by (erule uuid_form) (simp add: dashed_def)

lemma lower_is_hex: "is_hex b \<Longrightarrow> lower_char b \<in> set ''0123456789abcdef''"
proof -
  have "\<forall>b \<in> set ''0123456789abcdefABCDEF''. lower_char b \<in> set ''0123456789abcdef''" by code_simp
  then show "is_hex b \<Longrightarrow> lower_char b \<in> set ''0123456789abcdef''" unfolding is_hex_def by blast
qed

lemma uuid_chars: "is_uuid s \<Longrightarrow> c \<in> set s \<Longrightarrow> c = CHR ''-'' \<or> c \<in> set ''0123456789abcdef''"
  using set_dashed lower_is_hex by (elim uuid_form) (fastforce simp: py_lower_def simp del: list.set)

text \<open>Two identifiers for examples.\<close>

definition uuid_a :: string where "uuid_a = ''aaaaaaaa-aaaa-4aaa-8aaa-aaaaaaaaaaaa''"
definition uuid_b :: string where "uuid_b = ''bbbbbbbb-bbbb-4bbb-8bbb-bbbbbbbbbbbb''"

lemma demo_uuids: "is_uuid uuid_a" "is_uuid uuid_b"
  by code_simp+

lemma UUID_demo [simp]: "UUID uuid_a = Inr uuid_a" "UUID uuid_b = Inr uuid_b"
  using demo_uuids by (simp_all add: is_uuid_def)

lemma endswith_iff: "endswith s p \<longleftrightarrow> (\<exists>a. s = a @ p)"
  unfolding endswith_def
  by (metis append_take_drop_id append_eq_append_conv diff_diff_cancel length_append length_drop le_add2 add_diff_cancel_right' append_eq_conv_conj)

lemma endswith_suffix: "endswith s p \<Longrightarrow> endswith (r @ s) p"
  by (metis append.assoc endswith_iff)

lemma split_first_char: "d \<notin> set a \<Longrightarrow> split_first [d] (a @ d # b) = Some (a, b)"
  by (induction a) (auto simp: startswith_def)

end
