(* ===== verification/Value_Objects.thy ===== *)
theory Value_Objects
  imports Complex_Main PyString
begin

text \<open>
  The value objects of \<open>backend/src/domain\<close>: storage sizes, e-mail addresses and tenant names
  (\<open>shared/value_objects.py\<close>), normalised query texts and their hashes
  (\<open>query_catalog/value_objects.py\<close>), and database names
  (\<open>database_management/value_objects.py\<close>). A constructor whose \<open>__post_init__\<close> raises is a
  function into \<open>result\<close>. Python floats are modelled as exact rationals: rounding is not modelled.
  \<open>sha256\<close> is a parameter of the definitions that hash.
\<close>

section \<open>Storage sizes\<close>

datatype storage_unit = BYTES | KB | MB | GB

record storage_size =
  amount :: rat
  size_unit :: storage_unit

definition StorageSize :: "rat \<Rightarrow> storage_unit \<Rightarrow> storage_size result" where
  "StorageSize a u = (if a < 0 then raise ValidationError ''Storage size cannot be negative''
     else Inr \<lparr>amount = a, size_unit = u\<rparr>)"

definition to_megabytes :: "storage_size \<Rightarrow> rat" where
  "to_megabytes s = (case size_unit s of
       BYTES \<Rightarrow> amount s / (1024 * 1024)
     | KB \<Rightarrow> amount s / 1024
     | MB \<Rightarrow> amount s
     | GB \<Rightarrow> amount s * 1024)"

text \<open>\<open>int(x)\<close> truncates towards zero.\<close>

definition py_int :: "rat \<Rightarrow> int" where
  "py_int x = (if 0 \<le> x then \<lfloor>x\<rfloor> else \<lceil>x\<rceil>)"

definition to_bytes :: "storage_size \<Rightarrow> int" where
  "to_bytes s = py_int (to_megabytes s * 1024 * 1024)"

definition storage_add :: "storage_size \<Rightarrow> storage_size \<Rightarrow> storage_size result" where
  "storage_add a b = StorageSize (to_megabytes a + to_megabytes b) MB"

definition storage_sub :: "storage_size \<Rightarrow> storage_size \<Rightarrow> storage_size result" where
  "storage_sub a b =
     (let total_mb = to_megabytes a - to_megabytes b
      in StorageSize (if total_mb < 0 then 0 else total_mb) MB)"

definition storage_gt :: "storage_size \<Rightarrow> storage_size \<Rightarrow> bool" where
  "storage_gt a b \<longleftrightarrow> to_megabytes b < to_megabytes a"

text \<open>Every size that a constructor call returned is valid.\<close>

definition valid_size :: "storage_size \<Rightarrow> bool" where
  "valid_size s \<longleftrightarrow> 0 \<le> amount s"

lemma StorageSize_valid: "StorageSize a u = Inr s \<Longrightarrow> valid_size s"
  by (auto simp: StorageSize_def valid_size_def split: if_splits)

lemma to_megabytes_nonneg: "valid_size s \<Longrightarrow> 0 \<le> to_megabytes s"
  by (auto simp: to_megabytes_def valid_size_def split: storage_unit.splits)

lemma storage_add_total:
  assumes "valid_size a" "valid_size b"
  shows "storage_add a b = Inr \<lparr>amount = to_megabytes a + to_megabytes b, size_unit = MB\<rparr>"
  using to_megabytes_nonneg [OF assms(1)] to_megabytes_nonneg [OF assms(2)]
  by (simp add: storage_add_def StorageSize_def)

lemma storage_sub_total:
  "storage_sub a b =
     Inr \<lparr>amount = max 0 (to_megabytes a - to_megabytes b), size_unit = MB\<rparr>"
  by (auto simp: storage_sub_def StorageSize_def max_def Let_def)

lemma to_megabytes_MB [simp]: "to_megabytes \<lparr>amount = x, size_unit = MB\<rparr> = x"
  by (simp add: to_megabytes_def)

section \<open>E-mail addresses\<close>

definition EmailAddress :: "string \<Rightarrow> string result" where
  "EmailAddress value =
     (let email = py_lower (py_strip value);
          err = raise ValidationError (''Invalid email address: '' @ value)
      in if email = [] then err
         else if CHR ''@'' \<notin> set email then err
         else (case py_split_char CHR ''@'' email of
             [local_part, domain_part] \<Rightarrow>
               if local_part = [] \<or> domain_part = [] then err
               else if CHR ''.'' \<notin> set domain_part then err
               else Inr email
           | _ \<Rightarrow> err))"

section \<open>Tenant names\<close>

definition tenant_char :: "char \<Rightarrow> bool" where
  "tenant_char c \<longleftrightarrow> py_isalnum c \<or> c \<in> {CHR '' '', CHR ''-'', CHR ''_''}"

definition TenantName :: "string \<Rightarrow> string result" where
  "TenantName value =
     (let name = py_strip value
      in if name = [] \<or> length name < 3
           then raise ValidationError ''Tenant name must be at least 3 characters''
         else if 50 < length name
           then raise ValidationError ''Tenant name cannot exceed 50 characters''
         else if \<not> list_all tenant_char name
           then raise ValidationError ''Tenant name contains invalid characters''
         else Inr name)"

section \<open>Query texts and hashes\<close>

definition normalize_query_text :: "string \<Rightarrow> string" where
  "normalize_query_text raw = join_with '' '' (py_split_ws (py_strip raw))"

definition QueryText :: "string \<Rightarrow> string result" where
  "QueryText value =
     (let normalized = normalize_query_text value
      in if normalized = [] then raise ValidationError ''Query text cannot be empty''
         else if 10000 < length normalized
           then raise ValidationError ''Query text exceeds maximum length of 10000 characters''
         else Inr normalized)"

definition hex_char :: "char \<Rightarrow> bool" where
  "hex_char c \<longleftrightarrow> c \<in> set ''0123456789abcdef''"

definition QueryHash :: "string \<Rightarrow> string result" where
  "QueryHash value =
     (let v = py_lower (py_strip value)
      in if v = [] then raise ValidationError ''Query hash cannot be empty''
         else if \<not> list_all hex_char v then raise ValidationError ''Query hash must be lowercase hex''
         else if length v < 12 then raise ValidationError ''Query hash too short''
         else Inr v)"

text \<open>\<open>sha\<close> stands for \<open>lambda t: sha256(t.encode("utf-8")).hexdigest()\<close>.\<close>

definition from_query_text :: "(string \<Rightarrow> string) \<Rightarrow> string \<Rightarrow> nat \<Rightarrow> string result" where
  "from_query_text sha text len =
     (if len < 12 \<or> 64 < len then raise ValidationError ''Hash length must be between 12 and 64''
      else QueryHash (take len (sha text)))"

text \<open>What the code relies on: a SHA-256 hex digest is 64 lower-case hexadecimal digits.\<close>

definition hex_digest :: "(string \<Rightarrow> string) \<Rightarrow> bool" where
  "hex_digest sha \<longleftrightarrow> (\<forall>t. length (sha t) = 64 \<and> list_all hex_char (sha t))"

section \<open>Database names\<close>

text \<open>\<open>re.match(r"^[..]..$", v)\<close>: the anchor \<open>$\<close> also matches before a final newline.\<close>

definition dollar_body :: "string \<Rightarrow> string list" where
  "dollar_body v = (if v \<noteq> [] \<and> last v = CHR 0x0A then [v, butlast v] else [v])"

definition db_name_char :: "char \<Rightarrow> bool" where
  "db_name_char c \<longleftrightarrow> is_lower_az c \<or> is_digit c \<or> c = CHR ''_'' \<or> c = CHR ''-''"

definition db_name_pattern :: "string \<Rightarrow> bool" where
  "db_name_pattern v \<longleftrightarrow>
     list_ex (\<lambda>w. list_all db_name_char w \<and> 3 \<le> length w \<and> length w \<le> 40) (dollar_body v)"

definition DatabaseName :: "string \<Rightarrow> string result" where
  "DatabaseName value =
     (if \<not> db_name_pattern value
      then raise ProvisioningValidationError ''DatabaseName must be 3-40 chars, lowercase, [a-z0-9_-]''
      else Inr value)"

section \<open>What the constructors guarantee\<close>

lemma EmailAddress_cases:
  assumes "EmailAddress v = Inr e"
  obtains l d where "e = l @ CHR ''@'' # d" "e = py_lower (py_strip v)" "l \<noteq> []" "d \<noteq> []"
    "CHR ''@'' \<notin> set d" "CHR ''@'' \<notin> set l" "CHR ''.'' \<in> set d"
proof -
  define m where "m = py_lower (py_strip v)"
  from assms obtain l d where s: "py_split_char CHR ''@'' m = [l, d]" "l \<noteq> []" "d \<noteq> []"
      "CHR ''.'' \<in> set d" "e = m"
    by (auto simp: EmailAddress_def m_def [symmetric] Let_def split: if_splits list.splits)
  have m: "m = l @ CHR ''@'' # d"
    using join_py_split_char [of "CHR ''@''" m] by (simp add: s(1))
  have "Suc (count_list m CHR ''@'') = 2"
    using length_py_split_char [of "CHR ''@''" m] by (simp add: s(1))
  then have "count_list l CHR ''@'' = 0" "count_list d CHR ''@'' = 0"
    by (simp_all add: m)
  then have "CHR ''@'' \<notin> set d" "CHR ''@'' \<notin> set l"
    by (simp_all add: count_list_0_iff)
  with s m show thesis by (intro that [of l d]) (simp_all add: m_def)
qed

text \<open>An address is a fixed point of its own normalisation.\<close>

lemma EmailAddress_idem:
  assumes "EmailAddress v = Inr e"
  shows "EmailAddress e = Inr e"
proof -
  from assms have e: "e = py_lower (py_strip v)" by (rule EmailAddress_cases)
  have "py_lower (py_strip e) = e"
    unfolding e by (simp add: py_strip_lower)
  then have "py_lower (py_strip e) = py_lower (py_strip v)" by (simp add: e)
  with assms show ?thesis by (auto simp: EmailAddress_def Let_def split: if_splits list.splits)
qed

lemma TenantName_iff:
  "TenantName v = Inr n \<longleftrightarrow>
     n = py_strip v \<and> 3 \<le> length n \<and> length n \<le> 50 \<and> list_all tenant_char n"
  by (auto simp: TenantName_def Let_def)

lemma TenantName_idem: "TenantName v = Inr n \<Longrightarrow> TenantName n = Inr n"
  by (auto simp: TenantName_iff)

lemma normalize_idem [simp]: "normalize_query_text (normalize_query_text q) = normalize_query_text q"
  by (simp add: normalize_query_text_def py_split_ws_strip py_split_ws_join)

lemma normalize_eq_iff:
  "normalize_query_text a = normalize_query_text b \<longleftrightarrow> py_split_ws a = py_split_ws b"
proof
  assume "normalize_query_text a = normalize_query_text b"
  then have "py_split_ws (normalize_query_text a) = py_split_ws (normalize_query_text b)" by simp
  then show "py_split_ws a = py_split_ws b"
    by (simp add: normalize_query_text_def py_split_ws_strip py_split_ws_join)
qed (simp add: normalize_query_text_def py_split_ws_strip)

lemma QueryText_iff:
  "QueryText v = Inr t \<longleftrightarrow>
     t = normalize_query_text v \<and> t \<noteq> [] \<and> length t \<le> 10000"
  by (auto simp: QueryText_def Let_def)

lemma hex_char_facts:
  assumes "hex_char c"
  shows "\<not> py_isspace c" and "lower_char c = c"
  using assms by (auto simp: hex_char_def py_isspace_def lower_char_def)

lemma strip_hex: "list_all hex_char v \<Longrightarrow> py_strip v = v"
proof -
  have d: "dropWhile py_isspace w = w" if "list_all hex_char w" for w
    using that by (cases w) (simp_all add: hex_char_facts)
  assume "list_all hex_char v"
  then show ?thesis by (simp add: py_strip_def py_lstrip_def py_rstrip_def d list.pred_set)
qed

lemma lower_hex: "list_all hex_char v \<Longrightarrow> py_lower v = v"
  by (simp add: py_lower_def list.pred_set hex_char_facts map_idI)

lemma QueryHash_hex:
  "list_all hex_char v \<Longrightarrow> 12 \<le> length v \<Longrightarrow> QueryHash v = Inr v"
  by (auto simp: QueryHash_def Let_def strip_hex lower_hex)

text \<open>On every digest the hash of a text is its prefix: hashing never fails after validation.\<close>

lemma from_query_text_total:
  assumes "hex_digest sha" "12 \<le> len" "len \<le> 64"
  shows "from_query_text sha text len = Inr (take len (sha text))"
proof -
  have "list_all hex_char (take len (sha text))"
    using assms(1) by (auto simp: hex_digest_def list.pred_set dest: in_set_takeD)
  moreover have "length (take len (sha text)) = len"
    using assms by (simp add: hex_digest_def)
  ultimately show ?thesis using assms(2,3) by (simp add: from_query_text_def QueryHash_hex)
qed

lemma db_name_pattern_iff:
  "db_name_pattern v \<longleftrightarrow>
     (list_all db_name_char v \<and> 3 \<le> length v \<and> length v \<le> 40) \<or>
     (\<exists>w. v = w @ [CHR 0x0A] \<and> list_all db_name_char w \<and> 3 \<le> length w \<and> length w \<le> 40)"
proof (cases "v \<noteq> [] \<and> last v = CHR 0x0A")
  case True
  then have "v = butlast v @ [CHR 0x0A]" by (metis append_butlast_last_id)
  moreover have "w = butlast v" if "v = w @ [CHR 0x0A]" for w using that by simp
  ultimately show ?thesis using True unfolding db_name_pattern_def dollar_body_def by auto
next
  case False
  then show ?thesis unfolding db_name_pattern_def dollar_body_def by auto
qed

lemma db_name_pattern_length: "db_name_pattern v \<Longrightarrow> length v \<le> 41"
  by (auto simp: db_name_pattern_iff)

section \<open>Properties\<close>

text \<open>C32: A query's identity is its words. Two texts that validate have the same normal form exactly when
  they have the same words between white space; the normal form validates to itself; and it always has
  a hash, the prefix of its digest, so equal queries share a catalog entry.\<close>

theorem query_identity:
  assumes "QueryText a = Inr s" "QueryText b = Inr t" "hex_digest sha" "12 \<le> len" "len \<le> 64"
  shows "(s = t \<longleftrightarrow> py_split_ws a = py_split_ws b) \<and> QueryText s = Inr s \<and>
    from_query_text sha s len = Inr (take len (sha s))"
  using assms by (auto simp: QueryText_iff normalize_eq_iff from_query_text_total)

theorem query_identity_witness:
  "QueryText ''  MATCH (n)  RETURN n '' = Inr ''MATCH (n) RETURN n'' \<and>
   from_query_text (\<lambda>_. replicate 64 CHR ''a'') ''MATCH (n) RETURN n'' 16 = Inr (replicate 16 CHR ''a'')"
proof -
  have q: "QueryText ''  MATCH (n)  RETURN n '' = Inr ''MATCH (n) RETURN n''" by code_simp
  have h: "hex_digest (\<lambda>_. replicate 64 CHR ''a'')" by (simp add: hex_digest_def hex_char_def list.pred_set)
  show ?thesis using query_identity [OF q q h, of 16] q by simp
qed

text \<open>A validated e-mail address has exactly one at sign with text on both sides and a dot after it,
  is stripped and in lower case, and validates to itself.\<close>

lemma email_address_wellformed:
  assumes "EmailAddress v = Inr e"
  shows "(\<exists>l d. e = l @ CHR ''@'' # d \<and> l \<noteq> [] \<and> CHR ''@'' \<notin> set l \<and> CHR ''@'' \<notin> set d \<and> CHR ''.'' \<in> set d) \<and>
    e = py_lower (py_strip v) \<and> EmailAddress e = Inr e"
proof -
  from assms obtain l d where "e = l @ CHR ''@'' # d" "e = py_lower (py_strip v)" "l \<noteq> []"
    "CHR ''@'' \<notin> set d" "CHR ''@'' \<notin> set l" "CHR ''.'' \<in> set d" by (rule EmailAddress_cases)
  with EmailAddress_idem [OF assms] show ?thesis by blast
qed

end
