(* ===== verification/Customer_Account.thy ===== *)
theory Customer_Account
  imports Value_Objects
begin

text \<open>
  The customer account aggregate (\<open>domain/tenant_management/customer_account.py\<close>): API keys,
  subscriptions, the account and its operations. Times are microseconds since the epoch; \<open>now\<close> is
  the value \<open>datetime.utcnow()\<close> has during the operation and \<open>tok\<close> what
  \<open>secrets.token_urlsafe(32)\<close> returns. Entity ids are the texts of UUIDs. An operation returns its
  result and the account it leaves behind, also when it raises, because a Python exception does not
  undo the assignments before it. The identifiers and times inside domain events are not modelled.
\<close>

section \<open>Status, plans, events\<close>

datatype account_status = ACTIVE | SUSPENDED | TRIAL | EXPIRED | DELETED

datatype plan = Trial | Basic | Professional | Enterprise

fun status_value :: "account_status \<Rightarrow> string" where
  "status_value ACTIVE = ''active''"
| "status_value SUSPENDED = ''suspended''"
| "status_value TRIAL = ''trial''"
| "status_value EXPIRED = ''expired''"
| "status_value DELETED = ''deleted''"

fun plan_value :: "plan \<Rightarrow> string" where
  "plan_value Trial = ''trial''"
| "plan_value Basic = ''basic''"
| "plan_value Professional = ''professional''"
| "plan_value Enterprise = ''enterprise''"

datatype domain_event =
    CustomerAccountCreated
  | CustomerAccountSuspended string
  | CustomerAccountActivated
  | StorageQuotaExceeded rat rat rat

section \<open>API keys\<close>

record api_key =
  key_value :: string
  key_created_at :: int
  last_used :: "int option"
  is_active :: bool

definition ApiKey :: "string \<Rightarrow> int \<Rightarrow> int option \<Rightarrow> bool \<Rightarrow> api_key result" where
  "ApiKey value created used active =
     (if \<not> startswith value ''kb_'' then raise ValidationError ''API key must start with 'kb_' prefix''
      else if length value < 35 then raise ValidationError ''API key is too short''
      else Inr \<lparr>key_value = value, key_created_at = created, last_used = used, is_active = active\<rparr>)"

definition ApiKey_generate :: "string \<Rightarrow> int \<Rightarrow> api_key result" where
  "ApiKey_generate tok now = ApiKey (''kb_'' @ tok) now None True"

definition mark_as_used :: "int \<Rightarrow> api_key \<Rightarrow> unit result \<times> api_key" where
  "mark_as_used now k =
     (if \<not> is_active k then (raise BusinessRuleViolation ''Cannot use inactive API key'', k)
      else (Inr (), k\<lparr>last_used := Some now\<rparr>))"

definition deactivate :: "api_key \<Rightarrow> api_key" where
  "deactivate k = k\<lparr>is_active := False\<rparr>"

section \<open>Subscriptions\<close>

record subscription_details =
  sub_plan :: plan
  storage_quota :: storage_size
  max_databases :: int
  max_concurrent_queries :: int
  started_at :: int
  expires_at :: "int option"

definition SubscriptionDetails ::
  "plan \<Rightarrow> storage_size \<Rightarrow> int \<Rightarrow> int \<Rightarrow> int \<Rightarrow> int option \<Rightarrow> subscription_details result" where
  "SubscriptionDetails p q maxdb maxq started expires =
     (if maxdb \<le> 0 then raise ValidationError ''Maximum databases must be positive''
      else if maxq \<le> 0 then raise ValidationError ''Maximum concurrent queries must be positive''
      else Inr \<lparr>sub_plan = p, storage_quota = q, max_databases = maxdb,
                max_concurrent_queries = maxq, started_at = started, expires_at = expires\<rparr>)"

definition is_expired :: "int \<Rightarrow> subscription_details \<Rightarrow> bool" where
  "is_expired now s = (case expires_at s of None \<Rightarrow> False | Some e \<Rightarrow> e < now)"

text \<open>\<open>timedelta.days\<close> is the floor of the difference in days.\<close>

definition days_until_expiration :: "int \<Rightarrow> subscription_details \<Rightarrow> int option" where
  "days_until_expiration now s = (case expires_at s of None \<Rightarrow> None
     | Some e \<Rightarrow> Some (max 0 ((e - now) div 86400000000)))"

text \<open>The table \<open>plan_limits\<close>: storage in MB, databases, concurrent queries.\<close>

fun plan_limits :: "plan \<Rightarrow> rat \<times> int \<times> int" where
  "plan_limits Trial = (100, 3, 5)"
| "plan_limits Basic = (1000, 10, 20)"
| "plan_limits Professional = (10000, 50, 100)"
| "plan_limits Enterprise = (100000, 1000, 1000)"

section \<open>The account\<close>

record account =
  acc_id :: string
  acc_name :: string
  email :: string
  key :: api_key
  status :: account_status
  subscription :: subscription_details
  usage :: storage_size
  database_count :: int
  created_at :: int
  updated_at :: int
  last_login :: "int option"
  events :: "domain_event list"

text \<open>\<open>__post_init__\<close> checks the database count and announces an account created less than a
  second ago.\<close>

definition account_post_init :: "int \<Rightarrow> account \<Rightarrow> account result" where
  "account_post_init now a =
     (if database_count a < 0 then raise ValidationError ''Database count cannot be negative''
      else Inr (if \<bar>now - created_at a\<bar> < 1000000
                then a\<lparr>events := events a @ [CustomerAccountCreated]\<rparr> else a))"

text \<open>The defaults of a subscription and of an account that its caller gives id, name and e-mail.\<close>

definition default_subscription :: "int \<Rightarrow> subscription_details" where
  "default_subscription now =
     \<lparr>sub_plan = Trial, storage_quota = \<lparr>amount = 100, size_unit = MB\<rparr>, max_databases = 3,
      max_concurrent_queries = 5, started_at = now, expires_at = None\<rparr>"

definition CustomerAccount ::
  "int \<Rightarrow> string \<Rightarrow> string \<Rightarrow> string \<Rightarrow> string \<Rightarrow> account_status \<Rightarrow> account result" where
  "CustomerAccount now tok i nm em st =
     bind_r (ApiKey_generate tok now) (\<lambda>k.
       account_post_init now
         \<lparr>acc_id = i, acc_name = nm, email = em, key = k, status = st,
          subscription = default_subscription now, usage = \<lparr>amount = 0, size_unit = MB\<rparr>,
          database_count = 0, created_at = now, updated_at = now, last_login = None, events = []\<rparr>)"

section \<open>Operations\<close>

type_synonym acc_result = "unit result \<times> account"

definition add_event :: "domain_event \<Rightarrow> account \<Rightarrow> account" where
  "add_event e a = a\<lparr>events := events a @ [e]\<rparr>"

definition mark_events_as_committed :: "account \<Rightarrow> account" where
  "mark_events_as_committed a = a\<lparr>events := []\<rparr>"

definition suspend_account :: "int \<Rightarrow> string \<Rightarrow> account \<Rightarrow> acc_result" where
  "suspend_account now reason a =
     (if status a = DELETED then (raise BusinessRuleViolation ''Cannot suspend deleted account'', a)
      else if status a = SUSPENDED
        then (raise BusinessRuleViolation ''Account is already suspended'', a)
      else (Inr (), add_event (CustomerAccountSuspended reason)
              (a\<lparr>status := SUSPENDED, key := deactivate (key a), updated_at := now\<rparr>)))"

definition activate_account :: "int \<Rightarrow> string \<Rightarrow> account \<Rightarrow> acc_result" where
  "activate_account now tok a =
     (if status a = DELETED then (raise BusinessRuleViolation ''Cannot activate deleted account'', a)
      else if is_expired now (subscription a)
        then (raise BusinessRuleViolation ''Cannot activate account with expired subscription'', a)
      else let b = a\<lparr>status := ACTIVE\<rparr> in
        if is_active (key b)
        then (Inr (), add_event CustomerAccountActivated (b\<lparr>updated_at := now\<rparr>))
        else (case ApiKey_generate tok now of
            Inl e \<Rightarrow> (Inl e, b)
          | Inr k \<Rightarrow> (Inr (), add_event CustomerAccountActivated (b\<lparr>key := k, updated_at := now\<rparr>))))"

definition can_create_database :: "int \<Rightarrow> account \<Rightarrow> bool" where
  "can_create_database now a \<longleftrightarrow>
     status a = ACTIVE \<and> database_count a < max_databases (subscription a) \<and>
     \<not> is_expired now (subscription a)"

definition can_upload_file :: "int \<Rightarrow> storage_size \<Rightarrow> account \<Rightarrow> bool result" where
  "can_upload_file now sz a =
     (if status a \<noteq> ACTIVE then Inr False
      else if is_expired now (subscription a) then Inr False
      else bind_r (storage_add (usage a) sz) (\<lambda>total_after_upload.
        Inr (\<not> storage_gt total_after_upload (storage_quota (subscription a)))))"

definition allocate_storage :: "int \<Rightarrow> storage_size \<Rightarrow> account \<Rightarrow> acc_result" where
  "allocate_storage now sz a = (case can_upload_file now sz a of
       Inl e \<Rightarrow> (Inl e, a)
     | Inr False \<Rightarrow> (raise BusinessRuleViolation ''Storage allocation would exceed quota'', a)
     | Inr True \<Rightarrow> (case storage_add (usage a) sz of
           Inl e \<Rightarrow> (Inl e, a)
         | Inr u \<Rightarrow>
             let b = a\<lparr>usage := u, updated_at := now\<rparr>;
                 quota_mb = to_megabytes (storage_quota (subscription b));
                 usage_mb = to_megabytes (usage b)
             in if quota_mb * (9 / 10) \<le> usage_mb
                then if quota_mb = 0 then (raise ZeroDivisionError ''float division by zero'', b)
                     else (Inr (), add_event
                            (StorageQuotaExceeded usage_mb quota_mb (usage_mb / quota_mb * 100)) b)
                else (Inr (), b)))"

definition deallocate_storage :: "int \<Rightarrow> storage_size \<Rightarrow> account \<Rightarrow> acc_result" where
  "deallocate_storage now sz a = (case storage_sub (usage a) sz of
       Inl e \<Rightarrow> (Inl e, a)
     | Inr u \<Rightarrow> (Inr (), a\<lparr>usage := u, updated_at := now\<rparr>))"

definition increment_database_count :: "int \<Rightarrow> account \<Rightarrow> acc_result" where
  "increment_database_count now a =
     (if \<not> can_create_database now a
      then (raise BusinessRuleViolation ''Cannot create more databases'', a)
      else (Inr (), a\<lparr>database_count := database_count a + 1, updated_at := now\<rparr>))"

definition decrement_database_count :: "int \<Rightarrow> account \<Rightarrow> acc_result" where
  "decrement_database_count now a =
     (Inr (), if 0 < database_count a
              then a\<lparr>database_count := database_count a - 1, updated_at := now\<rparr> else a)"

definition update_last_login :: "int \<Rightarrow> account \<Rightarrow> acc_result" where
  "update_last_login now a =
     (let b = a\<lparr>last_login := Some now\<rparr>; (r, k) = mark_as_used now (key b)
      in (r, b\<lparr>key := k\<rparr>))"

definition upgrade_subscription :: "int \<Rightarrow> plan \<Rightarrow> account \<Rightarrow> acc_result" where
  "upgrade_subscription now new_plan a =
     (if status a = DELETED then (raise BusinessRuleViolation ''Cannot upgrade deleted account'', a)
      else let (mb, dbs, qs) = plan_limits new_plan in
        (case bind_r (StorageSize mb MB) (\<lambda>q. SubscriptionDetails new_plan q dbs qs now None) of
           Inl e \<Rightarrow> (Inl e, a)
         | Inr s \<Rightarrow> (Inr (), a\<lparr>subscription := s, updated_at := now\<rparr>)))"

definition storage_usage_percentage :: "account \<Rightarrow> rat" where
  "storage_usage_percentage a =
     (let quota_mb = to_megabytes (storage_quota (subscription a))
      in if quota_mb = 0 then 0 else min 100 (to_megabytes (usage a) / quota_mb * 100))"

definition is_trial_account :: "account \<Rightarrow> bool" where
  "is_trial_account a \<longleftrightarrow> sub_plan (subscription a) = Trial"

section \<open>Runs of operations\<close>

text \<open>The public operations that change an account, as data; \<open>acc_exec\<close> dispatches a call.\<close>

datatype acc_op =
    Suspend string
  | Activate string
  | Allocate storage_size
  | Deallocate storage_size
  | IncrementDatabases
  | DecrementDatabases
  | Login
  | Upgrade plan
  | CommitEvents

fun acc_exec :: "int \<Rightarrow> acc_op \<Rightarrow> account \<Rightarrow> acc_result" where
  "acc_exec now (Suspend r) a = suspend_account now r a"
| "acc_exec now (Activate tok) a = activate_account now tok a"
| "acc_exec now (Allocate s) a = allocate_storage now s a"
| "acc_exec now (Deallocate s) a = deallocate_storage now s a"
| "acc_exec now IncrementDatabases a = increment_database_count now a"
| "acc_exec now DecrementDatabases a = decrement_database_count now a"
| "acc_exec now Login a = update_last_login now a"
| "acc_exec now (Upgrade p) a = upgrade_subscription now p a"
| "acc_exec now CommitEvents a = (Inr (), mark_events_as_committed a)"

text \<open>A caller that catches the exceptions and goes on with the account it has.\<close>

fun acc_run :: "(int \<times> acc_op) list \<Rightarrow> account \<Rightarrow> account" where
  "acc_run [] a = a"
| "acc_run ((now, x) # xs) a = acc_run xs (snd (acc_exec now x a))"

text \<open>Sizes come from the constructor, and \<open>token_urlsafe(32)\<close> has 43 characters.\<close>

fun valid_op :: "acc_op \<Rightarrow> bool" where
  "valid_op (Allocate s) = valid_size s"
| "valid_op (Deallocate s) = valid_size s"
| "valid_op (Activate tok) = (32 \<le> length tok)"
| "valid_op _ = True"

inductive account_step :: "account \<Rightarrow> account \<Rightarrow> bool" where
  call: "valid_op x \<Longrightarrow> account_step a (snd (acc_exec now x a))"

inductive account_reachable :: "account \<Rightarrow> bool" where
  new: "CustomerAccount now tok i nm em st = Inr a \<Longrightarrow> st = TRIAL \<or> st = ACTIVE \<Longrightarrow>
    account_reachable a"
| step: "account_reachable a \<Longrightarrow> account_step a b \<Longrightarrow> account_reachable b"

inductive_cases account_stepE: "account_step a b"

section \<open>The account invariant\<close>

definition valid_key :: "api_key \<Rightarrow> bool" where
  "valid_key k \<longleftrightarrow> startswith (key_value k) ''kb_'' \<and> 35 \<le> length (key_value k)"

definition valid_subscription :: "subscription_details \<Rightarrow> bool" where
  "valid_subscription s \<longleftrightarrow>
     0 < amount (storage_quota s) \<and> 0 < max_databases s \<and> 0 < max_concurrent_queries s"

definition account_inv :: "account \<Rightarrow> bool" where
  "account_inv a \<longleftrightarrow>
     valid_size (usage a) \<and> valid_subscription (subscription a) \<and> 0 \<le> database_count a \<and>
     valid_key (key a) \<and> status a \<in> {TRIAL, ACTIVE, SUSPENDED} \<and>
     (status a = SUSPENDED \<longrightarrow> \<not> is_active (key a))"

lemma ApiKey_generate_ok:
  "32 \<le> length tok \<Longrightarrow> ApiKey_generate tok now =
     Inr \<lparr>key_value = ''kb_'' @ tok, key_created_at = now, last_used = None, is_active = True\<rparr>"
  by (simp add: ApiKey_generate_def ApiKey_def)

lemma ApiKey_valid: "ApiKey v c u act = Inr k \<Longrightarrow> valid_key k \<and> is_active k = act"
  by (auto simp: ApiKey_def valid_key_def split: if_splits)

lemma quota_positive: "valid_subscription s \<Longrightarrow> 0 < to_megabytes (storage_quota s)"
  by (auto simp: valid_subscription_def to_megabytes_def split: storage_unit.splits)

lemma upgrade_subscription_eq [exec_simps]:
  "upgrade_subscription now p a =
     (if status a = DELETED then (raise BusinessRuleViolation ''Cannot upgrade deleted account'', a)
      else (Inr (), a\<lparr>subscription :=
        \<lparr>sub_plan = p, storage_quota = \<lparr>amount = fst (plan_limits p), size_unit = MB\<rparr>,
         max_databases = fst (snd (plan_limits p)),
         max_concurrent_queries = snd (snd (plan_limits p)),
         started_at = now, expires_at = None\<rparr>, updated_at := now\<rparr>))"
  by (cases p) (simp_all add: upgrade_subscription_def StorageSize_def SubscriptionDetails_def)

lemma plan_limits_pos: "0 < fst (plan_limits p)" "0 < fst (snd (plan_limits p))"
  "0 < snd (snd (plan_limits p))"
  by (cases p; simp)+

text \<open>The upload check and the allocation, on a valid account.\<close>

lemma can_upload_file_eq:
  assumes "valid_size (usage a)" "valid_size sz"
  shows "can_upload_file now sz a = Inr (status a = ACTIVE \<and> \<not> is_expired now (subscription a) \<and>
    to_megabytes (usage a) + to_megabytes sz \<le> to_megabytes (storage_quota (subscription a)))"
  using assms by (simp add: can_upload_file_def storage_add_total storage_gt_def not_less)

lemma allocate_storage_eq:
  assumes "valid_size (usage a)" "valid_size sz" "valid_subscription (subscription a)"
  shows "allocate_storage now sz a =
    (let quota_mb = to_megabytes (storage_quota (subscription a));
         usage_mb = to_megabytes (usage a) + to_megabytes sz;
         b = a\<lparr>usage := \<lparr>amount = usage_mb, size_unit = MB\<rparr>, updated_at := now\<rparr>
     in if status a = ACTIVE \<and> \<not> is_expired now (subscription a) \<and> usage_mb \<le> quota_mb
        then (Inr (), if quota_mb * (9 / 10) \<le> usage_mb
               then add_event (StorageQuotaExceeded usage_mb quota_mb (usage_mb / quota_mb * 100)) b
               else b)
        else (raise BusinessRuleViolation ''Storage allocation would exceed quota'', a))"
  using quota_positive [OF assms(3)] assms(1,2)
  by (simp add: allocate_storage_def can_upload_file_eq storage_add_total Let_def split: bool.split)

lemma activate_account_eq:
  assumes "32 \<le> length tok"
  shows "activate_account now tok a =
    (if status a = DELETED then (raise BusinessRuleViolation ''Cannot activate deleted account'', a)
     else if is_expired now (subscription a)
       then (raise BusinessRuleViolation ''Cannot activate account with expired subscription'', a)
     else (Inr (), add_event CustomerAccountActivated
       (a\<lparr>status := ACTIVE,
          key := (if is_active (key a) then key a
                  else \<lparr>key_value = ''kb_'' @ tok, key_created_at = now, last_used = None,
                        is_active = True\<rparr>), updated_at := now\<rparr>)))"
  using assms by (simp add: activate_account_def ApiKey_generate_ok)

lemma update_last_login_eq:
  "update_last_login now a =
     (if is_active (key a)
      then (Inr (), a\<lparr>last_login := Some now, key := (key a)\<lparr>last_used := Some now\<rparr>\<rparr>)
      else (raise BusinessRuleViolation ''Cannot use inactive API key'', a\<lparr>last_login := Some now\<rparr>))"
  by (simp add: update_last_login_def mark_as_used_def Let_def)

lemmas account_ops =
  suspend_account_def deallocate_storage_def increment_database_count_def
  decrement_database_count_def update_last_login_eq mark_events_as_committed_def
  add_event_def deactivate_def upgrade_subscription_eq

lemma account_inv_new:
  assumes "CustomerAccount now tok i nm em st = Inr a" "st = TRIAL \<or> st = ACTIVE"
  shows "account_inv a"
  using assms
  by (auto simp: CustomerAccount_def bind_r_ok_iff account_post_init_def ApiKey_generate_def
      account_inv_def valid_size_def valid_subscription_def default_subscription_def
      dest!: ApiKey_valid)

lemma allocate_storage_inv:
  assumes "account_inv a" "valid_size sz"
  shows "account_inv (snd (allocate_storage now sz a))"
proof -
  have "0 \<le> to_megabytes (usage a) + to_megabytes sz"
    using assms by (simp add: account_inv_def to_megabytes_nonneg)
  then show ?thesis
    using assms
    by (auto simp: allocate_storage_eq account_inv_def Let_def add_event_def valid_size_def)
qed

lemma activate_account_inv:
  "account_inv a \<Longrightarrow> 32 \<le> length tok \<Longrightarrow> account_inv (snd (activate_account now tok a))"
  by (auto simp: activate_account_eq account_inv_def add_event_def valid_key_def)

lemma account_inv_exec:
  assumes "account_inv a" "valid_op x"
  shows "account_inv (snd (acc_exec now x a))"
proof (cases x)
  case (Allocate s)
  with assms show ?thesis by (simp add: allocate_storage_inv)
next
  case (Activate tok)
  with assms show ?thesis by (simp add: activate_account_inv)
next
  case (Deallocate s)
  with assms show ?thesis
    by (simp add: deallocate_storage_def storage_sub_total account_inv_def valid_size_def)
next
  case (Upgrade p)
  with assms plan_limits_pos [of p] show ?thesis
    by (auto simp add: upgrade_subscription_eq account_inv_def valid_subscription_def)
qed (use assms in \<open>auto simp: account_ops account_inv_def valid_key_def\<close>)

lemma account_step_inv: "account_step a b \<Longrightarrow> account_inv a \<Longrightarrow> account_inv b"
  by (erule account_stepE) (simp add: account_inv_exec)

lemma account_reachable_inv: "account_reachable a \<Longrightarrow> account_inv a"
  by (induction rule: account_reachable.induct) (auto intro: account_inv_new account_step_inv)

section \<open>Limits\<close>

definition within_limits :: "account \<Rightarrow> bool" where
  "within_limits a \<longleftrightarrow>
     to_megabytes (usage a) \<le> to_megabytes (storage_quota (subscription a)) \<and>
     database_count a \<le> max_databases (subscription a)"

fun keeps_plan :: "acc_op \<Rightarrow> bool" where
  "keeps_plan (Upgrade p) = False"
| "keeps_plan _ = True"

lemma within_limits_exec:
  assumes "account_inv a" "valid_op x" "keeps_plan x" "within_limits a"
  shows "within_limits (snd (acc_exec now x a))"
proof (cases x)
  case (Allocate s)
  with assms show ?thesis
    by (auto simp: allocate_storage_eq account_inv_def within_limits_def Let_def add_event_def)
next
  case (Activate tok)
  with assms show ?thesis
    by (auto simp: activate_account_eq within_limits_def add_event_def)
next
  case (Deallocate s)
  with assms have "0 \<le> to_megabytes s" "0 < to_megabytes (storage_quota (subscription a))"
    by (simp_all add: to_megabytes_nonneg account_inv_def quota_positive)
  with Deallocate assms show ?thesis
    by (auto simp: deallocate_storage_def storage_sub_total within_limits_def)
qed (use assms in \<open>auto simp: account_ops within_limits_def can_create_database_def\<close>)

lemma account_run_keeps:
  "account_inv a \<Longrightarrow> within_limits a \<Longrightarrow> \<forall>(now, x) \<in> set xs. valid_op x \<and> keeps_plan x \<Longrightarrow>
     account_inv (acc_run xs a) \<and> within_limits (acc_run xs a)"
proof (induction xs arbitrary: a)
  case (Cons p xs)
  obtain now x where p: "p = (now, x)" by (cases p)
  with Cons.prems have "account_inv (snd (acc_exec now x a))" "within_limits (snd (acc_exec now x a))"
    by (auto intro: account_inv_exec within_limits_exec)
  with Cons.IH [of "snd (acc_exec now x a)"] Cons.prems(3) show ?case by (simp add: p)
qed simp

section \<open>Suspension\<close>

fun no_activation :: "acc_op \<Rightarrow> bool" where
  "no_activation (Activate _) = False"
| "no_activation _ = True"

definition locked_out :: "account \<Rightarrow> bool" where
  "locked_out a \<longleftrightarrow> status a = SUSPENDED \<and> \<not> is_active (key a)"

lemma locked_out_exec:
  "locked_out a \<Longrightarrow> no_activation x \<Longrightarrow>
     locked_out (snd (acc_exec now x a)) \<and> key_value (key (snd (acc_exec now x a))) = key_value (key a)"
  by (cases x)
    (auto simp: account_ops locked_out_def allocate_storage_def can_upload_file_def
      split: sum.splits)

lemma locked_out_run:
  "locked_out a \<Longrightarrow> \<forall>(now, x) \<in> set xs. no_activation x \<Longrightarrow>
     locked_out (acc_run xs a) \<and> key_value (key (acc_run xs a)) = key_value (key a)"
proof (induction xs arbitrary: a)
  case (Cons p xs)
  obtain now x where "p = (now, x)" by (cases p)
  with Cons locked_out_exec [of a x now] show ?case by simp
qed simp

section \<open>Properties\<close>

text \<open>C28: Whatever calls a new account receives, failing ones included, short of a change of plan, its
  usage stays within the storage quota, its databases within the allowed number and at least zero, its
  key well formed, and a suspended account has no active key.\<close>

theorem account_stays_within_limits:
  assumes "CustomerAccount now tok i nm em st = Inr a" "st = TRIAL \<or> st = ACTIVE"
    and "\<forall>(n, x) \<in> set xs. valid_op x \<and> keeps_plan x"
  shows "account_inv (acc_run xs a) \<and> within_limits (acc_run xs a)"
proof -
  have "within_limits a"
    using assms(1)
    by (auto simp: CustomerAccount_def bind_r_ok_iff account_post_init_def within_limits_def
        default_subscription_def to_megabytes_def)
  then show ?thesis using account_run_keeps [OF account_inv_new [OF assms(1,2)] _ assms(3)] by simp
qed

definition demo_token :: string where
  "demo_token = replicate 43 CHR ''x''"

theorem account_stays_within_limits_witness:
  "\<exists>a. CustomerAccount 0 demo_token ''1'' ''Acme'' ''a@b.c'' ACTIVE = Inr a \<and>
     within_limits (acc_run [(5, IncrementDatabases), (6, Allocate \<lparr>amount = 200, size_unit = MB\<rparr>)] a)"
proof -
  have "\<exists>a. CustomerAccount 0 demo_token ''1'' ''Acme'' ''a@b.c'' ACTIVE = Inr a"
    by (simp add: CustomerAccount_def ApiKey_generate_ok demo_token_def account_post_init_def)
  then obtain a where a: "CustomerAccount 0 demo_token ''1'' ''Acme'' ''a@b.c'' ACTIVE = Inr a" by blast
  have "\<forall>(n, x) \<in> set [(5 :: int, IncrementDatabases), (6, Allocate \<lparr>amount = 200, size_unit = MB\<rparr>)].
      valid_op x \<and> keeps_plan x"
    by (simp add: valid_size_def)
  with account_stays_within_limits [OF a] a show ?thesis by blast
qed

text \<open>A suspension holds until an activation: whatever other calls follow, failing ones included, the
  account stays suspended with its old key inactive, it refuses logins, databases and uploads, and a
  later activation, if the subscription has not expired, issues the fresh key it is given.\<close>

lemma suspension_holds:
  assumes "suspend_account now reason a = (Inr (), b)"
    and "\<forall>(n, x) \<in> set xs. no_activation x" and "32 \<le> length tok"
  defines "c \<equiv> acc_run xs b"
  shows "status c = SUSPENDED \<and> \<not> is_active (key c) \<and> key_value (key c) = key_value (key a) \<and>
    \<not> is_ok (fst (update_last_login later c)) \<and> \<not> can_create_database later c \<and>
    \<not> is_ok (fst (increment_database_count later c)) \<and> \<not> is_ok (fst (allocate_storage later sz c)) \<and>
    (\<not> is_expired later (subscription c) \<longrightarrow>
      key (snd (activate_account later tok c)) =
        \<lparr>key_value = ''kb_'' @ tok, key_created_at = later, last_used = None, is_active = True\<rparr> \<and>
      status (snd (activate_account later tok c)) = ACTIVE)"
proof -
  have b: "locked_out b" "key_value (key b) = key_value (key a)"
    using assms(1)
    by (auto simp: suspend_account_def add_event_def deactivate_def locked_out_def split: if_splits)
  have "locked_out c \<and> key_value (key c) = key_value (key b)"
    unfolding c_def by (rule locked_out_run [OF b(1) assms(2)])
  then show ?thesis
    using b(2) assms(3)
    by (auto simp: locked_out_def update_last_login_eq can_create_database_def
        increment_database_count_def allocate_storage_def can_upload_file_def activate_account_eq
        add_event_def)
qed

text \<open>An allocation on a valid account does one of three things. It refuses and changes nothing when
  the account is not active, its subscription has expired or the total exceeds the quota; otherwise the
  usage grows by exactly the allocated megabytes, and the quota event is recorded exactly when the new
  usage has reached nine tenths of the quota, which is before the quota is exceeded.\<close>

lemma allocate_storage_spec:
  fixes now :: int
  assumes "account_inv a" "valid_size sz"
  defines "usage_mb \<equiv> to_megabytes (usage a) + to_megabytes sz"
    and "quota \<equiv> to_megabytes (storage_quota (subscription a))"
    and "r \<equiv> allocate_storage now sz a"
  shows "(is_ok (fst r) \<longleftrightarrow> status a = ACTIVE \<and> \<not> is_expired now (subscription a) \<and> usage_mb \<le> quota) \<and>
    (\<not> is_ok (fst r) \<longrightarrow> snd r = a) \<and>
    (is_ok (fst r) \<longrightarrow> to_megabytes (usage (snd r)) = usage_mb \<and>
       events (snd r) = events a @
         (if 9 / 10 * quota \<le> usage_mb then [StorageQuotaExceeded usage_mb quota (usage_mb / quota * 100)] else []))"
proof -
  have "valid_size (usage a)" "valid_subscription (subscription a)"
    using assms(1) by (simp_all add: account_inv_def)
  from allocate_storage_eq [OF this(1) assms(2) this(2), of now]
  show ?thesis
    by (auto simp: r_def usage_mb_def quota_def Let_def add_event_def to_megabytes_def mult.commute)
qed

end
