(* ===== verification/Branch_Names.thy ===== *)
theory Branch_Names
  imports Value_Objects
begin

text \<open>
  Branch names and branch listing: \<open>domain/branching/value_objects.py\<close>, \<open>domain/branching/branch.py\<close>
  and \<open>application/usecases/branching/list_branches.py\<close>. A branch of database \<open>p\<close> is a database
  whose name is \<open>p--branch--b\<close>; a listing recovers the branches by parsing database names.
\<close>

section \<open>Branch names\<close>

definition branch_sep :: string where
  "branch_sep = ''--branch--''"

definition branch_char :: "char \<Rightarrow> bool" where
  "branch_char c \<longleftrightarrow> is_lower_az c \<or> is_upper_az c \<or> is_digit c \<or> c = CHR ''_'' \<or> c = CHR ''-''"

definition BranchName :: "string \<Rightarrow> string result" where
  "BranchName value =
     (if value = [] then raise ValueError ''Branch name cannot be empty''
      else if length value < 2 then raise ValueError ''Branch name must be at least 2 characters''
      else if 50 < length value then raise ValueError ''Branch name cannot exceed 50 characters''
      else if \<not> list_ex (\<lambda>w. w \<noteq> [] \<and> list_all branch_char w) (dollar_body value)
        then raise ValueError
          ''Branch name can only contain alphanumeric, hyphens, and underscores''
      else if hd value \<in> {CHR ''-'', CHR ''_''}
        then raise ValueError ''Branch name cannot start with hyphen or underscore''
      else Inr value)"

definition to_full_name :: "string \<Rightarrow> string \<Rightarrow> string" where
  "to_full_name b parent_database = parent_database @ branch_sep @ b"

definition from_full_name :: "string \<Rightarrow> (string \<times> string) option result" where
  "from_full_name full_name = (case split_first branch_sep full_name of
       None \<Rightarrow> Inr None
     | Some (parent, b) \<Rightarrow> bind_r (BranchName b) (\<lambda>n. Inr (Some (parent, n))))"

record branch =
  branch_name :: string
  parent_database_id :: nat
  parent_database_name :: string
  branch_database_id :: nat
  branch_tenant_id :: nat

definition full_name :: "branch \<Rightarrow> string" where
  "full_name br = to_full_name (branch_name br) (parent_database_name br)"

section \<open>Listing the branches of a database\<close>

record db_meta =
  meta_id :: string
  meta_tenant :: string
  meta_name :: string
  meta_path :: string
  meta_created :: "string option"

record branch_info =
  bi_name :: string
  bi_full_name :: string
  bi_parent :: string
  bi_database_id :: string
  bi_created_at :: string

definition branch_info_of :: "db_meta \<Rightarrow> string \<times> string \<Rightarrow> branch_info" where
  "branch_info_of m pb = \<lparr>bi_name = snd pb, bi_full_name = meta_name m, bi_parent = fst pb,
     bi_database_id = meta_id m,
     bi_created_at = (case meta_created m of None \<Rightarrow> [] | Some d \<Rightarrow> d @ ''Z'')\<rparr>"

text \<open>The loop over the tenant's databases; a name that does not parse aborts the listing.\<close>

fun list_branches_loop :: "string \<Rightarrow> db_meta list \<Rightarrow> branch_info list result" where
  "list_branches_loop parent [] = Inr []"
| "list_branches_loop parent (m # ms) =
     (if startswith (meta_name m) (parent @ branch_sep)
      then (case from_full_name (meta_name m) of
          Inl e \<Rightarrow> Inl e
        | Inr None \<Rightarrow> list_branches_loop parent ms
        | Inr (Some pb) \<Rightarrow>
            bind_r (list_branches_loop parent ms) (\<lambda>bs. Inr (branch_info_of m pb # bs)))
      else list_branches_loop parent ms)"

record list_branches_response =
  lb_parent :: string
  lb_branches :: "branch_info list"
  lb_count :: nat

text \<open>\<open>all_dbs\<close> is what the metadata repository returns for the tenant.\<close>

definition list_branches :: "string \<Rightarrow> db_meta list \<Rightarrow> list_branches_response result" where
  "list_branches parent all_dbs = bind_r (list_branches_loop parent all_dbs) (\<lambda>bs.
     Inr \<lparr>lb_parent = parent, lb_branches = bs, lb_count = length bs\<rparr>)"

section \<open>Lemmas\<close>

lemma branch_sep_facts [simp]: "branch_sep \<noteq> []" "length branch_sep = 10"
  by (simp_all add: branch_sep_def)

lemma BranchName_same: "BranchName v = Inr n \<Longrightarrow> n = v"
  by (auto simp: BranchName_def split: if_splits)

lemma BranchName_length: "BranchName v = Inr n \<Longrightarrow> 2 \<le> length v \<and> length v \<le> 50"
  by (auto simp: BranchName_def split: if_splits)

text \<open>A parent that the parser recovers: the separator starts nowhere before its own end.\<close>

definition separable :: "string \<Rightarrow> bool" where
  "separable p \<longleftrightarrow> \<not> contains branch_sep (p @ butlast branch_sep)"

lemma separable_iff:
  "separable p \<longleftrightarrow> (\<forall>i < length p. \<not> startswith (drop i (p @ branch_sep @ r)) branch_sep)"
proof -
  let ?q = "p @ butlast branch_sep"
  have len: "length ?q = length p + 9" by simp
  have whole: "p @ branch_sep @ r = ?q @ (last branch_sep # r)"
    by (simp add: branch_sep_def)
  have "startswith (drop i ?q) branch_sep \<longleftrightarrow>
      startswith (drop i (p @ branch_sep @ r)) branch_sep" if "i < length p" for i
    using that drop_append_startswith [of i branch_sep ?q "last branch_sep # r"]
    by (simp add: whole)
  moreover have "\<not> startswith (drop i ?q) branch_sep" if "length p \<le> i" for i
    using that startswith_drop_bound [of i ?q branch_sep] by auto
  ultimately have "(\<exists>i < length ?q. startswith (drop i ?q) branch_sep) \<longleftrightarrow>
      (\<exists>i < length p. startswith (drop i (p @ branch_sep @ r)) branch_sep)"
    by (metis len linorder_not_le trans_less_add1)
  then show ?thesis unfolding separable_def contains_iff [OF branch_sep_facts(1)] by blast
qed

lemma split_first_separable:
  "split_first branch_sep (p @ branch_sep @ r) = Some (p, r) \<longleftrightarrow> separable p"
  using split_first_append [of branch_sep p r] separable_iff [of p r] by simp

lemma from_full_name_separable:
  "separable p \<Longrightarrow> from_full_name (p @ branch_sep @ b) =
     bind_r (BranchName b) (\<lambda>n. Inr (Some (p, n)))"
  using split_first_separable [of p b] by (simp add: from_full_name_def)

lemma from_full_name_result:
  assumes "from_full_name f = Inr (Some (p, b))"
  shows "f = to_full_name b p" "BranchName b = Inr b"
proof -
  obtain b' where s: "split_first branch_sep f = Some (p, b')" "BranchName b' = Inr b"
    using assms by (auto simp: from_full_name_def bind_r_ok_iff split: option.splits)
  then have "b' = b" using BranchName_same by blast
  with s show "f = to_full_name b p" "BranchName b = Inr b"
    using split_first_SomeD [OF s(1)] by (simp_all add: to_full_name_def)
qed

text \<open>What a listing returns for a parent the parser recovers.\<close>

definition suffix_of :: "string \<Rightarrow> db_meta \<Rightarrow> string" where
  "suffix_of parent m = drop (length (parent @ branch_sep)) (meta_name m)"

definition is_branch_of :: "string \<Rightarrow> db_meta \<Rightarrow> bool" where
  "is_branch_of parent m \<longleftrightarrow> startswith (meta_name m) (parent @ branch_sep)"

lemma from_full_name_branch:
  assumes "separable parent" "is_branch_of parent m"
  shows "from_full_name (meta_name m) =
    bind_r (BranchName (suffix_of parent m)) (\<lambda>n. Inr (Some (parent, n)))"
proof -
  have "meta_name m = parent @ branch_sep @ suffix_of parent m"
    using assms(2) by (auto simp: is_branch_of_def suffix_of_def startswith_iff)
  then show ?thesis using from_full_name_separable [OF assms(1), of "suffix_of parent m"] by simp
qed

lemma list_branches_loop_ok:
  assumes "separable parent"
    and "\<And>m. m \<in> set ms \<Longrightarrow> is_branch_of parent m \<Longrightarrow> is_ok (BranchName (suffix_of parent m))"
  shows "list_branches_loop parent ms = Inr (map (\<lambda>m. branch_info_of m (parent, suffix_of parent m))
    (filter (is_branch_of parent) ms))"
  using assms(2)
proof (induction ms)
  case (Cons m ms)
  show ?case
  proof (cases "is_branch_of parent m")
    case True
    with Cons.prems obtain n where "BranchName (suffix_of parent m) = Inr n"
      by (auto simp: is_ok_iff)
    with BranchName_same have "BranchName (suffix_of parent m) = Inr (suffix_of parent m)" by metis
    with True Cons from_full_name_branch [OF assms(1) True] show ?thesis
      by (simp add: is_branch_of_def)
  qed (use Cons in \<open>simp add: is_branch_of_def\<close>)
qed simp

lemma list_branches_loop_fail:
  assumes "separable parent" "m \<in> set ms" "is_branch_of parent m"
    "\<not> is_ok (BranchName (suffix_of parent m))"
  shows "\<not> is_ok (list_branches_loop parent ms)"
  using assms(2)
proof (induction ms)
  case (Cons x xs)
  show ?case
  proof (cases "x = m")
    case True
    with assms(3,4) from_full_name_branch [OF assms(1,3)] show ?thesis
      by (auto simp: is_branch_of_def is_ok_iff split: sum.splits)
        (cases "BranchName (suffix_of parent m)"; simp)
  next
    case False
    with Cons have "\<not> is_ok (list_branches_loop parent xs)" by simp
    then obtain e where "list_branches_loop parent xs = Inl e"
      by (cases "list_branches_loop parent xs") auto
    then show ?thesis by (auto split: sum.splits option.splits)
  qed
qed simp

section \<open>Properties\<close>

text \<open>C30: Naming a branch and parsing the name recovers parent and branch exactly when the
  separator \<open>--branch--\<close> starts nowhere inside the parent: neither in it nor across its end.\<close>

theorem branch_name_roundtrip:
  assumes "BranchName b = Inr b"
  shows "from_full_name (to_full_name b p) = Inr (Some (p, b)) \<longleftrightarrow> separable p"
proof
  assume "separable p"
  with assms show "from_full_name (to_full_name b p) = Inr (Some (p, b))"
    by (simp add: to_full_name_def from_full_name_separable)
next
  assume "from_full_name (to_full_name b p) = Inr (Some (p, b))"
  then obtain c where s: "split_first branch_sep (p @ branch_sep @ b) = Some (p, c)"
    by (auto simp: from_full_name_def to_full_name_def bind_r_ok_iff split: option.splits)
  have "c = b" using split_first_SomeD [OF s] by simp
  with s show "separable p" using split_first_separable by blast
qed

theorem branch_name_roundtrip_witness:
  "BranchName ''dev'' = Inr ''dev'' \<and>
   from_full_name (to_full_name ''dev'' ''main'') = Inr (Some (''main'', ''dev'')) \<and>
   from_full_name (to_full_name ''dev'' ''main--branch'') \<noteq> Inr (Some (''main--branch'', ''dev''))"
proof -
  have b: "BranchName ''dev'' = Inr ''dev''" by code_simp
  have "separable ''main''" "\<not> separable ''main--branch''" by code_simp+
  then show ?thesis using b branch_name_roundtrip [OF b] by simp
qed

text \<open>C31: For a parent the parser recovers, a listing either returns exactly the tenant's databases
  named after it, in the repository's order, each with its branch name, or fails; it fails exactly
  when one of those names ends in a text that is no branch name.\<close>

theorem list_branches_complete:
  assumes "separable parent"
  shows "list_branches parent dbs = Inr r \<longleftrightarrow>
    list_all (\<lambda>m. is_ok (BranchName (suffix_of parent m))) (filter (is_branch_of parent) dbs) \<and>
    r = \<lparr>lb_parent = parent,
         lb_branches = map (\<lambda>m. branch_info_of m (parent, suffix_of parent m))
                         (filter (is_branch_of parent) dbs),
         lb_count = length (filter (is_branch_of parent) dbs)\<rparr>"
proof (cases "list_all (\<lambda>m. is_ok (BranchName (suffix_of parent m))) (filter (is_branch_of parent) dbs)")
  case True
  then have "list_branches_loop parent dbs =
      Inr (map (\<lambda>m. branch_info_of m (parent, suffix_of parent m)) (filter (is_branch_of parent) dbs))"
    by (intro list_branches_loop_ok assms) (auto simp: list_all_iff)
  with True show ?thesis by (auto simp: list_branches_def)
next
  case False
  then obtain m where "m \<in> set dbs" "is_branch_of parent m" "\<not> is_ok (BranchName (suffix_of parent m))"
    by (auto simp: list_all_iff)
  then have "\<not> is_ok (list_branches_loop parent dbs)" by (rule list_branches_loop_fail [OF assms])
  with False show ?thesis by (auto simp: list_branches_def is_ok_iff bind_r_ok_iff)
qed

theorem list_branches_complete_witness:
  "list_branches ''main''
     [\<lparr>meta_id = ''1'', meta_tenant = ''7'', meta_name = ''main'', meta_path = ''/m'', meta_created = None\<rparr>,
      \<lparr>meta_id = ''2'', meta_tenant = ''7'', meta_name = ''main--branch--dev'', meta_path = ''/d'',
       meta_created = None\<rparr>] =
   Inr \<lparr>lb_parent = ''main'',
        lb_branches = [\<lparr>bi_name = ''dev'', bi_full_name = ''main--branch--dev'', bi_parent = ''main'',
                        bi_database_id = ''2'', bi_created_at = []\<rparr>],
        lb_count = 1\<rparr>"
proof -
  have s: "separable ''main''" by code_simp
  have b: "is_ok (BranchName ''dev'')" by code_simp
  have p: "startswith ''main--branch--dev'' (''main'' @ branch_sep)"
    "\<not> startswith ''main'' (''main'' @ branch_sep)" by code_simp+
  show ?thesis
    using b p by (subst list_branches_complete [OF s])
      (simp add: is_branch_of_def suffix_of_def branch_info_of_def)
qed

end
