(* ===== verification/Effects.thy ===== *)
theory Effects
  imports Prelude
begin

text \<open>
  Operations of the ports, which act on a world \<open>'w\<close> of stores the program does not own (Redis,
  MinIO, PostgreSQL, the file system): a result or an exception, and the world left behind, also
  after an exception. Sequencing, \<open>try ... except\<close>, \<open>try ... finally\<close> and \<open>for\<close>.
\<close>

type_synonym ('w, 'a) act = "'w \<Rightarrow> 'a result \<times> 'w"

definition ret :: "'a \<Rightarrow> ('w, 'a) act" where
  "ret x w = (Inr x, w)"

definition throw :: "exn_kind \<Rightarrow> string \<Rightarrow> ('w, 'a) act" where
  "throw k m w = (raise k m, w)"

definition of_result :: "'a result \<Rightarrow> ('w, 'a) act" where
  "of_result r w = (r, w)"

definition bind :: "('w, 'a) act \<Rightarrow> ('a \<Rightarrow> ('w, 'b) act) \<Rightarrow> ('w, 'b) act" where
  "bind m f w = (case m w of (Inl e, w') \<Rightarrow> (Inl e, w') | (Inr x, w') \<Rightarrow> f x w')"

definition andthen :: "('w, 'a) act \<Rightarrow> ('w, 'b) act \<Rightarrow> ('w, 'b) act" where
  "andthen m k = bind m (\<lambda>_. k)"

definition guard_do :: "bool \<Rightarrow> ('w, unit) act \<Rightarrow> ('w, unit) act" where
  "guard_do c m = (if c then m else ret ())"

text \<open>\<open>try: m except Exception as e: h e\<close>, and \<open>try: m finally: f\<close>.\<close>

definition catch :: "('w, 'a) act \<Rightarrow> (exn \<Rightarrow> ('w, 'a) act) \<Rightarrow> ('w, 'a) act" where
  "catch m h w = (case m w of (Inl e, w') \<Rightarrow> h e w' | (Inr x, w') \<Rightarrow> (Inr x, w'))"

definition finally_do :: "('w, 'a) act \<Rightarrow> ('w, 'b) act \<Rightarrow> ('w, 'a) act" where
  "finally_do m f w = (case m w of (r, w') \<Rightarrow>
     (case f w' of (Inl e, w'') \<Rightarrow> (Inl e, w'') | (Inr _, w'') \<Rightarrow> (r, w'')))"

fun for_each :: "('a \<Rightarrow> ('w, unit) act) \<Rightarrow> 'a list \<Rightarrow> ('w, unit) act" where
  "for_each f [] w = (Inr (), w)"
| "for_each f (x # xs) w = (case f x w of (Inl e, w') \<Rightarrow> (Inl e, w') | (Inr _, w') \<Rightarrow> for_each f xs w')"

text \<open>An operation that leaves the world alone.\<close>

definition reads_only :: "('w, 'a) act \<Rightarrow> bool" where
  "reads_only m \<longleftrightarrow> (\<forall>w. snd (m w) = w)"

lemma act_simps [exec_simps]:
  "ret x w = (Inr x, w)"
  "throw k m w = (raise k m, w)"
  "of_result r w = (r, w)"
  "guard_do True act = act"
  "guard_do False act = ret ()"
  by (simp_all add: ret_def throw_def of_result_def guard_do_def)

lemma bind_step [exec_simps]:
  "m w = (Inr x, w') \<Longrightarrow> bind m f w = f x w'"
  "m w = (Inl e, w') \<Longrightarrow> bind m f w = (Inl e, w')"
  "m w = (Inr x, w') \<Longrightarrow> andthen m k w = k w'"
  "m w = (Inl e, w') \<Longrightarrow> andthen m k w = (Inl e, w')"
  by (simp_all add: bind_def andthen_def)

lemma catch_step [exec_simps]:
  "m w = (Inr x, w') \<Longrightarrow> catch m h w = (Inr x, w')"
  "m w = (Inl e, w') \<Longrightarrow> catch m h w = h e w'"
  by (simp_all add: catch_def)

lemma finally_step [exec_simps]:
  "m w = (r, w') \<Longrightarrow> f w' = (Inr y, w'') \<Longrightarrow> finally_do m f w = (r, w'')"
  "m w = (r, w') \<Longrightarrow> f w' = (Inl e, w'') \<Longrightarrow> finally_do m f w = (Inl e, w'')"
  by (simp_all add: finally_do_def)

text \<open>The conclusions one draws from a run that returned.\<close>

lemma bind_okE:
  assumes "bind m f w = (Inr y, w2)"
  obtains x w1 where "m w = (Inr x, w1)" "f x w1 = (Inr y, w2)"
  using assms by (auto simp: bind_def split: prod.splits sum.splits)

lemma andthen_okE:
  assumes "andthen m k w = (Inr y, w2)"
  obtains x w1 where "m w = (Inr x, w1)" "k w1 = (Inr y, w2)"
  using assms by (auto simp: andthen_def elim: bind_okE)

text \<open>The world after a composition: a fact that every part keeps is kept.\<close>

definition keeps :: "('w \<Rightarrow> bool) \<Rightarrow> ('w, 'a) act \<Rightarrow> bool" where
  "keeps P m \<longleftrightarrow> (\<forall>w. P w \<longrightarrow> P (snd (m w)))"

lemma keepsI: "(\<And>w. P w \<Longrightarrow> P (snd (m w))) \<Longrightarrow> keeps P m"
  by (simp add: keeps_def)

lemma keepsD: "keeps P m \<Longrightarrow> P w \<Longrightarrow> m w = (r, w') \<Longrightarrow> P w'"
  by (auto simp: keeps_def dest!: spec [of _ w])

lemma keeps_run: "keeps P m \<Longrightarrow> P w \<Longrightarrow> \<exists>r w'. m w = (r, w') \<and> P w'"
  by (metis keepsD surj_pair)

lemma keeps_ret [intro]: "keeps P (ret x)" "keeps P (throw k m)" "keeps P (of_result r)"
  by (simp_all add: keeps_def exec_simps)

lemma keeps_bind [intro]:
  assumes "keeps P m" "\<And>x. keeps P (f x)"
  shows "keeps P (bind m f)"
proof (rule keepsI)
  fix w
  assume "P w"
  with keeps_run [OF assms(1)] obtain r w' where "m w = (r, w')" "P w'" by blast
  with assms(2) show "P (snd (bind m f w))"
    by (cases r) (auto simp: bind_def keeps_def split: prod.splits sum.splits)
qed

lemma keeps_andthen [intro]: "keeps P m \<Longrightarrow> keeps P k \<Longrightarrow> keeps P (andthen m k)"
  unfolding andthen_def by blast

lemma keeps_guard [intro]: "keeps P m \<Longrightarrow> keeps P (guard_do c m)"
  by (simp add: guard_do_def keeps_ret)

lemma keeps_catch [intro]:
  assumes "keeps P m" "\<And>e. keeps P (h e)"
  shows "keeps P (catch m h)"
proof (rule keepsI)
  fix w
  assume "P w"
  with keeps_run [OF assms(1)] obtain r w' where "m w = (r, w')" "P w'" by blast
  with assms(2) show "P (snd (catch m h w))"
    by (cases r) (auto simp: catch_def keeps_def split: prod.splits sum.splits)
qed

lemma keeps_finally [intro]:
  assumes "keeps P m" "keeps P f"
  shows "keeps P (finally_do m f)"
proof (rule keepsI)
  fix w
  assume "P w"
  with keeps_run [OF assms(1)] obtain r w' where m: "m w = (r, w')" "P w'" by blast
  with keeps_run [OF assms(2)] obtain r' w'' where "f w' = (r', w'')" "P w''" by blast
  with m show "P (snd (finally_do m f w))" by (cases r') (simp_all add: finally_do_def)
qed

lemma keeps_for_each: "(\<And>x. x \<in> set xs \<Longrightarrow> keeps P (f x)) \<Longrightarrow> keeps P (for_each f xs)"
proof (induction xs)
  case Nil
  then show ?case by (simp add: keeps_def)
next
  case (Cons x xs)
  then have k: "keeps P (f x)" "keeps P (for_each f xs)" by simp_all
  show ?case
  proof (rule keepsI)
    fix w
    assume "P w"
    with keeps_run [OF k(1)] obtain r w' where m: "f x w = (r, w')" "P w'" by blast
    with k(2) show "P (snd (for_each f (x # xs) w))" by (cases r) (auto simp: keeps_def)
  qed
qed

text \<open>An operation that raises nothing.\<close>

definition never_raises :: "('w, 'a) act \<Rightarrow> bool" where
  "never_raises m \<longleftrightarrow> (\<forall>w. is_ok (fst (m w)))"

lemma never_raises_run: "never_raises m \<Longrightarrow> \<exists>x w'. m w = (Inr x, w')"
  by (cases "m w"; cases "fst (m w)") (auto simp: never_raises_def dest!: spec [of _ w])

lemma never_raises_ret [intro, simp]: "never_raises (ret x)"
  by (simp add: never_raises_def ret_def)

lemma never_raises_bind [intro]:
  assumes "never_raises m" "\<And>x. never_raises (f x)"
  shows "never_raises (bind m f)"
  unfolding never_raises_def
proof
  fix w
  obtain x w' where "m w = (Inr x, w')" using never_raises_run [OF assms(1)] by blast
  then show "is_ok (fst (bind m f w))" using assms(2) by (simp add: bind_def never_raises_def)
qed

lemma never_raises_andthen [intro]: "never_raises m \<Longrightarrow> never_raises k \<Longrightarrow> never_raises (andthen m k)"
  unfolding andthen_def by (rule never_raises_bind)

lemma never_raises_catch [intro]: "(\<And>e. never_raises (h e)) \<Longrightarrow> never_raises (catch m h)"
  by (auto simp: never_raises_def catch_def split: prod.splits sum.splits)

end
