(* ===== verification/Ports.thy ===== *)
theory Ports
  imports Effects PyString
begin

text \<open>
  The protocols of \<open>domain/shared/ports\<close> as records of operations over a world \<open>'w\<close>, which the use
  cases take as arguments and the adapters of \<open>infrastructure\<close> implement. Object contents are of a
  type \<open>'b\<close>, cached values of a type \<open>'v\<close>. Identifiers (UUIDs) are their canonical text.
\<close>

type_synonym uuid = string

record wal_object =
  obj_key :: string
  obj_size :: nat

record ('w, 'b) storage_port =
  upload_database :: "uuid \<Rightarrow> uuid \<Rightarrow> 'b \<Rightarrow> string \<Rightarrow> ('w, string) act"
  download_database :: "string \<Rightarrow> ('w, 'b) act"
  delete_object :: "string \<Rightarrow> ('w, bool) act"
  file_exists :: "string \<Rightarrow> ('w, bool) act"
  get_file_size :: "string \<Rightarrow> ('w, nat) act"
  list_objects :: "string \<Rightarrow> ('w, wal_object list) act"
  set_object_tags :: "string \<Rightarrow> (string \<times> string) list \<Rightarrow> ('w, bool) act"

record 'w lock_port =
  acquire_lock :: "string \<Rightarrow> nat \<Rightarrow> ('w, string option) act"
  release_lock :: "string \<Rightarrow> string \<Rightarrow> ('w, bool) act"

record ('w, 'v) cache_port =
  cache_set :: "string \<Rightarrow> 'v \<Rightarrow> nat option \<Rightarrow> ('w, bool) act"
  cache_get :: "string \<Rightarrow> ('w, 'v option) act"
  cache_delete :: "string \<Rightarrow> ('w, bool) act"

type_synonym fields = "(string \<times> string) list"

record 'w event_port =
  emit :: "uuid \<Rightarrow> string \<Rightarrow> string \<Rightarrow> string \<Rightarrow> fields \<Rightarrow> ('w, unit) act"

text \<open>Authorization; the adapter \<open>AllowAllAuthorizationService\<close> allows everything.\<close>

record 'w authz_port =
  check_permission :: "uuid \<Rightarrow> string \<Rightarrow> string \<Rightarrow> ('w, bool) act"

definition allow_all :: "'w authz_port" where
  "allow_all = \<lparr>check_permission = \<lambda>t r a. ret True\<rparr>"

definition require :: "'w authz_port \<Rightarrow> uuid \<Rightarrow> string \<Rightarrow> string \<Rightarrow> string \<Rightarrow> ('w, unit) act" where
  "require A t res action msg =
     bind (check_permission A t res action) (\<lambda>allowed. if allowed then ret () else throw PermissionError msg)"

text \<open>An operation of one of two stores, run on the pair.\<close>

definition on_fst :: "('w, 'a) act \<Rightarrow> ('w \<times> 'v, 'a) act" where
  "on_fst m wv = (case m (fst wv) of (r, w') \<Rightarrow> (r, (w', snd wv)))"

definition on_snd :: "('v, 'a) act \<Rightarrow> ('w \<times> 'v, 'a) act" where
  "on_snd m wv = (case m (snd wv) of (r, v') \<Rightarrow> (r, (fst wv, v')))"

lemma on_fst_simps [simp]:
  "fst (on_fst m wv) = fst (m (fst wv))" "snd (snd (on_fst m wv)) = snd wv"
  "fst (snd (on_fst m wv)) = snd (m (fst wv))"
  by (simp_all add: on_fst_def split: prod.splits)

lemma on_snd_simps [simp]:
  "fst (on_snd m wv) = fst (m (snd wv))" "fst (snd (on_snd m wv)) = fst wv"
  "snd (snd (on_snd m wv)) = snd (m (snd wv))"
  by (simp_all add: on_snd_def split: prod.splits)

definition locks_on_fst :: "'w lock_port \<Rightarrow> ('w \<times> 'v) lock_port" where
  "locks_on_fst L = \<lparr>acquire_lock = \<lambda>r n. on_fst (acquire_lock L r n),
     release_lock = \<lambda>r t. on_fst (release_lock L r t)\<rparr>"

definition storage_on_snd :: "('v, 'b) storage_port \<Rightarrow> ('w \<times> 'v, 'b) storage_port" where
  "storage_on_snd S = \<lparr>upload_database = \<lambda>t d c f. on_snd (upload_database S t d c f),
     download_database = \<lambda>k. on_snd (download_database S k),
     delete_object = \<lambda>k. on_snd (delete_object S k),
     file_exists = \<lambda>k. on_snd (file_exists S k),
     get_file_size = \<lambda>k. on_snd (get_file_size S k),
     list_objects = \<lambda>p. on_snd (list_objects S p),
     set_object_tags = \<lambda>k ts. on_snd (set_object_tags S k ts)\<rparr>"

definition cache_on_fst :: "('w, 'x) cache_port \<Rightarrow> ('w \<times> 'v, 'x) cache_port" where
  "cache_on_fst K = \<lparr>cache_set = \<lambda>k v n. on_fst (cache_set K k v n), cache_get = \<lambda>k. on_fst (cache_get K k),
     cache_delete = \<lambda>k. on_fst (cache_delete K k)\<rparr>"

section \<open>What the use cases rely on in an object storage\<close>

text \<open>\<open>objs\<close> is the contents by key, \<open>nbytes\<close> the size of a content. Keys with a scheme
  (\<open>s3://bucket/key\<close>) address another bucket and are outside the contract.\<close>

definition object_key :: "uuid \<Rightarrow> uuid \<Rightarrow> string \<Rightarrow> string" where
  "object_key tenant_id database_id filename =
     ''tenants/'' @ tenant_id @ ''/'' @ database_id @ ''/'' @ filename"

definition plain_key :: "string \<Rightarrow> bool" where
  "plain_key k \<longleftrightarrow> \<not> startswith k ''s3://''"

lemma plain_object_key [simp]: "plain_key (object_key t d f)"
  by (simp add: plain_key_def object_key_def)

locale object_storage =
  fixes S :: "('w, 'b) storage_port" and objs :: "'w \<Rightarrow> string \<Rightarrow> 'b option" and nbytes :: "'b \<Rightarrow> nat"
  assumes upload: "\<exists>url w'. upload_database S t d c f w = (Inr url, w') \<and>
      objs w' = (objs w)(object_key t d f \<mapsto> c)"
    and download: "plain_key k \<Longrightarrow> objs w k = Some b \<Longrightarrow> download_database S k w = (Inr b, w)"
    and download_missing: "plain_key k \<Longrightarrow> objs w k = None \<Longrightarrow>
      \<exists>e. download_database S k w = (Inl e, w)"
    and exists_iff: "plain_key k \<Longrightarrow> file_exists S k w = (Inr (objs w k \<noteq> None), w)"
    and delete: "plain_key k \<Longrightarrow> \<exists>w'. delete_object S k w = (Inr True, w') \<and> objs w' = (objs w)(k := None)"
    and listing: "\<exists>os. list_objects S p w = (Inr os, w) \<and> distinct (map obj_key os) \<and>
      (\<forall>o1. o1 \<in> set os \<longleftrightarrow> (\<exists>b. objs w (obj_key o1) = Some b \<and> startswith (obj_key o1) p \<and>
          o1 = \<lparr>obj_key = obj_key o1, obj_size = nbytes b\<rparr>))"
begin

lemma upload_download:
  assumes "upload_database S t d c f w = (r, w')"
  shows "download_database S (object_key t d f) w' = (Inr c, w')"
  using upload [of t d c f w] assms download [of "object_key t d f" w' c] by auto

lemma upload_other:
  assumes "upload_database S t d c f w = (r, w')" "plain_key k" "k \<noteq> object_key t d f"
  shows "file_exists S k w' = (Inr (objs w k \<noteq> None), w')"
    and "objs w k = Some b \<Longrightarrow> download_database S k w' = (Inr b, w')"
  using upload [of t d c f w] assms exists_iff [of k w'] download [of k w' b] by auto

lemma delete_gone:
  "plain_key k \<Longrightarrow> delete_object S k w = (r, w') \<Longrightarrow> \<exists>e. download_database S k w' = (Inl e, w')"
  using delete [of k w] download_missing [of k w'] by auto

end

text \<open>The contract also holds on the second of two stores.\<close>

lemma object_storage_on_snd:
  assumes "object_storage S objs nbytes"
  shows "object_storage (storage_on_snd S) (\<lambda>wv. objs (snd wv)) nbytes"
proof
  note laws = object_storage.upload [OF assms] object_storage.download [OF assms]
    object_storage.download_missing [OF assms] object_storage.exists_iff [OF assms]
    object_storage.delete [OF assms] object_storage.listing [OF assms]
  fix t d f k p :: string and c b and wv
  show "\<exists>url w'. upload_database (storage_on_snd S) t d c f wv = (Inr url, w') \<and>
      objs (snd w') = (objs (snd wv))(object_key t d f \<mapsto> c)"
    using laws(1) [of t d c f "snd wv"] by (auto simp: storage_on_snd_def on_snd_def)
  show "plain_key k \<Longrightarrow> objs (snd wv) k = Some b \<Longrightarrow>
      download_database (storage_on_snd S) k wv = (Inr b, wv)"
    using laws(2) [of k "snd wv" b] by (simp add: storage_on_snd_def on_snd_def)
  show "plain_key k \<Longrightarrow> objs (snd wv) k = None \<Longrightarrow>
      \<exists>e. download_database (storage_on_snd S) k wv = (Inl e, wv)"
    using laws(3) [of k "snd wv"] by (auto simp: storage_on_snd_def on_snd_def)
  show "plain_key k \<Longrightarrow> file_exists (storage_on_snd S) k wv = (Inr (objs (snd wv) k \<noteq> None), wv)"
    using laws(4) [of k "snd wv"] by (simp add: storage_on_snd_def on_snd_def)
  show "plain_key k \<Longrightarrow> \<exists>w'. delete_object (storage_on_snd S) k wv = (Inr True, w') \<and>
      objs (snd w') = (objs (snd wv))(k := None)"
    using laws(5) [of k "snd wv"] by (auto simp: storage_on_snd_def on_snd_def)
  show "\<exists>os. list_objects (storage_on_snd S) p wv = (Inr os, wv) \<and> distinct (map obj_key os) \<and>
      (\<forall>o1. o1 \<in> set os \<longleftrightarrow> (\<exists>b. objs (snd wv) (obj_key o1) = Some b \<and>
          startswith (obj_key o1) p \<and> o1 = \<lparr>obj_key = obj_key o1, obj_size = nbytes b\<rparr>))"
    using laws(6) [of p "snd wv"] by (auto simp: storage_on_snd_def on_snd_def)
qed

end
