(* ===== verification/Minio_Storage.thy ===== *)
theory Minio_Storage
  imports Ports
begin

text \<open>
  \<open>infrastructure/file_storage/minio_service.py\<close> over the MinIO client, which is a parameter: its
  calls act on a world \<open>'m\<close> and raise \<open>S3Error\<close>, a name without a bucket included. What MinIO
  documents for a reachable server and an existing object is the locale \<open>s3_client\<close>.
\<close>

section \<open>The client\<close>

datatype 'a s3_result = S3Error string | S3Ok 'a

record ('m, 'b) s3 =
  bucket_exists :: "string \<Rightarrow> 'm \<Rightarrow> bool"
  make_bucket :: "string \<Rightarrow> 'm \<Rightarrow> 'm"
  put_object :: "string \<Rightarrow> string \<Rightarrow> 'b \<Rightarrow> 'm \<Rightarrow> unit s3_result \<times> 'm"
  get_object :: "string \<Rightarrow> string \<Rightarrow> 'm \<Rightarrow> 'b s3_result"
  remove_object :: "string \<Rightarrow> string \<Rightarrow> 'm \<Rightarrow> unit s3_result \<times> 'm"
  stat_object :: "string \<Rightarrow> string \<Rightarrow> 'm \<Rightarrow> nat s3_result"
  s3_list :: "string \<Rightarrow> string \<Rightarrow> 'm \<Rightarrow> wal_object list s3_result"
  set_tags :: "string \<Rightarrow> string \<Rightarrow> (string \<times> string) list \<Rightarrow> 'm \<Rightarrow> unit s3_result \<times> 'm"

section \<open>The service\<close>

text \<open>\<open>s.partition(sep)\<close>, and the bucket and key of a path.\<close>

definition py_partition :: "string \<Rightarrow> string \<Rightarrow> string \<times> string" where
  "py_partition sep s = (case split_first sep s of None \<Rightarrow> (s, []) | Some ab \<Rightarrow> ab)"

definition bucket_and_key :: "string \<Rightarrow> string \<Rightarrow> string \<times> string" where
  "bucket_and_key bucket file_path =
     (if startswith file_path ''s3://''
      then py_partition ''/'' (snd (py_partition ''s3://'' file_path))
      else (bucket, file_path))"

definition ensure_bucket :: "('m, 'b) s3 \<Rightarrow> string \<Rightarrow> 'm \<Rightarrow> 'm" where
  "ensure_bucket C bucket m = (if bucket_exists C bucket m then m else make_bucket C bucket m)"

definition minio_upload_database ::
  "('m, 'b) s3 \<Rightarrow> string \<Rightarrow> uuid \<Rightarrow> uuid \<Rightarrow> 'b \<Rightarrow> string \<Rightarrow> ('m, string) act" where
  "minio_upload_database C bucket tenant_id database_id content filename m =
     (let object_name = object_key tenant_id database_id filename
      in case put_object C bucket object_name content (ensure_bucket C bucket m) of
           (S3Ok _, m') \<Rightarrow> (Inr (''s3://'' @ bucket @ ''/'' @ object_name), m')
         | (S3Error e, m') \<Rightarrow> (raise RuntimeError (''MinIO upload failed: '' @ e), m'))"

definition minio_download_database :: "('m, 'b) s3 \<Rightarrow> string \<Rightarrow> string \<Rightarrow> ('m, 'b) act" where
  "minio_download_database C bucket file_path m =
     (let (b, k) = bucket_and_key bucket file_path
      in case get_object C b k m of
           S3Ok x \<Rightarrow> (Inr x, m)
         | S3Error e \<Rightarrow> (raise RuntimeError (''MinIO download failed: '' @ e), m))"

definition minio_delete_database :: "('m, 'b) s3 \<Rightarrow> string \<Rightarrow> string \<Rightarrow> ('m, bool) act" where
  "minio_delete_database C bucket file_path m =
     (let (b, k) = bucket_and_key bucket file_path
      in case remove_object C b k m of (S3Ok _, m') \<Rightarrow> (Inr True, m') | (S3Error _, m') \<Rightarrow> (Inr False, m'))"

definition minio_file_exists :: "('m, 'b) s3 \<Rightarrow> string \<Rightarrow> string \<Rightarrow> ('m, bool) act" where
  "minio_file_exists C bucket file_path m =
     (let (b, k) = bucket_and_key bucket file_path
      in case stat_object C b k m of S3Ok _ \<Rightarrow> (Inr True, m) | S3Error _ \<Rightarrow> (Inr False, m))"

definition minio_get_file_size :: "('m, 'b) s3 \<Rightarrow> string \<Rightarrow> string \<Rightarrow> ('m, nat) act" where
  "minio_get_file_size C bucket file_path m =
     (let (b, k) = bucket_and_key bucket file_path
      in case stat_object C b k m of
           S3Ok n \<Rightarrow> (Inr n, m)
         | S3Error e \<Rightarrow> (raise RuntimeError (''MinIO stat failed: '' @ e), m))"

text \<open>A failing listing is logged and returns what it has; the client fails before the first object.\<close>

definition minio_list_objects :: "('m, 'b) s3 \<Rightarrow> string \<Rightarrow> string \<Rightarrow> ('m, wal_object list) act" where
  "minio_list_objects C bucket prefix m =
     (case s3_list C bucket prefix m of S3Ok os \<Rightarrow> (Inr os, m) | S3Error _ \<Rightarrow> (Inr [], m))"

definition minio_set_object_tags ::
  "('m, 'b) s3 \<Rightarrow> string \<Rightarrow> string \<Rightarrow> (string \<times> string) list \<Rightarrow> ('m, bool) act" where
  "minio_set_object_tags C bucket file_path tags m =
     (let (b, k) = bucket_and_key bucket file_path
      in case set_tags C b k tags m of (S3Ok _, m') \<Rightarrow> (Inr True, m') | (S3Error _, m') \<Rightarrow> (Inr False, m'))"

definition minio_service :: "('m, 'b) s3 \<Rightarrow> string \<Rightarrow> ('m, 'b) storage_port" where
  "minio_service C bucket = \<lparr>upload_database = minio_upload_database C bucket,
     download_database = minio_download_database C bucket,
     delete_object = minio_delete_database C bucket,
     file_exists = minio_file_exists C bucket,
     get_file_size = minio_get_file_size C bucket,
     list_objects = minio_list_objects C bucket,
     set_object_tags = minio_set_object_tags C bucket\<rparr>"

section \<open>Contract and implementation\<close>

lemma bucket_and_key_plain: "plain_key k \<Longrightarrow> bucket_and_key b k = (b, k)"
  by (simp add: bucket_and_key_def plain_key_def)

lemma bucket_and_key_url:
  assumes "CHR ''/'' \<notin> set b"
  shows "bucket_and_key b' (''s3://'' @ b @ ''/'' @ k) = (b, k)"
proof -
  have "\<not> startswith (drop i (b @ ''/'' @ k)) ''/''" if "i < length b" for i
  proof -
    from that have "drop i (b @ ''/'' @ k) = b ! i # drop (Suc i) b @ ''/'' @ k"
      by (simp add: Cons_nth_drop_Suc [symmetric])
    moreover have "b ! i \<noteq> CHR ''/''" using assms that by (metis nth_mem)
    ultimately show ?thesis by simp
  qed
  then have "split_first ''/'' (b @ ''/'' @ k) = Some (b, k)"
    using split_first_append [of "''/''" b k] by simp
  moreover have "split_first ''s3://'' (''s3://'' @ b @ ''/'' @ k) = Some ([], b @ ''/'' @ k)"
    using split_first_append [of "''s3://''" "[]" "b @ ''/'' @ k"] by simp
  ultimately show ?thesis by (simp add: bucket_and_key_def py_partition_def)
qed

locale s3_client =
  fixes C :: "('m, 'b) s3" and view :: "'m \<Rightarrow> string \<Rightarrow> string \<Rightarrow> 'b option" and nbytes :: "'b \<Rightarrow> nat"
    and bucket :: string
  assumes put: "bucket_exists C b m \<Longrightarrow> \<exists>m'. put_object C b k x m = (S3Ok (), m') \<and>
      view m' = (view m)(b := (view m b)(k \<mapsto> x))"
    and make: "\<not> bucket_exists C b m \<Longrightarrow> bucket_exists C b (make_bucket C b m) \<and>
      view (make_bucket C b m) = view m"
    and get: "get_object C b k m = (case view m b k of Some x \<Rightarrow> S3Ok x | None \<Rightarrow> S3Error ''NoSuchKey'')"
    and stat: "stat_object C b k m =
      (case view m b k of Some x \<Rightarrow> S3Ok (nbytes x) | None \<Rightarrow> S3Error ''NoSuchKey'')"
    and remove: "\<exists>m'. remove_object C b k m = (S3Ok (), m') \<and> view m' = (view m)(b := (view m b)(k := None))"
    and list_all_of: "\<exists>os. s3_list C b p m = S3Ok os \<and> distinct (map obj_key os) \<and>
      (\<forall>o1. o1 \<in> set os \<longleftrightarrow> (\<exists>x. view m b (obj_key o1) = Some x \<and> startswith (obj_key o1) p \<and>
          o1 = \<lparr>obj_key = obj_key o1, obj_size = nbytes x\<rparr>))"
    and tags: "view (snd (set_tags C b k ts m)) = view m"
begin

lemma ensured: "bucket_exists C b (ensure_bucket C b m)" "view (ensure_bucket C b m) = view m"
  using make [of b m] by (auto simp: ensure_bucket_def)

lemma upload_result:
  "\<exists>m'. minio_upload_database C bucket t d c f m = (Inr (''s3://'' @ bucket @ ''/'' @ object_key t d f), m') \<and>
     view m' = (view m)(bucket := (view m bucket)(object_key t d f \<mapsto> c))"
  using put [where b = bucket and m = "ensure_bucket C bucket m" and k = "object_key t d f" and x = c] ensured
  by (auto simp: minio_upload_database_def Let_def)

text \<open>The URL an upload returns downloads what was uploaded, whatever the service's own bucket is.\<close>

lemma upload_url_download:
  assumes "CHR ''/'' \<notin> set bucket" "minio_upload_database C bucket t d c f m = (Inr url, m')"
  shows "minio_download_database C bucket' url m' = (Inr c, m')"
proof -
  have "url = ''s3://'' @ bucket @ ''/'' @ object_key t d f"
    "view m' = (view m)(bucket := (view m bucket)(object_key t d f \<mapsto> c))"
    using upload_result [of t d c f m] assms(2) by auto
  then show ?thesis
    using bucket_and_key_url [OF assms(1)] by (simp add: minio_download_database_def get)
qed

end

sublocale s3_client \<subseteq> object_storage "minio_service C bucket" "\<lambda>m. view m bucket" nbytes
proof
  fix t d f k p :: string and c b and m
  show "\<exists>url w'. upload_database (minio_service C bucket) t d c f m = (Inr url, w') \<and>
      view w' bucket = (view m bucket)(object_key t d f \<mapsto> c)"
    using upload_result [of t d c f m] by (auto simp: minio_service_def)
  show "plain_key k \<Longrightarrow> view m bucket k = Some b \<Longrightarrow>
      download_database (minio_service C bucket) k m = (Inr b, m)"
    by (simp add: minio_service_def minio_download_database_def bucket_and_key_plain get)
  show "plain_key k \<Longrightarrow> view m bucket k = None \<Longrightarrow>
      \<exists>e. download_database (minio_service C bucket) k m = (Inl e, m)"
    by (simp add: minio_service_def minio_download_database_def bucket_and_key_plain get)
  show "plain_key k \<Longrightarrow> file_exists (minio_service C bucket) k m = (Inr (view m bucket k \<noteq> None), m)"
    by (cases "view m bucket k")
      (simp_all add: minio_service_def minio_file_exists_def bucket_and_key_plain stat)
  show "plain_key k \<Longrightarrow> \<exists>w'. delete_object (minio_service C bucket) k m = (Inr True, w') \<and>
      view w' bucket = (view m bucket)(k := None)"
    using remove [of bucket k m]
    by (auto simp: minio_service_def minio_delete_database_def bucket_and_key_plain)
  show "\<exists>os. list_objects (minio_service C bucket) p m = (Inr os, m) \<and> distinct (map obj_key os) \<and>
      (\<forall>o1. o1 \<in> set os \<longleftrightarrow> (\<exists>b. view m bucket (obj_key o1) = Some b \<and>
          startswith (obj_key o1) p \<and> o1 = \<lparr>obj_key = obj_key o1, obj_size = nbytes b\<rparr>))"
    using list_all_of [of bucket p m] by (auto simp: minio_service_def minio_list_objects_def)
qed

section \<open>A reference client\<close>

text \<open>Buckets as association lists, the earliest entry of a key being current: it meets the
  contract, so hypotheses about a client can hold.\<close>

type_synonym 'b ref_s3 = "((string \<times> string) \<times> 'b) list"

definition ref_list :: "('b \<Rightarrow> nat) \<Rightarrow> string \<Rightarrow> string \<Rightarrow> 'b ref_s3 \<Rightarrow> wal_object list" where
  "ref_list nbytes b p m =
     map (\<lambda>bk. \<lparr>obj_key = snd bk, obj_size = (case map_of m bk of Some x \<Rightarrow> nbytes x | None \<Rightarrow> 0)\<rparr>)
       (filter (\<lambda>bk. fst bk = b \<and> startswith (snd bk) p) (remdups (map fst m)))"

definition ref_s3 :: "('b \<Rightarrow> nat) \<Rightarrow> ('b ref_s3, 'b) s3" where
  "ref_s3 nbytes = \<lparr>bucket_exists = \<lambda>b m. True, make_bucket = \<lambda>b m. m,
     put_object = \<lambda>b k x m. (S3Ok (), ((b, k), x) # m),
     get_object = \<lambda>b k m. (case map_of m (b, k) of Some x \<Rightarrow> S3Ok x | None \<Rightarrow> S3Error ''NoSuchKey''),
     remove_object = \<lambda>b k m. (S3Ok (), filter (\<lambda>e. fst e \<noteq> (b, k)) m),
     stat_object = \<lambda>b k m. (case map_of m (b, k) of Some x \<Rightarrow> S3Ok (nbytes x) | None \<Rightarrow> S3Error ''NoSuchKey''),
     s3_list = \<lambda>b p m. S3Ok (ref_list nbytes b p m),
     set_tags = \<lambda>b k t m. (S3Ok (), m)\<rparr>"

definition ref_view :: "'b ref_s3 \<Rightarrow> string \<Rightarrow> string \<Rightarrow> 'b option" where
  "ref_view m b k = map_of m (b, k)"

lemma map_of_remove: "map_of (filter (\<lambda>e. fst e \<noteq> a) m) = (map_of m)(a := None)"
  by (induction m) auto

interpretation ref_client: s3_client "ref_s3 nbytes" ref_view nbytes bucket for nbytes bucket
proof
  fix b k p :: string and x and m :: "'a ref_s3"
  show "bucket_exists (ref_s3 nbytes) b m \<Longrightarrow> \<exists>m'. put_object (ref_s3 nbytes) b k x m = (S3Ok (), m') \<and>
      ref_view m' = (ref_view m)(b := (ref_view m b)(k \<mapsto> x))"
    by (auto simp: ref_s3_def ref_view_def fun_eq_iff)
  show "\<not> bucket_exists (ref_s3 nbytes) b m \<Longrightarrow>
      bucket_exists (ref_s3 nbytes) b (make_bucket (ref_s3 nbytes) b m) \<and>
      ref_view (make_bucket (ref_s3 nbytes) b m) = ref_view m"
    by (simp add: ref_s3_def)
  show "get_object (ref_s3 nbytes) b k m =
      (case ref_view m b k of Some x \<Rightarrow> S3Ok x | None \<Rightarrow> S3Error ''NoSuchKey'')"
    by (simp add: ref_s3_def ref_view_def)
  show "stat_object (ref_s3 nbytes) b k m =
      (case ref_view m b k of Some x \<Rightarrow> S3Ok (nbytes x) | None \<Rightarrow> S3Error ''NoSuchKey'')"
    by (simp add: ref_s3_def ref_view_def)
  show "\<exists>m'. remove_object (ref_s3 nbytes) b k m = (S3Ok (), m') \<and>
      ref_view m' = (ref_view m)(b := (ref_view m b)(k := None))"
    by (auto simp: ref_s3_def ref_view_def fun_eq_iff map_of_remove)
  have "inj_on snd (set (filter (\<lambda>bk. fst bk = b \<and> startswith (snd bk) p) (remdups (map fst m))))"
    by (auto simp: inj_on_def)
  then have "distinct (map obj_key (ref_list nbytes b p m))"
    by (simp add: ref_list_def comp_def distinct_map)
  moreover have "o1 \<in> set (ref_list nbytes b p m) \<longleftrightarrow> (\<exists>x. ref_view m b (obj_key o1) = Some x \<and>
      startswith (obj_key o1) p \<and> o1 = \<lparr>obj_key = obj_key o1, obj_size = nbytes x\<rparr>)" for o1
  proof -
    have "(b, k) \<in> fst ` set m \<longleftrightarrow> (\<exists>x. map_of m (b, k) = Some x)" for k
      by (metis map_of_eq_None_iff not_None_eq)
    then show ?thesis
      by (cases o1) (auto simp: ref_list_def ref_view_def image_iff)
  qed
  ultimately show "\<exists>os. s3_list (ref_s3 nbytes) b p m = S3Ok os \<and> distinct (map obj_key os) \<and>
      (\<forall>o1. o1 \<in> set os \<longleftrightarrow> (\<exists>x. ref_view m b (obj_key o1) = Some x \<and> startswith (obj_key o1) p \<and>
          o1 = \<lparr>obj_key = obj_key o1, obj_size = nbytes x\<rparr>))"
    by (simp add: ref_s3_def)
qed (simp add: ref_s3_def)

end
