(* ===== verification/Timestamps.thy ===== *)
theory Timestamps
  imports PyString "HOL-Library.List_Lexorder"
begin

text \<open>
  Aware UTC datetimes as their fields, ordered as Python orders them, and the compact time format
  \<open>%Y%m%dT%H%M%SZ\<close> that names WAL files: written by \<open>query_worker.py\<close>, read by the PITR use cases.
  \<open>strptime\<close> follows CPython's \<open>_strptime\<close>: a regular expression of the alternatives below, tried
  in order with backtracking and ignoring case, of which the first match must be the whole text.
\<close>

section \<open>Datetimes\<close>

datatype dt = DT (year: nat) (month: nat) (day: nat) (hour: nat) (minute: nat) (sec: nat) (micro: nat)

fun dt_fields :: "dt \<Rightarrow> nat list" where
  "dt_fields (DT y mo d h mi s us) = [y, mo, d, h, mi, s, us]"

instantiation dt :: linorder
begin

definition less_eq_dt :: "dt \<Rightarrow> dt \<Rightarrow> bool" where
  "less_eq_dt a b \<longleftrightarrow> dt_fields a \<le> dt_fields b"

definition less_dt :: "dt \<Rightarrow> dt \<Rightarrow> bool" where
  "less_dt a b \<longleftrightarrow> dt_fields a < dt_fields b"

lemma dt_fields_inject: "dt_fields a = dt_fields b \<longleftrightarrow> a = b"
  by (cases a; cases b) simp

instance
proof
  fix x y z :: dt
  show "x < y \<longleftrightarrow> x \<le> y \<and> \<not> y \<le> x" by (simp add: less_eq_dt_def less_dt_def less_le_not_le)
  show "x \<le> x" by (simp add: less_eq_dt_def)
  show "x \<le> y \<Longrightarrow> y \<le> z \<Longrightarrow> x \<le> z" by (auto simp: less_eq_dt_def intro: order_trans)
  show "x \<le> y \<Longrightarrow> y \<le> x \<Longrightarrow> x = y" by (simp add: less_eq_dt_def flip: dt_fields_inject)
  show "x \<le> y \<or> y \<le> x" by (simp add: less_eq_dt_def linear)
qed

end

lemma dt_less_simp [simp]:
  "DT y mo d h mi s us < DT y' mo' d' h' mi' s' us' \<longleftrightarrow>
     [y, mo, d, h, mi, s, us] < [y', mo', d', h', mi', s', us']"
  "DT y mo d h mi s us \<le> DT y' mo' d' h' mi' s' us' \<longleftrightarrow>
     [y, mo, d, h, mi, s, us] \<le> [y', mo', d', h', mi', s', us']"
  by (simp_all add: less_dt_def less_eq_dt_def)

definition leap_year :: "nat \<Rightarrow> bool" where
  "leap_year y \<longleftrightarrow> y mod 4 = 0 \<and> (y mod 100 \<noteq> 0 \<or> y mod 400 = 0)"

definition days_in_month :: "nat \<Rightarrow> nat \<Rightarrow> nat" where
  "days_in_month y mo =
     (if mo = 2 then (if leap_year y then 29 else 28)
      else if mo \<in> {4, 6, 9, 11} then 30 else 31)"

definition valid_dt :: "dt \<Rightarrow> bool" where
  "valid_dt d \<longleftrightarrow> 1 \<le> year d \<and> year d \<le> 9999 \<and> 1 \<le> month d \<and> month d \<le> 12 \<and>
     1 \<le> day d \<and> day d \<le> days_in_month (year d) (month d) \<and>
     hour d < 24 \<and> minute d < 60 \<and> sec d < 60 \<and> micro d < 1000000"

text \<open>The precision a WAL file name keeps.\<close>

definition trunc_sec :: "dt \<Rightarrow> dt" where
  "trunc_sec d = DT (year d) (month d) (day d) (hour d) (minute d) (sec d) 0"

definition trunc_min :: "dt \<Rightarrow> dt" where
  "trunc_min d = DT (year d) (month d) (day d) (hour d) (minute d) 0 0"

definition trunc_hour :: "dt \<Rightarrow> dt" where
  "trunc_hour d = DT (year d) (month d) (day d) (hour d) 0 0 0"

lemma trunc_sec_le [simp]: "trunc_sec d \<le> d"
  by (cases d) (auto simp: trunc_sec_def)

lemma trunc_min_le [simp]: "trunc_min d \<le> d"
  by (cases d) (auto simp: trunc_min_def)

lemma trunc_hour_le [simp]: "trunc_hour d \<le> d"
  by (cases d) (auto simp: trunc_hour_def)

lemma trunc_sec_mono: "a \<le> b \<Longrightarrow> trunc_sec a \<le> trunc_sec b"
  by (cases a; cases b) (simp add: trunc_sec_def, argo)

lemma trunc_sec_idem [simp]: "trunc_sec (trunc_sec d) = trunc_sec d"
  by (simp add: trunc_sec_def)

section \<open>The compact format\<close>

definition digit_char :: "nat \<Rightarrow> char" where
  "digit_char n = char_of (48 + n)"

definition pad2 :: "nat \<Rightarrow> string" where
  "pad2 n = [digit_char (n div 10), digit_char (n mod 10)]"

definition pad4 :: "nat \<Rightarrow> string" where
  "pad4 n = pad2 (n div 100) @ pad2 (n mod 100)"

definition strftime_compact :: "dt \<Rightarrow> string" where
  "strftime_compact d = pad4 (year d) @ pad2 (month d) @ pad2 (day d) @ ''T'' @
     pad2 (hour d) @ pad2 (minute d) @ pad2 (sec d) @ ''Z''"

type_synonym matches = "(nat \<times> string) list"

fun match1 :: "(nat \<Rightarrow> bool) \<Rightarrow> string \<Rightarrow> matches" where
  "match1 P (a # r) = (case digit_val a of
       Some x \<Rightarrow> if P x then [(x, r)] else [] | None \<Rightarrow> [])"
| "match1 P [] = []"

fun match2 :: "(nat \<Rightarrow> nat \<Rightarrow> bool) \<Rightarrow> string \<Rightarrow> matches" where
  "match2 P (a # b # r) = (case (digit_val a, digit_val b) of
       (Some x, Some y) \<Rightarrow> if P x y then [(10 * x + y, r)] else [] | _ \<Rightarrow> [])"
| "match2 P _ = []"

text \<open>The regular expressions of the directives, alternatives in order.\<close>

definition match_Y :: "string \<Rightarrow> matches" where
  "match_Y s = concat (map (\<lambda>(h, r). map (\<lambda>(l, r'). (100 * h + l, r')) (match2 (\<lambda>_ _. True) r))
     (match2 (\<lambda>_ _. True) s))"

definition match_m :: "string \<Rightarrow> matches" where
  "match_m s = match2 (\<lambda>x y. x = 1 \<and> y \<le> 2) s @ match2 (\<lambda>x y. x = 0 \<and> 1 \<le> y) s @
     match1 (\<lambda>x. 1 \<le> x) s"

definition match_d :: "string \<Rightarrow> matches" where
  "match_d s = match2 (\<lambda>x y. x = 3 \<and> y \<le> 1) s @ match2 (\<lambda>x y. 1 \<le> x \<and> x \<le> 2) s @
     match2 (\<lambda>x y. x = 0 \<and> 1 \<le> y) s @ match1 (\<lambda>x. 1 \<le> x) s @
     (case s of c # r \<Rightarrow> if c = CHR '' '' then match1 (\<lambda>x. 1 \<le> x) r else [] | [] \<Rightarrow> [])"

definition match_H :: "string \<Rightarrow> matches" where
  "match_H s = match2 (\<lambda>x y. x = 2 \<and> y \<le> 3) s @ match2 (\<lambda>x y. x \<le> 1) s @ match1 (\<lambda>_. True) s"

definition match_M :: "string \<Rightarrow> matches" where
  "match_M s = match2 (\<lambda>x y. x \<le> 5) s @ match1 (\<lambda>_. True) s"

definition match_S :: "string \<Rightarrow> matches" where
  "match_S s = match2 (\<lambda>x y. x = 6 \<and> y \<le> 1) s @ match2 (\<lambda>x y. x \<le> 5) s @ match1 (\<lambda>_. True) s"

definition match_lit :: "char \<Rightarrow> string \<Rightarrow> matches" where
  "match_lit l s = (case s of c # r \<Rightarrow> if lower_char c = lower_char l then [(0, r)] else [] | [] \<Rightarrow> [])"

text \<open>A sequence of directives collects its values; the list holds every match, best first.\<close>

fun match_seq :: "(string \<Rightarrow> matches) list \<Rightarrow> string \<Rightarrow> (nat list \<times> string) list" where
  "match_seq [] s = [([], s)]"
| "match_seq (p # ps) s =
     concat (map (\<lambda>(v, r). map (\<lambda>(vs, r'). (v # vs, r')) (match_seq ps r)) (p s))"

definition compact_format :: "(string \<Rightarrow> matches) list" where
  "compact_format = [match_Y, match_m, match_d, match_lit CHR ''T'', match_H, match_M, match_S,
     match_lit CHR ''Z'']"

definition strptime_compact :: "string \<Rightarrow> dt result" where
  "strptime_compact s = (case match_seq compact_format s of
       ([y, mo, d, _, h, mi, se, _], []) # _ \<Rightarrow>
         (let t = DT y mo d h mi se 0
          in if valid_dt t then Inr t else raise ValueError ''value is out of range'')
     | _ \<Rightarrow> raise ValueError ''time data does not match format'')"

section \<open>Reading back what was written\<close>

lemma digit_val_char [simp]: "n < 10 \<Longrightarrow> digit_val (digit_char n) = Some n"
  by (simp add: digit_val_def digit_char_def Let_def)

lemma match2_pad2: "n < 100 \<Longrightarrow> match2 P (pad2 n @ r) = (if P (n div 10) (n mod 10) then [(n, r)] else [])"
  by (simp add: pad2_def)

lemma match_Y_pad4: "n < 10000 \<Longrightarrow> match_Y (pad4 n @ r) = [(n, r)]"
  by (simp add: match_Y_def pad4_def match2_pad2 div_mult_mod_eq)

text \<open>The tens digit decides which alternative matches.\<close>

lemma tens_cases:
  fixes n :: nat
  assumes "n \<le> 39"
  obtains q s where "n div 10 = q" "n mod 10 = s" "n = 10 * q + s" "q = 0 \<or> q = 1 \<or> q = 2 \<or> q = 3"
proof -
  have eq: "n = 10 * (n div 10) + n mod 10" by simp
  have "n div 10 \<le> 3" using div_le_mono [OF assms, of 10] by simp
  then have "n div 10 = 0 \<or> n div 10 = 1 \<or> n div 10 = 2 \<or> n div 10 = 3" by linarith
  with eq that show thesis by blast
qed

lemma match_m_pad2: "1 \<le> n \<Longrightarrow> n \<le> 12 \<Longrightarrow> \<exists>tl. match_m (pad2 n @ r) = (n, r) # tl"
  by (rule tens_cases [of n]) (auto simp: match_m_def match2_pad2)

lemma match_d_pad2: "1 \<le> n \<Longrightarrow> n \<le> 31 \<Longrightarrow> \<exists>tl. match_d (pad2 n @ r) = (n, r) # tl"
  by (rule tens_cases [of n]) (auto simp: match_d_def match2_pad2)

lemma match_H_pad2: "n < 24 \<Longrightarrow> \<exists>tl. match_H (pad2 n @ r) = (n, r) # tl"
  by (rule tens_cases [of n]) (auto simp: match_H_def match2_pad2)

lemma match_M_pad2: "n < 60 \<Longrightarrow> \<exists>tl. match_M (pad2 n @ r) = (n, r) # tl"
  using div_le_mono [of n 59 10] by (simp add: match_M_def match2_pad2)

lemma match_S_pad2: "n < 60 \<Longrightarrow> \<exists>tl. match_S (pad2 n @ r) = (n, r) # tl"
  using div_le_mono [of n 59 10] by (simp add: match_S_def match2_pad2)

text \<open>The first match of a sequence is the first match of its parts.\<close>

lemma match_seq_step:
  assumes "\<exists>tl. p s = (v, r) # tl" and "\<exists>tl. match_seq ps r = (vs, r') # tl"
  shows "\<exists>tl. match_seq (p # ps) s = (v # vs, r') # tl"
  using assms by auto

lemma match_Y_pad4': "n < 10000 \<Longrightarrow> \<exists>tl. match_Y (pad4 n @ r) = (n, r) # tl"
  by (simp add: match_Y_pad4)

lemma match_lit_hd: "\<exists>tl. match_lit l ([l] @ r) = (0, r) # tl"
  by (simp add: match_lit_def)

lemma match_seq_last: "\<exists>tl. match_seq [match_lit l] [l] = ([0], []) # tl"
  by (simp add: match_lit_def)

lemma match_seq_strftime:
  assumes "valid_dt d"
  shows "\<exists>tl. match_seq compact_format (strftime_compact d) =
      ([year d, month d, day d, 0, hour d, minute d, sec d, 0], []) # tl"
proof -
  note v = assms [unfolded valid_dt_def]
  have "day d \<le> 31" using v by (auto simp: days_in_month_def split: if_splits)
  then have "year d < 10000" "1 \<le> month d" "month d \<le> 12" "1 \<le> day d" "day d \<le> 31"
    "hour d < 24" "minute d < 60" "sec d < 60" using v by simp_all
  then show ?thesis
    unfolding compact_format_def strftime_compact_def
    by (intro match_seq_step [where p = match_Y, OF match_Y_pad4'] match_seq_step [where p = match_m, OF match_m_pad2]
        match_seq_step [where p = match_d, OF match_d_pad2] match_seq_step [where p = "match_lit l" for l, OF match_lit_hd]
        match_seq_step [where p = match_H, OF match_H_pad2] match_seq_step [where p = match_M, OF match_M_pad2]
        match_seq_step [where p = match_S, OF match_S_pad2] match_seq_last)
qed

lemma strptime_strftime:
  assumes "valid_dt d"
  shows "strptime_compact (strftime_compact d) = Inr (trunc_sec d)"
proof -
  have "valid_dt (trunc_sec d)" using assms by (simp add: valid_dt_def trunc_sec_def)
  with match_seq_strftime [OF assms] show ?thesis
    by (auto simp: strptime_compact_def trunc_sec_def Let_def)
qed

end
