(* ===== verification/Nearest_Snapshot.thy ===== *)
theory Nearest_Snapshot
  imports Timestamps
begin

text \<open>
  The most recent snapshot taken by a target time: the four searches of
  \<open>restore_database_pitr.py\<close>, \<open>branching/create_branch.py\<close>, \<open>preview_database_pitr.py\<close> and
  \<open>list_database_pitr.py\<close>, each as its use case writes it, and the contract they share. Targets are
  aware UTC times. A \<open>created_at\<close> or \<open>ts\<close> field is what \<open>datetime.fromisoformat\<close> makes of it.
\<close>

section \<open>ISO fields\<close>

datatype iso_field = NotStr | BadIso | IsoNaive dt | IsoAware dt

text \<open>\<open>datetime.fromisoformat(x) <= t\<close> for an aware \<open>t\<close>: a naive time does not compare.\<close>

fun iso_le :: "iso_field \<Rightarrow> dt \<Rightarrow> bool result" where
  "iso_le NotStr t = raise TypeError ''fromisoformat: argument must be str''"
| "iso_le BadIso t = raise ValueError ''Invalid isoformat string''"
| "iso_le (IsoNaive d) t = raise TypeError ''can't compare offset-naive and offset-aware datetimes''"
| "iso_le (IsoAware d) t = Inr (d \<le> t)"

fun iso_time :: "iso_field \<Rightarrow> dt option" where
  "iso_time (IsoAware d) = Some d"
| "iso_time _ = None"

record snapshot =
  snap_id :: string
  snap_object_key :: string
  snap_checksum :: string
  snap_size :: nat
  snap_created :: iso_field

text \<open>The time of a snapshot that has one; the other cases never reach a use of it.\<close>

definition snap_time :: "snapshot \<Rightarrow> dt" where
  "snap_time s = (case snap_created s of IsoAware d \<Rightarrow> d | IsoNaive d \<Rightarrow> d | _ \<Rightarrow> DT 1 1 1 0 0 0 0)"

section \<open>The nearest snapshot, as each use case finds it\<close>

fun filter_r :: "('a \<Rightarrow> bool result) \<Rightarrow> 'a list \<Rightarrow> 'a list result" where
  "filter_r p [] = Inr []"
| "filter_r p (x # xs) = (case p x of
       Inl e \<Rightarrow> Inl e
     | Inr b \<Rightarrow> (case filter_r p xs of Inl e \<Rightarrow> Inl e
                  | Inr ys \<Rightarrow> Inr (if b then x # ys else ys)))"

text \<open>\<open>RestoreDatabasePITRUseCase._find_nearest_snapshot\<close>.\<close>

definition restore_nearest :: "snapshot list \<Rightarrow> dt \<Rightarrow> snapshot option result" where
  "restore_nearest all_snapshots t =
     bind_r (filter_r (\<lambda>s. iso_le (snap_created s) t) all_snapshots) (\<lambda>valid.
       Inr (py_max snap_time valid))"

text \<open>\<open>CreateBranchUseCase.execute\<close>: a field that is no string counts as \<open>datetime.min\<close>, which is naive.\<close>

definition branch_to_dt_le :: "dt \<Rightarrow> snapshot \<Rightarrow> bool result" where
  "branch_to_dt_le t s = (case snap_created s of
       NotStr \<Rightarrow> raise TypeError ''can't compare offset-naive and offset-aware datetimes''
     | f \<Rightarrow> iso_le f t)"

definition branch_nearest :: "snapshot list \<Rightarrow> dt \<Rightarrow> snapshot option result" where
  "branch_nearest all_snaps t =
     bind_r (filter_r (branch_to_dt_le t) all_snaps) (\<lambda>valid.
       case py_max snap_time valid of
         None \<Rightarrow> raise ValueError ''No snapshot found before target''
       | Some s \<Rightarrow> Inr (Some s))"

text \<open>The loop of the preview and of the timeline: a field that does not parse is skipped
  (\<open>str(None)\<close> does not parse either), a naive one raises.\<close>

fun candidates :: "snapshot list \<Rightarrow> dt \<Rightarrow> (dt \<times> snapshot) list result" where
  "candidates [] t = Inr []"
| "candidates (s # ss) t = (case snap_created s of
       NotStr \<Rightarrow> candidates ss t
     | BadIso \<Rightarrow> candidates ss t
     | IsoNaive _ \<Rightarrow> raise TypeError ''can't compare offset-naive and offset-aware datetimes''
     | IsoAware d \<Rightarrow> bind_r (candidates ss t) (\<lambda>cs. Inr (if d \<le> t then (d, s) # cs else cs)))"

definition first_desc :: "(dt \<times> snapshot) list \<Rightarrow> snapshot option" where
  "first_desc cs = (case py_sorted_desc fst cs of [] \<Rightarrow> None | c # _ \<Rightarrow> Some (snd c))"

definition preview_nearest :: "snapshot list \<Rightarrow> dt \<Rightarrow> snapshot option result" where
  "preview_nearest snapshots t = bind_r (candidates snapshots t) (\<lambda>cs. Inr (first_desc cs))"

definition timeline_nearest :: "snapshot list \<Rightarrow> dt \<Rightarrow> snapshot option result" where
  "timeline_nearest snapshots t = bind_r (candidates snapshots t) (\<lambda>cs. Inr (first_desc cs))"

section \<open>The contract of a nearest-snapshot search\<close>

definition all_aware :: "snapshot list \<Rightarrow> bool" where
  "all_aware ss \<longleftrightarrow> list_all (\<lambda>s. iso_time (snap_created s) \<noteq> None) ss"

definition taken_by :: "dt \<Rightarrow> snapshot \<Rightarrow> bool" where
  "taken_by t s \<longleftrightarrow> snap_time s \<le> t"

locale nearest_snapshot =
  fixes nearest :: "snapshot list \<Rightarrow> dt \<Rightarrow> snapshot option result"
  assumes found: "all_aware ss \<Longrightarrow> list_ex (taken_by t) ss \<Longrightarrow>
      nearest ss t = Inr (py_max snap_time (filter (taken_by t) ss))"
    and missing: "all_aware ss \<Longrightarrow> \<not> list_ex (taken_by t) ss \<Longrightarrow>
      nearest ss t = Inr None \<or> (\<exists>m. nearest ss t = raise ValueError m)"
    and naive: "s \<in> set ss \<Longrightarrow> snap_created s = IsoNaive d \<Longrightarrow> \<not> is_ok (nearest ss t)"
begin

lemma nearest_SomeD:
  assumes "all_aware ss" "nearest ss t = Inr (Some s)"
  shows "s \<in> set ss" "snap_time s \<le> t"
    and "s' \<in> set ss \<Longrightarrow> snap_time s' \<le> t \<Longrightarrow> snap_time s' \<le> snap_time s"
proof -
  have ex: "list_ex (taken_by t) ss" using missing [OF assms(1), of t] assms(2) by fastforce
  then have "py_max snap_time (filter (taken_by t) ss) = Some s"
    using found [OF assms(1) ex] assms(2) by simp
  note d = py_max_SomeD [OF this]
  from d(1) show "s \<in> set ss" "snap_time s \<le> t" by (auto simp: taken_by_def)
  show "snap_time s' \<le> snap_time s" if "s' \<in> set ss" "snap_time s' \<le> t"
    using d(2) [of s'] that by (simp add: taken_by_def)
qed

lemma nearest_complete:
  assumes "all_aware ss" "s \<in> set ss" "snap_time s \<le> t"
  shows "\<exists>n. nearest ss t = Inr (Some n)"
proof -
  have ex: "list_ex (taken_by t) ss" using assms(2,3) by (auto simp: list_ex_iff taken_by_def)
  have "filter (taken_by t) ss \<noteq> []" using assms(2,3) by (auto simp: taken_by_def filter_empty_conv)
  then obtain n where "py_max snap_time (filter (taken_by t) ss) = Some n"
    by (cases "py_max snap_time (filter (taken_by t) ss)") auto
  with found [OF assms(1) ex] show ?thesis by simp
qed

end

section \<open>Every use case meets the contract\<close>

lemma filter_r_total: "(\<And>x. x \<in> set xs \<Longrightarrow> p x = Inr (q x)) \<Longrightarrow> filter_r p xs = Inr (filter q xs)"
  by (induction xs) auto

lemma filter_r_ok_iff: "is_ok (filter_r p xs) \<longleftrightarrow> (\<forall>x \<in> set xs. is_ok (p x))"
  by (induction xs) (auto split: sum.splits)

lemma is_ok_bind: "is_ok (bind_r r f) \<Longrightarrow> is_ok r"
  by (cases r) simp_all

lemma all_aware_iff: "all_aware ss \<longleftrightarrow> (\<forall>s \<in> set ss. snap_created s = IsoAware (snap_time s))"
proof -
  have "iso_time (snap_created s) \<noteq> None \<longleftrightarrow> snap_created s = IsoAware (snap_time s)" for s
    by (cases "snap_created s") (auto simp: snap_time_def)
  then show ?thesis by (simp add: all_aware_def list_all_iff)
qed

lemma iso_le_aware: "snap_created s = IsoAware (snap_time s) \<Longrightarrow> iso_le (snap_created s) t = Inr (taken_by t s)"
  by (simp add: taken_by_def)

lemma candidates_aware:
  "all_aware ss \<Longrightarrow> candidates ss t = Inr (map (\<lambda>s. (snap_time s, s)) (filter (taken_by t) ss))"
  by (induction ss) (auto simp: all_aware_iff taken_by_def)

lemma candidates_naive: "s \<in> set ss \<Longrightarrow> snap_created s = IsoNaive d \<Longrightarrow> \<not> is_ok (candidates ss t)"
proof (induction ss)
  case (Cons x xs)
  then show ?case
    by (cases "x = s") (auto split: iso_field.splits dest: is_ok_bind)
qed simp

text \<open>Sorting in descending order and taking the first element is \<open>max\<close>: both keep the earliest of
  equal elements.\<close>

lemma py_max_eq_hd_filter:
  "xs \<noteq> [] \<Longrightarrow> py_max f xs = Some (hd (filter (\<lambda>x. \<forall>y \<in> set xs. f y \<le> f x) xs))"
proof -
  have main: "py_max_from f m xs = hd (filter (\<lambda>x. \<forall>y \<in> set (m # xs). f y \<le> f x) (m # xs))" for m xs
  proof (induction xs arbitrary: m)
    case (Cons x xs)
    show ?case
    proof (cases "f m < f x")
      case True
      then have "(\<forall>y \<in> set (m # x # xs). f y \<le> f z) \<longleftrightarrow> (\<forall>y \<in> set (x # xs). f y \<le> f z)" for z
        by auto
      with True Cons [of x] show ?thesis by (auto simp: not_le)
    next
      case False
      then have le: "f x \<le> f m" by simp
      let ?P = "\<lambda>z. \<forall>y \<in> set (m # xs). f y \<le> f z"
      have eq: "(\<lambda>z. \<forall>y \<in> set (m # x # xs). f y \<le> f z) = ?P"
        using le by (intro ext) (auto intro: order_trans)
      have "?P m \<or> \<not> ?P x" using le by force
      then have "hd (filter ?P (m # x # xs)) = hd (filter ?P (m # xs))"
        by (simp only: filter.simps split: if_splits) auto
      with False eq Cons [of m] show ?thesis by (simp only: py_max_from.simps if_False)
    qed
  qed simp
  assume "xs \<noteq> []"
  then obtain m ys where "xs = m # ys" by (cases xs) auto
  with main [of m ys] show ?thesis by simp
qed

lemma hd_sort_desc_eq_max:
  assumes "xs \<noteq> []"
  shows "Some (hd (py_sorted_desc f xs)) = py_max f xs"
proof -
  let ?d = "py_sorted_desc f xs"
  let ?M = "f (hd ?d)"
  have ne: "?d \<noteq> []" using assms by simp
  have max: "f y \<le> ?M" if "y \<in> set xs" for y using hd_py_sorted_desc_ge [OF that] .
  have mem: "hd ?d \<in> set xs" using ne by (metis hd_in_set py_sorted_desc_facts(1))
  have P: "(\<forall>y \<in> set xs. f y \<le> f x) \<longleftrightarrow> f x = ?M" if "x \<in> set xs" for x
    using max mem that by (metis order_antisym order_refl)
  have "filter (\<lambda>x. f x = k) ?d = filter (\<lambda>x. f x = k) xs" for k
    by (simp add: py_sorted_desc_def sort_key_stable flip: rev_filter)
  moreover have "hd (filter (\<lambda>x. f x = ?M) ?d) = hd ?d" using ne by (cases ?d) simp_all
  moreover have "filter (\<lambda>x. \<forall>y \<in> set xs. f y \<le> f x) xs = filter (\<lambda>x. f x = ?M) xs"
    using P by (intro filter_cong) auto
  ultimately show ?thesis using py_max_eq_hd_filter [OF assms, of f] by simp
qed

lemma py_max_map: "py_max f (map g xs) = map_option g (py_max (f \<circ> g) xs)"
proof -
  have "py_max_from f (g m) (map g xs) = g (py_max_from (f \<circ> g) m xs)" for m xs
    by (induction xs arbitrary: m) (simp_all add: if_distrib [of g, symmetric])
  then show ?thesis by (cases xs) simp_all
qed

lemma first_desc_eq: "first_desc (map (\<lambda>s. (snap_time s, s)) ss) = py_max snap_time ss"
proof (cases "ss = []")
  case False
  let ?cs = "map (\<lambda>s. (snap_time s, s)) ss"
  have "first_desc ?cs = map_option snd (Some (hd (py_sorted_desc fst ?cs)))"
    using False by (auto simp: first_desc_def split: list.splits)
  also have "\<dots> = map_option snd (py_max fst ?cs)"
    using False by (simp only: hd_sort_desc_eq_max map_is_Nil_conv not_False_eq_True)
  also have "\<dots> = py_max snap_time ss"
    by (simp add: py_max_map comp_def option.map_comp option.map_ident)
  finally show ?thesis .
qed (simp add: first_desc_def py_sorted_desc_def)

interpretation restore: nearest_snapshot restore_nearest
proof
  fix ss t s d
  have f: "all_aware ss \<Longrightarrow> filter_r (\<lambda>s. iso_le (snap_created s) t) ss = Inr (filter (taken_by t) ss)"
    by (intro filter_r_total iso_le_aware) (simp add: all_aware_iff)
  then show "all_aware ss \<Longrightarrow> restore_nearest ss t = Inr (py_max snap_time (filter (taken_by t) ss))"
    by (simp add: restore_nearest_def)
  show "all_aware ss \<Longrightarrow> \<not> list_ex (taken_by t) ss \<Longrightarrow>
      restore_nearest ss t = Inr None \<or> (\<exists>m. restore_nearest ss t = raise ValueError m)"
    using f by (auto simp: restore_nearest_def list_ex_iff filter_empty_conv)
  show "\<not> is_ok (restore_nearest ss t)" if "s \<in> set ss" "snap_created s = IsoNaive d"
    using that by (auto simp: restore_nearest_def filter_r_ok_iff dest!: is_ok_bind) force
qed

interpretation branch: nearest_snapshot branch_nearest
proof
  fix ss t s d
  have le: "branch_to_dt_le t s = Inr (taken_by t s)" if "snap_created s = IsoAware (snap_time s)" for s
    using that by (simp add: branch_to_dt_le_def taken_by_def)
  then have f: "all_aware ss \<Longrightarrow> filter_r (branch_to_dt_le t) ss = Inr (filter (taken_by t) ss)"
    by (intro filter_r_total le) (simp add: all_aware_iff)
  show "branch_nearest ss t = Inr (py_max snap_time (filter (taken_by t) ss))"
    if "all_aware ss" "list_ex (taken_by t) ss"
  proof -
    from that(2) have "filter (taken_by t) ss \<noteq> []" by (auto simp: list_ex_iff filter_empty_conv)
    with f [OF that(1)] show ?thesis by (auto simp: branch_nearest_def split: option.splits)
  qed
  show "all_aware ss \<Longrightarrow> \<not> list_ex (taken_by t) ss \<Longrightarrow>
      branch_nearest ss t = Inr None \<or> (\<exists>m. branch_nearest ss t = raise ValueError m)"
    using f by (auto simp: branch_nearest_def list_ex_iff filter_empty_conv split: option.splits)
  show "\<not> is_ok (branch_nearest ss t)" if "s \<in> set ss" "snap_created s = IsoNaive d"
    using that by (auto simp: branch_nearest_def branch_to_dt_le_def filter_r_ok_iff dest!: is_ok_bind) force
qed

lemma candidates_contract:
  assumes "\<And>ss t. nearest ss t = bind_r (candidates ss t) (\<lambda>cs. Inr (first_desc cs))"
  shows "nearest_snapshot nearest"
proof
  fix ss t s d
  have f: "all_aware ss \<Longrightarrow> nearest ss t = Inr (py_max snap_time (filter (taken_by t) ss))"
    by (simp add: assms candidates_aware first_desc_eq)
  then show "all_aware ss \<Longrightarrow> nearest ss t = Inr (py_max snap_time (filter (taken_by t) ss))" .
  show "all_aware ss \<Longrightarrow> \<not> list_ex (taken_by t) ss \<Longrightarrow>
      nearest ss t = Inr None \<or> (\<exists>m. nearest ss t = raise ValueError m)"
    using f by (auto simp: list_ex_iff filter_empty_conv)
  show "s \<in> set ss \<Longrightarrow> snap_created s = IsoNaive d \<Longrightarrow> \<not> is_ok (nearest ss t)"
    unfolding assms using candidates_naive is_ok_bind by blast
qed

interpretation preview: nearest_snapshot preview_nearest
  by (rule candidates_contract) (simp add: preview_nearest_def)

interpretation timeline: nearest_snapshot timeline_nearest
  by (rule candidates_contract) (simp add: timeline_nearest_def)

end
