(* ===== verification/WAL_Files.thy ===== *)
theory WAL_Files
  imports Minio_Storage Nearest_Snapshot
begin

text \<open>
  The write-ahead log kept in the object storage: which queries are logged and how the worker appends
  them (\<open>workers/query_worker.py\<close>), how an object's name gives its time back, and how each use case
  selects the files of a range (\<open>restore_database_pitr.py\<close>, \<open>create_branch.py\<close>,
  \<open>preview_database_pitr.py\<close>, \<open>list_database_pitr.py\<close>). The text of a log is a type \<open>'b\<close>: \<open>codec\<close> holds
  the empty text, the appending of one JSON line and the parsed lines of a text.
\<close>

section \<open>Lines and texts\<close>

text \<open>What \<open>json.loads\<close> makes of a line. A query that is missing is the empty one.\<close>

datatype wal_line =
    Blank
  | BadJson
  | NotDict
  | Entry (entry_ts: iso_field) (entry_query: string) (entry_results: "string list") (entry_rows: nat)

record wal_entry =
  we_ts :: dt
  we_query :: string
  we_results :: "string list"

definition entry_line :: "wal_entry \<Rightarrow> wal_line" where
  "entry_line e = Entry (IsoAware (we_ts e)) (we_query e) (we_results e) (length (we_results e))"

record 'b codec =
  no_text :: 'b
  add_line :: "'b \<Rightarrow> wal_entry \<Rightarrow> 'b"
  lines_of :: "'b \<Rightarrow> wal_line list"

text \<open>Reading back the JSON lines that were written.\<close>

definition json_codec :: "'b codec \<Rightarrow> bool" where
  "json_codec J \<longleftrightarrow> (\<forall>es. lines_of J (foldl (add_line J) (no_text J) es) = map entry_line es)"

section \<open>What is logged\<close>

definition mutators :: "string list" where
  "mutators = [''CREATE'', ''MERGE'', ''DELETE'', ''SET '', ''DROP'', ''ALTER'', ''INSERT'', ''UPDATE'']"

definition is_mutating :: "string \<Rightarrow> bool" where
  "is_mutating cypher = list_ex (startswith (py_upper (py_strip cypher))) mutators"

text \<open>\<open>ListDatabasePITRUseCase._query_type\<close>.\<close>

fun first_prefix :: "(string \<times> string) list \<Rightarrow> string \<Rightarrow> string" where
  "first_prefix [] q = ''READ''"
| "first_prefix ((p, label) # ps) q = (if startswith q p then label else first_prefix ps q)"

definition type_prefixes :: "(string \<times> string) list" where
  "type_prefixes = [(''CREATE'', ''CREATE''), (''MERGE'', ''MERGE''), (''DELETE'', ''DELETE''),
     (''SET '', ''SET''), (''DROP'', ''DROP''), (''ALTER'', ''ALTER''), (''INSERT'', ''INSERT''),
     (''UPDATE'', ''UPDATE'')]"

definition query_type :: "string \<Rightarrow> string" where
  "query_type query = first_prefix type_prefixes (py_upper (py_strip query))"

definition wal_filename :: "dt \<Rightarrow> string" where
  "wal_filename ts = ''wal/wal-'' @ strftime_compact ts @ ''.log''"

definition wal_lock :: "uuid \<Rightarrow> string" where
  "wal_lock database_id = ''db:'' @ database_id @ '':wal_append''"

text \<open>\<open>QueryWorker._append_wal_entry\<close> at time \<open>ts\<close>.\<close>

definition append_wal_entry ::
  "'w lock_port \<Rightarrow> ('w, 'b) storage_port \<Rightarrow> 'b codec \<Rightarrow> dt \<Rightarrow> uuid \<Rightarrow> uuid \<Rightarrow> string \<Rightarrow> string list \<Rightarrow>
   ('w, unit) act" where
  "append_wal_entry L S J ts tenant_id database_id cypher results =
     (let filename = wal_filename ts;
          key = object_key tenant_id database_id filename;
          e = \<lparr>we_ts = ts, we_query = cypher, we_results = results\<rparr>;
          lock_res = wal_lock database_id
      in (\<lambda>w. case acquire_lock L lock_res 10 w of
            (Inl _, w1) \<Rightarrow> (Inr (), w1)
          | (Inr None, w1) \<Rightarrow> (Inr (), w1)
          | (Inr (Some token), w1) \<Rightarrow>
              finally_do
                (catch
                  (bind (catch (bind (file_exists S key) (\<lambda>b. if b then download_database S key
                                                        else ret (no_text J)))
                           (\<lambda>_. ret (no_text J)))
                    (\<lambda>prior. bind (upload_database S tenant_id database_id (add_line J prior e) filename)
                      (\<lambda>_. ret ())))
                  (\<lambda>_. ret ()))
                (release_lock L lock_res token) w1))"

section \<open>Selecting the files of a range\<close>

record wal_file =
  wf_key :: string
  wf_ts :: dt
  wf_size :: nat

definition file_name :: "string \<Rightarrow> string" where
  "file_name k = last (py_split_char CHR ''/'' k)"

definition name_time :: "string \<Rightarrow> dt result" where
  "name_time filename = strptime_compact (remove_all ''.log'' (remove_all ''wal-'' filename))"

definition in_range :: "dt \<Rightarrow> dt \<Rightarrow> string \<Rightarrow> wal_object \<Rightarrow> wal_file option" where
  "in_range start stop filename ob = (case name_time filename of
       Inl _ \<Rightarrow> None
     | Inr ts \<Rightarrow> if start \<le> ts \<and> ts \<le> stop
                then Some \<lparr>wf_key = obj_key ob, wf_ts = ts, wf_size = obj_size ob\<rparr> else None)"

text \<open>\<open>RestoreDatabasePITRUseCase._find_wal_files_in_range\<close> does not ask for the suffix \<open>.log\<close>.\<close>

definition restore_select :: "dt \<Rightarrow> dt \<Rightarrow> wal_object \<Rightarrow> wal_file option" where
  "restore_select start stop ob = (let filename = file_name (obj_key ob) in
     if \<not> startswith filename ''wal-'' then None else in_range start stop filename ob)"

definition find_wal_files_in_range ::
  "('w, 'b) storage_port \<Rightarrow> uuid \<Rightarrow> uuid \<Rightarrow> dt \<Rightarrow> dt \<Rightarrow> ('w, wal_file list) act" where
  "find_wal_files_in_range S tenant_id database_id start stop =
     bind (catch (list_objects S (object_key tenant_id database_id ''wal/'')) (\<lambda>_. ret []))
       (\<lambda>os. ret (py_sorted wf_ts (List.map_filter (restore_select start stop) os)))"

text \<open>The other three ask for both; the timeline keeps the listing's order.\<close>

definition log_select :: "dt \<Rightarrow> dt \<Rightarrow> wal_object \<Rightarrow> wal_file option" where
  "log_select start stop ob = (let filename = file_name (obj_key ob) in
     if \<not> startswith filename ''wal-'' \<or> \<not> endswith filename ''.log'' then None
     else in_range start stop filename ob)"

definition branch_wal_files ::
  "('w, 'b) storage_port \<Rightarrow> uuid \<Rightarrow> uuid \<Rightarrow> dt \<Rightarrow> dt \<Rightarrow> ('w, wal_file list) act" where
  "branch_wal_files S tenant_id source_id base target =
     bind (catch (list_objects S (object_key tenant_id source_id ''wal/'')) (\<lambda>_. ret []))
       (\<lambda>os. ret (py_sorted wf_ts (List.map_filter (log_select base target) os)))"

definition preview_wal_files ::
  "('w, 'b) storage_port \<Rightarrow> uuid \<Rightarrow> uuid \<Rightarrow> dt \<Rightarrow> dt \<Rightarrow> ('w, wal_file list) act" where
  "preview_wal_files S tenant_id database_id start target =
     bind (list_objects S (object_key tenant_id database_id ''wal/''))
       (\<lambda>os. ret (py_sorted wf_ts (List.map_filter (log_select start target) os)))"

definition timeline_wal_files ::
  "('w, 'b) storage_port \<Rightarrow> uuid \<Rightarrow> uuid \<Rightarrow> dt \<Rightarrow> dt \<Rightarrow> ('w, wal_file list) act" where
  "timeline_wal_files S tenant_id database_id start stop =
     bind (list_objects S (object_key tenant_id database_id ''wal/''))
       (\<lambda>os. ret (List.map_filter (log_select start stop) os))"

section \<open>Names give times back\<close>

lemma remove_all_Nil [simp]: "remove_all old [] = []"
  by (subst remove_all.simps) simp

lemma remove_all_free: "c \<notin> set s \<Longrightarrow> remove_all (c # cs) s = s"
proof (induction s)
  case (Cons x xs)
  then show ?case by (subst remove_all.simps) auto
qed simp

lemma remove_all_skip: "c \<notin> set s \<Longrightarrow> remove_all (c # cs) (s @ t) = s @ remove_all (c # cs) t"
proof (induction s)
  case (Cons x xs)
  then show ?case by (subst remove_all.simps) auto
qed simp

lemma remove_all_prefix: "remove_all (c # cs) ((c # cs) @ t) = remove_all (c # cs) t"
  by (subst remove_all.simps) simp

definition digit_set :: "char set" where
  "digit_set = set ''0123456789''"

lemma digit_chars: "map digit_char [0..<10] = ''0123456789''"
  by code_simp

lemma digit_char_range: "n < 10 \<Longrightarrow> digit_char n \<in> digit_set"
  unfolding digit_set_def digit_chars [symmetric] set_map by (rule imageI) simp

lemma set_pad2: "n < 100 \<Longrightarrow> set (pad2 n) \<subseteq> digit_set"
  by (simp add: pad2_def digit_char_range less_mult_imp_div_less)

lemma set_strftime:
  assumes "valid_dt d"
  shows "set (strftime_compact d) \<subseteq> insert CHR ''T'' (insert CHR ''Z'' digit_set)"
proof -
  note v = assms [unfolded valid_dt_def]
  have "day d \<le> 31" using v by (auto simp: days_in_month_def split: if_splits)
  then have b: "year d div 100 < 100" "year d mod 100 < 100" "month d < 100" "day d < 100"
    "hour d < 100" "minute d < 100" "sec d < 100"
    using v less_mult_imp_div_less [of "year d" 100 100] by simp_all
  show ?thesis
    using b [THEN set_pad2] unfolding strftime_compact_def pad4_def set_append
    by (simp only: list.set) blast
qed

lemma strftime_free:
  assumes "valid_dt d"
  shows "CHR ''w'' \<notin> set (strftime_compact d)" "CHR ''.'' \<notin> set (strftime_compact d)"
    "CHR ''/'' \<notin> set (strftime_compact d)"
  using set_strftime [OF assms] by (auto simp: digit_set_def)

lemma name_time_wal:
  assumes "valid_dt d"
  shows "name_time (''wal-'' @ strftime_compact d @ ''.log'') = Inr (trunc_sec d)"
proof -
  note strftime_free [OF assms]
  moreover have "remove_all ''wal-'' ''.log'' = ''.log''"
    using remove_all_free [of "CHR ''w''" "''.log''" "''al-''"] by simp
  moreover have "remove_all ''.log'' ''.log'' = []"
    using remove_all_prefix [of "CHR ''.''" "''log''" "[]"] by simp
  ultimately show ?thesis
    using remove_all_prefix [of "CHR ''w''" "''al-''" "strftime_compact d @ ''.log''"]
      remove_all_skip [of "CHR ''w''" "strftime_compact d" "''al-''" "''.log''"]
      remove_all_skip [of "CHR ''.''" "strftime_compact d" "''log''" "''.log''"]
      strptime_strftime [OF assms]
    by (simp add: name_time_def)
qed

lemma file_name_wal:
  assumes "valid_dt d"
  shows "file_name (object_key t db (wal_filename d)) = ''wal-'' @ strftime_compact d @ ''.log''"
proof -
  have "CHR ''/'' \<notin> set (''wal-'' @ strftime_compact d @ ''.log'')"
    using strftime_free [OF assms] by simp
  from last_py_split_char_append [OF this, of "''tenants/'' @ t @ ''/'' @ db @ ''/wal''"]
  show ?thesis by (simp add: file_name_def object_key_def wal_filename_def)
qed

lemma select_wal:
  assumes "valid_dt d" "obj_key ob = object_key t db (wal_filename d)"
  shows "restore_select start stop ob = log_select start stop ob"
    and "log_select start stop ob =
      (if start \<le> trunc_sec d \<and> trunc_sec d \<le> stop
       then Some \<lparr>wf_key = obj_key ob, wf_ts = trunc_sec d, wf_size = obj_size ob\<rparr> else None)"
  using file_name_wal [OF assms(1), of t db] name_time_wal [OF assms(1)]
    endswith_append [of "''wal-'' @ strftime_compact d" "''.log''"]
  by (simp_all add: assms(2) restore_select_def log_select_def in_range_def)

end
