(* ===== verification/PITR_Replay.thy ===== *)
theory PITR_Replay
  imports WAL_Files
begin

text \<open>
  Replaying WAL files up to a target time, as the restore (\<open>_replay_wal_files\<close>), the branch creation
  (\<open>CreateBranchUseCase.execute\<close>) and the preview (\<open>_replay_wal_file\<close>) do it. \<open>exec q\<close> is the query
  service's \<open>execute_query\<close> on the target database; it may fail and may have effects when it does.
\<close>

section \<open>The restore\<close>

text \<open>The lines of one file: the count, and whether the target time was reached, which ends the whole
  replay. A naive time raises \<open>TypeError\<close> in the comparison, which is ignored like any other.\<close>

fun restore_lines ::
  "(string \<Rightarrow> ('w, unit) act) \<Rightarrow> dt \<Rightarrow> wal_line list \<Rightarrow> nat \<Rightarrow> 'w \<Rightarrow> (nat \<times> bool) \<times> 'w" where
  "restore_lines exec target [] n w = ((n, False), w)"
| "restore_lines exec target (l # ls) n w = (case l of
       Blank \<Rightarrow> restore_lines exec target ls n w
     | BadJson \<Rightarrow> restore_lines exec target ls n w
     | NotDict \<Rightarrow> restore_lines exec target ls n w
     | Entry ts query _ _ \<Rightarrow> (case iso_le ts target of
           Inl _ \<Rightarrow> restore_lines exec target ls n w
         | Inr False \<Rightarrow> ((n, True), w)
         | Inr True \<Rightarrow>
             if query = [] then restore_lines exec target ls n w
             else (case exec query w of
                 (Inr _, w') \<Rightarrow> restore_lines exec target ls (n + 1) w'
               | (Inl _, w') \<Rightarrow> restore_lines exec target ls n w')))"

fun replay_wal_files ::
  "('w, 'b) storage_port \<Rightarrow> 'b codec \<Rightarrow> (string \<Rightarrow> ('w, unit) act) \<Rightarrow> dt \<Rightarrow> wal_file list \<Rightarrow> nat \<Rightarrow>
   'w \<Rightarrow> nat \<times> 'w" where
  "replay_wal_files S J exec target [] n w = (n, w)"
| "replay_wal_files S J exec target (f # fs) n w = (case download_database S (wf_key f) w of
       (Inl _, w1) \<Rightarrow> replay_wal_files S J exec target fs n w1
     | (Inr t, w1) \<Rightarrow> (case restore_lines exec target (lines_of J t) n w1 of
           ((m, True), w2) \<Rightarrow> (m, w2)
         | ((m, False), w2) \<Rightarrow> replay_wal_files S J exec target fs m w2))"

section \<open>The branch creation\<close>

text \<open>An entry without a query is skipped before its time is looked at; a time that does not parse is
  ignored and the query runs; a naive one counts as UTC.\<close>

definition beyond_target :: "dt \<Rightarrow> iso_field \<Rightarrow> bool" where
  "beyond_target target ts = (case ts of IsoAware d \<Rightarrow> target < d | IsoNaive d \<Rightarrow> target < d | _ \<Rightarrow> False)"

fun branch_lines ::
  "(string \<Rightarrow> ('w, unit) act) \<Rightarrow> dt \<Rightarrow> wal_line list \<Rightarrow> nat \<Rightarrow> 'w \<Rightarrow> nat \<times> 'w" where
  "branch_lines exec target [] n w = (n, w)"
| "branch_lines exec target (l # ls) n w = (case l of
       Blank \<Rightarrow> branch_lines exec target ls n w
     | BadJson \<Rightarrow> branch_lines exec target ls n w
     | NotDict \<Rightarrow> branch_lines exec target ls n w
     | Entry ts q _ _ \<Rightarrow>
         if q = [] then branch_lines exec target ls n w
         else if beyond_target target ts then (n, w)
         else (case exec q w of
             (Inr _, w') \<Rightarrow> branch_lines exec target ls (n + 1) w'
           | (Inl _, w') \<Rightarrow> branch_lines exec target ls n w'))"

fun branch_replay ::
  "('w, 'b) storage_port \<Rightarrow> 'b codec \<Rightarrow> (string \<Rightarrow> ('w, unit) act) \<Rightarrow> dt \<Rightarrow> wal_file list \<Rightarrow> nat \<Rightarrow>
   'w \<Rightarrow> nat \<times> 'w" where
  "branch_replay S J exec target [] n w = (n, w)"
| "branch_replay S J exec target (f # fs) n w = (case download_database S (wf_key f) w of
       (Inl _, w1) \<Rightarrow> branch_replay S J exec target fs n w1
     | (Inr t, w1) \<Rightarrow> (case branch_lines exec target (lines_of J t) n w1 of
           (m, w2) \<Rightarrow> branch_replay S J exec target fs m w2))"

section \<open>The preview\<close>

text \<open>The handler of a failing line logs the variable \<open>entry\<close>. When no line of the file has been parsed
  yet the variable is unbound, the handler itself raises, and the rest of the file is dropped.\<close>

fun preview_lines ::
  "(string \<Rightarrow> ('w, unit) act) \<Rightarrow> dt \<Rightarrow> bool \<Rightarrow> wal_line list \<Rightarrow> 'w \<Rightarrow> 'w" where
  "preview_lines exec target bound [] w = w"
| "preview_lines exec target bound (l # ls) w = (case l of
       Blank \<Rightarrow> preview_lines exec target bound ls w
     | BadJson \<Rightarrow> if bound then preview_lines exec target bound ls w else w
     | NotDict \<Rightarrow> preview_lines exec target True ls w
     | Entry ts query _ _ \<Rightarrow> (case iso_le ts target of
           Inl _ \<Rightarrow> preview_lines exec target True ls w
         | Inr False \<Rightarrow> w
         | Inr True \<Rightarrow>
             if query = [] then preview_lines exec target True ls w
             else preview_lines exec target True ls (snd (exec query w))))"

fun preview_replay ::
  "('w, 'b) storage_port \<Rightarrow> 'b codec \<Rightarrow> (string \<Rightarrow> ('w, unit) act) \<Rightarrow> dt \<Rightarrow> wal_file list \<Rightarrow> 'w \<Rightarrow> 'w" where
  "preview_replay S J exec target [] w = w"
| "preview_replay S J exec target (f # fs) w = (case download_database S (wf_key f) w of
       (Inl _, w1) \<Rightarrow> preview_replay S J exec target fs w1
     | (Inr t, w1) \<Rightarrow>
         preview_replay S J exec target fs (preview_lines exec target False (lines_of J t) w1))"

section \<open>What a replay should do\<close>

text \<open>Running queries one after the other, counting those that succeed.\<close>

fun run_queries :: "(string \<Rightarrow> ('w, unit) act) \<Rightarrow> string list \<Rightarrow> nat \<Rightarrow> 'w \<Rightarrow> nat \<times> 'w" where
  "run_queries exec [] n w = (n, w)"
| "run_queries exec (q # qs) n w = (case exec q w of
       (Inr _, w') \<Rightarrow> run_queries exec qs (n + 1) w' | (Inl _, w') \<Rightarrow> run_queries exec qs n w')"

fun events_of :: "wal_line list \<Rightarrow> (dt \<times> string) list" where
  "events_of [] = []"
| "events_of (Entry (IsoAware d) q _ _ # ls) = (d, q) # events_of ls"
| "events_of (_ # ls) = events_of ls"

text \<open>Lines as the worker writes them.\<close>

fun clean_line :: "wal_line \<Rightarrow> bool" where
  "clean_line Blank = True"
| "clean_line (Entry (IsoAware d) q _ _) \<longleftrightarrow> q \<noteq> []"
| "clean_line _ = False"

definition upto_target :: "dt \<Rightarrow> (dt \<times> string) list \<Rightarrow> string list" where
  "upto_target target es = map snd (takeWhile (\<lambda>e. fst e \<le> target) es)"

definition by_target :: "dt \<Rightarrow> (dt \<times> string) list \<Rightarrow> string list" where
  "by_target target es = map snd (filter (\<lambda>e. fst e \<le> target) es)"

text \<open>The texts of the files stay available while queries run.\<close>

definition stable_texts ::
  "('w, 'b) storage_port \<Rightarrow> (string \<Rightarrow> ('w, unit) act) \<Rightarrow> ('w \<Rightarrow> bool) \<Rightarrow> (string \<Rightarrow> 'b) \<Rightarrow>
   wal_file list \<Rightarrow> bool" where
  "stable_texts S exec P txt fs \<longleftrightarrow> (\<forall>q. keeps P (exec q)) \<and>
     (\<forall>f \<in> set fs. \<forall>w. P w \<longrightarrow> download_database S (wf_key f) w = (Inr (txt (wf_key f)), w))"

definition file_events :: "'b codec \<Rightarrow> (string \<Rightarrow> 'b) \<Rightarrow> wal_file \<Rightarrow> (dt \<times> string) list" where
  "file_events J txt f = events_of (lines_of J (txt (wf_key f)))"

definition clean_files :: "'b codec \<Rightarrow> (string \<Rightarrow> 'b) \<Rightarrow> wal_file list \<Rightarrow> bool" where
  "clean_files J txt fs \<longleftrightarrow> (\<forall>f \<in> set fs. list_all clean_line (lines_of J (txt (wf_key f))))"

definition all_events :: "'b codec \<Rightarrow> (string \<Rightarrow> 'b) \<Rightarrow> wal_file list \<Rightarrow> (dt \<times> string) list" where
  "all_events J txt fs = concat (map (file_events J txt) fs)"

section \<open>Lemmas\<close>

lemma run_queries_append:
  "run_queries exec (qs @ rs) n w = (case run_queries exec qs n w of (m, w') \<Rightarrow> run_queries exec rs m w')"
  by (induction qs arbitrary: n w) (auto split: prod.splits sum.splits)

lemma run_queries_keeps:
  "(\<And>q. keeps P (exec q)) \<Longrightarrow> P w \<Longrightarrow> P (snd (run_queries exec qs n w))"
proof (induction qs arbitrary: n w)
  case (Cons q qs)
  obtain r w' where "exec q w = (r, w')" "P w'" using keeps_run [OF Cons.prems(1) Cons.prems(2)] by blast
  with Cons show ?case by (cases r) auto
qed simp

lemma clean_line_cases:
  assumes "clean_line l"
  obtains "l = Blank" | d q rs k where "l = Entry (IsoAware d) q rs k" "q \<noteq> []"
  using assms by (cases l rule: clean_line.cases) auto

lemma upto_target_Cons:
  "upto_target t ((d, q) # es) = (if d \<le> t then q # upto_target t es else [])"
  by (simp add: upto_target_def)

lemma upto_target_append:
  "upto_target t (es @ fs) =
     (if list_all (\<lambda>e. fst e \<le> t) es then upto_target t es @ upto_target t fs else upto_target t es)"
  by (induction es) (auto simp: upto_target_def)

lemma upto_by_target: "sorted (map fst es) \<Longrightarrow> upto_target t es = by_target t es"
  by (induction es) (auto simp: upto_target_def by_target_def filter_empty_conv dest: order_trans)

lemma by_target_concat: "by_target t (concat ess) = concat (map (by_target t) ess)"
  by (induction ess) (simp_all add: by_target_def)

lemma restore_lines_clean:
  "list_all clean_line ls \<Longrightarrow> restore_lines exec t ls n w =
     (case run_queries exec (upto_target t (events_of ls)) n w of
        (m, w') \<Rightarrow> ((m, \<not> list_all (\<lambda>e. fst e \<le> t) (events_of ls)), w'))"
proof (induction ls arbitrary: n w)
  case Nil
  then show ?case by (simp add: upto_target_def)
next
  case (Cons l ls)
  from Cons.prems have "clean_line l" by simp
  then show ?case
    by (cases rule: clean_line_cases)
      (use Cons in \<open>auto simp: upto_target_Cons split: prod.splits sum.splits\<close>)
qed

lemma branch_lines_clean:
  "list_all clean_line ls \<Longrightarrow> branch_lines exec t ls n w = run_queries exec (upto_target t (events_of ls)) n w"
proof (induction ls arbitrary: n w)
  case Nil
  then show ?case by (simp add: upto_target_def)
next
  case (Cons l ls)
  from Cons.prems have "clean_line l" by simp
  then show ?case
    by (cases rule: clean_line_cases)
      (use Cons in \<open>auto simp: upto_target_Cons beyond_target_def not_le split: prod.splits sum.splits\<close>)
qed

lemma preview_lines_clean:
  "list_all clean_line ls \<Longrightarrow>
     preview_lines exec t b ls w = snd (run_queries exec (upto_target t (events_of ls)) n w)"
proof (induction ls arbitrary: n b w)
  case Nil
  then show ?case by (simp add: upto_target_def)
next
  case (Cons l ls)
  from Cons.prems have "clean_line l" by simp
  then show ?case
    by (cases rule: clean_line_cases)
      (use Cons in \<open>auto simp: upto_target_Cons split: prod.splits sum.splits\<close>)
qed

lemma stable_texts_Cons:
  "stable_texts S exec P txt (f # fs) \<longleftrightarrow> stable_texts S exec P txt fs \<and>
     (\<forall>w. P w \<longrightarrow> download_database S (wf_key f) w = (Inr (txt (wf_key f)), w))"
  by (auto simp: stable_texts_def)

lemma clean_files_Cons:
  "clean_files J txt (f # fs) \<longleftrightarrow>
     list_all clean_line (lines_of J (txt (wf_key f))) \<and> clean_files J txt fs"
  by (simp add: clean_files_def)

lemma stable_run: "stable_texts S exec P txt fs \<Longrightarrow> P w \<Longrightarrow> run_queries exec qs n w = (m, w') \<Longrightarrow> P w'"
  using run_queries_keeps [of P exec w qs n] by (simp add: stable_texts_def)

lemma replay_wal_files_clean:
  "stable_texts S exec P txt fs \<Longrightarrow> clean_files J txt fs \<Longrightarrow> P w \<Longrightarrow>
     replay_wal_files S J exec t fs n w = run_queries exec (upto_target t (all_events J txt fs)) n w"
proof (induction fs arbitrary: n w)
  case Nil
  then show ?case by (simp add: all_events_def upto_target_def)
next
  case (Cons f fs)
  obtain m w' where r: "run_queries exec (upto_target t (file_events J txt f)) n w = (m, w')" by force
  with stable_run [OF Cons.prems(1,3)] have "P w'" by blast
  with Cons r show ?case
    by (auto simp: stable_texts_Cons clean_files_Cons restore_lines_clean file_events_def all_events_def
        upto_target_append run_queries_append)
qed

lemma branch_replay_clean:
  "stable_texts S exec P txt fs \<Longrightarrow> clean_files J txt fs \<Longrightarrow> P w \<Longrightarrow>
     branch_replay S J exec t fs n w =
       run_queries exec (concat (map (\<lambda>f. upto_target t (file_events J txt f)) fs)) n w"
proof (induction fs arbitrary: n w)
  case (Cons f fs)
  obtain m w' where r: "run_queries exec (upto_target t (file_events J txt f)) n w = (m, w')" by force
  with stable_run [OF Cons.prems(1,3)] have "P w'" by blast
  with Cons r show ?case
    by (auto simp: stable_texts_Cons clean_files_Cons branch_lines_clean file_events_def run_queries_append)
qed simp

lemma preview_replay_clean:
  "stable_texts S exec P txt fs \<Longrightarrow> clean_files J txt fs \<Longrightarrow> P w \<Longrightarrow>
     preview_replay S J exec t fs w =
       snd (run_queries exec (concat (map (\<lambda>f. upto_target t (file_events J txt f)) fs)) n w)"
proof (induction fs arbitrary: n w)
  case (Cons f fs)
  obtain m w' where r: "run_queries exec (upto_target t (file_events J txt f)) n w = (m, w')" by force
  with stable_run [OF Cons.prems(1,3)] have "P w'" by blast
  with Cons r show ?case
    by (auto simp: stable_texts_Cons clean_files_Cons preview_lines_clean [where n = n] file_events_def
        run_queries_append)
qed simp

lemma sorted_concat_upto:
  assumes "sorted (map fst (all_events J txt fs))"
  shows "concat (map (\<lambda>f. upto_target t (file_events J txt f)) fs) = by_target t (all_events J txt fs)"
proof -
  have "sorted (map fst (file_events J txt f))" if "f \<in> set fs" for f
  proof -
    from that obtain gs hs where "fs = gs @ f # hs" by (auto simp: in_set_conv_decomp)
    with assms show ?thesis by (simp add: all_events_def sorted_append)
  qed
  then have "map (\<lambda>f. upto_target t (file_events J txt f)) fs = map (by_target t \<circ> file_events J txt) fs"
    by (simp add: upto_by_target)
  then have "concat (map (\<lambda>f. upto_target t (file_events J txt f)) fs) =
      concat (map (by_target t \<circ> file_events J txt) fs)" by (rule arg_cong)
  also have "\<dots> = by_target t (all_events J txt fs)" by (simp add: all_events_def by_target_concat)
  finally show ?thesis .
qed

lemma replays_clean_sorted:
  assumes "stable_texts S exec P txt fs" "clean_files J txt fs"
    and "sorted (map fst (all_events J txt fs))" "P w"
  shows "replay_wal_files S J exec target fs 0 w =
      run_queries exec (by_target target (all_events J txt fs)) 0 w"
    and "branch_replay S J exec target fs 0 w = replay_wal_files S J exec target fs 0 w"
    and "preview_replay S J exec target fs w = snd (replay_wal_files S J exec target fs 0 w)"
  using replay_wal_files_clean [OF assms(1,2,4)] branch_replay_clean [OF assms(1,2,4)]
    preview_replay_clean [OF assms(1,2,4), where n = 0] upto_by_target [OF assms(3)]
    sorted_concat_upto [OF assms(3)]
  by simp_all

section \<open>Properties\<close>

text \<open>C11: On a log as the worker writes it, in time order, the restore, the branch creation and the
  preview all leave the database as the logged queries up to the target leave it, run in order and no
  other; the two counts agree and count the queries that succeed.\<close>

theorem replays_agree:
  assumes "stable_texts S exec P txt fs" "clean_files J txt fs"
    and "sorted (map fst (all_events J txt fs))" "P w"
  shows "replay_wal_files S J exec target fs 0 w =
      run_queries exec (by_target target (all_events J txt fs)) 0 w \<and>
    branch_replay S J exec target fs 0 w = replay_wal_files S J exec target fs 0 w \<and>
    preview_replay S J exec target fs w = snd (replay_wal_files S J exec target fs 0 w)"
  using replays_clean_sorted [OF assms] by blast

text \<open>A world of two files whose database is the list of the queries it ran, one of which fails.\<close>

definition demo_exec :: "string \<Rightarrow> (string list, unit) act" where
  "demo_exec q db = (if q = ''FAIL'' then (raise RuntimeError ''conflict'', db) else (Inr (), db @ [q]))"

definition demo_text :: "string \<Rightarrow> wal_line list" where
  "demo_text k = (if k = ''a'' then [Entry (IsoAware (DT 2025 1 1 10 0 0 5)) ''CREATE'' [] 0, Blank,
       Entry (IsoAware (DT 2025 1 1 10 0 0 7)) ''FAIL'' [] 0]
     else [Entry (IsoAware (DT 2025 1 1 10 0 3 0)) ''MERGE'' [] 0,
       Entry (IsoAware (DT 2025 1 1 10 0 3 9)) ''DROP'' [] 0])"

definition demo_storage :: "(string list, wal_line list) storage_port" where
  "demo_storage = \<lparr>upload_database = \<lambda>t d c f. ret f, download_database = \<lambda>k. ret (demo_text k),
     delete_object = \<lambda>k. ret True, file_exists = \<lambda>k. ret True, get_file_size = \<lambda>k. ret 0,
     list_objects = \<lambda>p. ret [], set_object_tags = \<lambda>k ts. ret True\<rparr>"

definition ref_codec :: "wal_line list codec" where
  "ref_codec = \<lparr>no_text = [], add_line = \<lambda>t e. t @ [entry_line e], lines_of = \<lambda>t. t\<rparr>"

lemma json_codec_ref: "json_codec ref_codec"
proof -
  have "foldl (add_line ref_codec) t es = t @ map entry_line es" for t es
    by (induction es arbitrary: t) (simp_all add: ref_codec_def)
  then show ?thesis by (simp add: json_codec_def ref_codec_def)
qed

theorem replays_agree_witness:
  "replay_wal_files demo_storage ref_codec demo_exec (DT 2025 1 1 10 0 3 5)
     [\<lparr>wf_key = ''a'', wf_ts = DT 2025 1 1 10 0 0 0, wf_size = 1\<rparr>,
      \<lparr>wf_key = ''b'', wf_ts = DT 2025 1 1 10 0 3 0, wf_size = 1\<rparr>] 0 [] = (2, [''CREATE'', ''MERGE''])"
proof -
  let ?fs = "[\<lparr>wf_key = ''a'', wf_ts = DT 2025 1 1 10 0 0 0, wf_size = 1\<rparr>,
      \<lparr>wf_key = ''b'', wf_ts = DT 2025 1 1 10 0 3 0, wf_size = 1\<rparr>]"
  have "stable_texts demo_storage demo_exec (\<lambda>_. True) demo_text ?fs"
    by (simp add: stable_texts_def keeps_def demo_storage_def ret_def)
  moreover have "clean_files ref_codec demo_text ?fs"
    by (simp add: clean_files_def ref_codec_def demo_text_def)
  moreover have ev: "all_events ref_codec demo_text ?fs =
      [(DT 2025 1 1 10 0 0 5, ''CREATE''), (DT 2025 1 1 10 0 0 7, ''FAIL''),
       (DT 2025 1 1 10 0 3 0, ''MERGE''), (DT 2025 1 1 10 0 3 9, ''DROP'')]"
    by (simp add: all_events_def file_events_def ref_codec_def demo_text_def)
  ultimately show ?thesis
    by (subst replays_agree [THEN conjunct1, of demo_storage demo_exec "\<lambda>_. True" demo_text])
      (simp_all add: ev by_target_def demo_exec_def)
qed

end
