(* ===== verification/WAL_History.thy ===== *)
theory WAL_History
  imports PITR_Replay
begin

text \<open>
  From the worker's appends to a recovery: what a history of mutations leaves in the object storage,
  and what a restore to a target time finds in it and runs again. The guarantee rests on the
  contracts of the object storage and of the lock service.
\<close>

section \<open>A log: an object storage and locks that leave it alone\<close>

locale wal_log = object_storage S objs nbytes
  for S :: "('w, 'b) storage_port" and objs :: "'w \<Rightarrow> string \<Rightarrow> 'b option" and nbytes :: "'b \<Rightarrow> nat" +
  fixes L :: "'w lock_port"
  assumes acquire_frame: "objs (snd (acquire_lock L r n w)) = objs w"
    and release_frame: "objs (snd (release_lock L r tok w)) = objs w"

definition wal_key :: "uuid \<Rightarrow> uuid \<Rightarrow> wal_entry \<Rightarrow> string" where
  "wal_key t d e = object_key t d (wal_filename (we_ts e))"

definition text_at :: "'b codec \<Rightarrow> 'b option \<Rightarrow> 'b" where
  "text_at J x = (case x of Some b \<Rightarrow> b | None \<Rightarrow> no_text J)"

text \<open>Whether the append of an entry gets its lock; without it the entry is dropped.\<close>

definition gets_lock :: "'w lock_port \<Rightarrow> uuid \<Rightarrow> 'w \<Rightarrow> bool" where
  "gets_lock L d w = (case fst (acquire_lock L (wal_lock d) 10 w) of
     Inr (Some _) \<Rightarrow> True | _ \<Rightarrow> False)"

definition append_entry ::
  "'w lock_port \<Rightarrow> ('w, 'b) storage_port \<Rightarrow> 'b codec \<Rightarrow> uuid \<Rightarrow> uuid \<Rightarrow> wal_entry \<Rightarrow> ('w, unit) act" where
  "append_entry L S J t d e = append_wal_entry L S J (we_ts e) t d (we_query e) (we_results e)"

text \<open>A history of appends: the entries that were logged, and the world after them.\<close>

fun log_history ::
  "'w lock_port \<Rightarrow> ('w, 'b) storage_port \<Rightarrow> 'b codec \<Rightarrow> uuid \<Rightarrow> uuid \<Rightarrow> wal_entry list \<Rightarrow> 'w \<Rightarrow>
   wal_entry list \<times> 'w" where
  "log_history L S J t d [] w = ([], w)"
| "log_history L S J t d (e # es) w =
     (case log_history L S J t d es (snd (append_entry L S J t d e w)) of
        (ls, w') \<Rightarrow> (if gets_lock L d w then e # ls else ls, w'))"

context wal_log
begin

lemma append_effect:
  "objs (snd (append_entry L S J t d e w)) =
     (if gets_lock L d w
      then (objs w)(wal_key t d e \<mapsto> add_line J (text_at J (objs w (wal_key t d e))) e) else objs w)"
proof -
  let ?res = "wal_lock d" and ?k = "wal_key t d e" and ?fn = "wal_filename (we_ts e)"
  have k: "plain_key ?k" by (simp add: wal_key_def)
  obtain a w1 where acq: "acquire_lock L ?res 10 w = (a, w1)" by force
  have o1: "objs w1 = objs w" using acquire_frame [of ?res 10 w] unfolding acq by simp
  show ?thesis
  proof (cases "gets_lock L d w")
    case False
    then show ?thesis
      by (cases a; cases "projr a")
        (auto simp: append_entry_def append_wal_entry_def Let_def acq gets_lock_def o1 split: option.splits)
  next
    case True
    then obtain tok where a: "a = Inr (Some tok)"
      by (auto simp: gets_lock_def acq split: sum.splits option.splits)
    let ?read = "catch (bind (file_exists S ?k) (\<lambda>b. if b then download_database S ?k else ret (no_text J)))
      (\<lambda>_. ret (no_text J))"
    have read: "?read w1 = (Inr (text_at J (objs w ?k)), w1)"
      using exists_iff [OF k, of w1] download [OF k, of w1] o1
      by (cases "objs w ?k") (simp_all add: catch_def bind_def ret_def text_at_def)
    obtain url w2 where up: "upload_database S t d (add_line J (text_at J (objs w ?k)) e) ?fn w1 = (Inr url, w2)"
      "objs w2 = (objs w)(?k \<mapsto> add_line J (text_at J (objs w ?k)) e)"
      using upload [of t d "add_line J (text_at J (objs w ?k)) e" ?fn w1] o1 by (auto simp: wal_key_def)
    have e: "\<lparr>we_ts = we_ts e, we_query = we_query e, we_results = we_results e\<rparr> = e" by simp
    obtain r w3 where rel: "release_lock L ?res tok w2 = (r, w3)" by force
    have "objs w3 = objs w2" using release_frame [of ?res tok w2] unfolding rel by simp
    moreover have body: "catch (bind ?read (\<lambda>prior. bind (upload_database S t d (add_line J prior e) ?fn)
        (\<lambda>_. ret ()))) (\<lambda>_. ret ()) w1 = (Inr (), w2)"
      by (simp add: catch_def bind_step(1) [where m = ?read, OF read]
          bind_step(1) [where m = "upload_database S t d (add_line J (text_at J (objs w ?k)) e) ?fn", OF up(1)]
          ret_def)
    have "snd (append_entry L S J t d e w) = w3"
      using body rel unfolding wal_key_def
      by (cases r) (simp_all add: append_entry_def append_wal_entry_def Let_def acq a e finally_do_def)
    ultimately show ?thesis using True up(2) by simp
  qed
qed

text \<open>After a history every log object holds what it held, then its entries in the history's order.\<close>

lemma history_texts:
  "log_history L S J t d es w = (ls, w') \<Longrightarrow>
     objs w' k = (if \<exists>e \<in> set ls. wal_key t d e = k
       then Some (foldl (add_line J) (text_at J (objs w k)) (filter (\<lambda>e. wal_key t d e = k) ls))
       else objs w k)"
proof (induction es arbitrary: w ls w')
  case (Cons e es)
  let ?w1 = "snd (append_entry L S J t d e w)"
  obtain ls1 where l: "log_history L S J t d es ?w1 = (ls1, w')"
    "ls = (if gets_lock L d w then e # ls1 else ls1)"
    using Cons.prems by (auto split: prod.splits)
  show ?case
  proof (cases "gets_lock L d w")
    case True
    then show ?thesis
      using Cons.IH [OF l(1)] l(2)
      by (cases "wal_key t d e = k"; cases "\<exists>e \<in> set ls1. wal_key t d e = k")
        (auto simp: append_effect text_at_def filter_empty_conv)
  next
    case False
    then show ?thesis using Cons.IH [OF l(1)] l(2) by (simp add: append_effect)
  qed
qed simp

end

section \<open>Grouping a sorted list\<close>

lemma sorted_split_least:
  fixes k :: "'k::linorder"
  assumes "sorted (map g xs)" "\<forall>x \<in> set xs. k \<le> g x"
  shows "xs = filter (\<lambda>x. g x = k) xs @ filter (\<lambda>x. g x \<noteq> k) xs"
  using assms
proof (induction xs)
  case (Cons x xs)
  show ?case
  proof (cases "g x = k")
    case False
    with Cons.prems have "k < g x" by auto
    then have "g y \<noteq> k" if "y \<in> set xs" for y using Cons.prems(1) that by fastforce
    then have "filter (\<lambda>x. g x = k) xs = []" "filter (\<lambda>x. g x \<noteq> k) xs = xs"
      by (auto simp: filter_empty_conv filter_id_conv)
    with False show ?thesis by simp
  qed (use Cons in simp)
qed simp

lemma sorted_grouping:
  fixes g :: "'a \<Rightarrow> 'k::linorder"
  assumes "sorted_wrt (<) ks" "sorted (map g xs)" "g ` set xs \<subseteq> set ks"
  shows "concat (map (\<lambda>k. filter (\<lambda>x. g x = k) xs) ks) = xs"
  using assms
proof (induction ks arbitrary: xs)
  case (Cons k ks)
  let ?r = "filter (\<lambda>x. g x \<noteq> k) xs"
  have least: "\<forall>x \<in> set xs. k \<le> g x" using Cons.prems(1,3) by fastforce
  have r: "sorted_wrt (<) ks" "sorted (map g ?r)" "g ` set ?r \<subseteq> set ks"
    using Cons.prems by (auto simp: sorted_filter)
  have "concat (map (\<lambda>j. filter (\<lambda>x. g x = j) ?r) ks) = ?r" by (rule Cons.IH [OF r])
  moreover have "filter (\<lambda>x. g x = j) ?r = filter (\<lambda>x. g x = j) xs" if "j \<in> set ks" for j
    using Cons.prems(1) that by (auto intro: filter_cong simp: conj_commute)
  ultimately show ?case
    using sorted_split_least [OF Cons.prems(2) least] by (simp cong: map_cong)
qed simp

section \<open>Keys of a log\<close>

lemma strftime_trunc: "strftime_compact (trunc_sec d) = strftime_compact d"
  by (simp add: strftime_compact_def trunc_sec_def)

lemma wal_key_eq_iff:
  assumes "valid_dt (we_ts e)" "valid_dt (we_ts e')"
  shows "wal_key t d e = wal_key t d e' \<longleftrightarrow> trunc_sec (we_ts e) = trunc_sec (we_ts e')"
proof
  assume "wal_key t d e = wal_key t d e'"
  then have "name_time (file_name (wal_key t d e)) = name_time (file_name (wal_key t d e'))" by simp
  then show "trunc_sec (we_ts e) = trunc_sec (we_ts e')"
    unfolding wal_key_def file_name_wal [OF assms(1)] file_name_wal [OF assms(2)]
      name_time_wal [OF assms(1)] name_time_wal [OF assms(2)] by simp
next
  assume "trunc_sec (we_ts e) = trunc_sec (we_ts e')"
  then show "wal_key t d e = wal_key t d e'"
    by (metis strftime_trunc wal_filename_def wal_key_def)
qed

lemma wal_key_prefix [simp]: "startswith (wal_key t d e) (object_key t d ''wal/'')"
  using startswith_append [of "object_key t d ''wal/''" "''wal-'' @ strftime_compact (we_ts e) @ ''.log''"]
  by (simp add: wal_key_def wal_filename_def object_key_def)

lemma log_history_sub:
  "log_history L S J t d hs w = (ls, w') \<Longrightarrow>
     set ls \<subseteq> set hs \<and> (sorted (map we_ts hs) \<longrightarrow> sorted (map we_ts ls))"
proof (induction hs arbitrary: w ls w')
  case (Cons e es)
  obtain ls1 where "log_history L S J t d es (snd (append_entry L S J t d e w)) = (ls1, w')"
    "ls = (if gets_lock L d w then e # ls1 else ls1)"
    using Cons.prems by (auto split: prod.splits)
  with Cons.IH [of _ ls1 w'] show ?case by auto
qed simp

definition event_of :: "wal_entry \<Rightarrow> dt \<times> string" where
  "event_of e = (we_ts e, we_query e)"

lemma events_of_entries: "events_of (map entry_line es) = map event_of es"
  by (induction es) (simp_all add: entry_line_def event_of_def)

definition in_span :: "dt \<Rightarrow> dt \<Rightarrow> wal_entry \<Rightarrow> bool" where
  "in_span start target e \<longleftrightarrow> start \<le> trunc_sec (we_ts e) \<and> trunc_sec (we_ts e) \<le> target"

section \<open>What a listing of the log selects\<close>

text \<open>The state of a log after a history of valid entries on an empty log.\<close>

definition log_state :: "('w \<Rightarrow> string \<Rightarrow> 'b option) \<Rightarrow> 'b codec \<Rightarrow> uuid \<Rightarrow> uuid \<Rightarrow> wal_entry list \<Rightarrow> 'w \<Rightarrow> bool" where
  "log_state objs J t d ls w \<longleftrightarrow> (\<forall>e \<in> set ls. valid_dt (we_ts e) \<and> we_query e \<noteq> []) \<and>
     sorted (map we_ts ls) \<and>
     (\<forall>k. startswith k (object_key t d ''wal/'') \<longrightarrow> objs w k =
        (if \<exists>e \<in> set ls. wal_key t d e = k
         then Some (foldl (add_line J) (no_text J) (filter (\<lambda>e. wal_key t d e = k) ls)) else None))"

definition selected :: "dt \<Rightarrow> dt \<Rightarrow> uuid \<Rightarrow> uuid \<Rightarrow> wal_entry list \<Rightarrow> wal_file list \<Rightarrow> bool" where
  "selected start target t d ls fs \<longleftrightarrow> sorted_wrt (<) (map wf_ts fs) \<and>
     wf_ts ` set fs = (\<lambda>e. trunc_sec (we_ts e)) ` {e \<in> set ls. in_span start target e} \<and>
     (\<forall>f \<in> set fs. \<exists>e \<in> set ls. wf_key f = wal_key t d e \<and> wf_ts f = trunc_sec (we_ts e))"

lemma map_filter_facts:
  assumes "\<And>x. x \<in> set xs \<Longrightarrow> sel x = (if P x then Some (g x) else None)"
  shows "List.map_filter sel xs = map g (filter P xs)"
  using assms by (induction xs) (simp_all add: map_filter_simps)

context wal_log
begin

lemma log_state_history:
  assumes "\<forall>k. startswith k (object_key t d ''wal/'') \<longrightarrow> objs w0 k = None"
    and "\<forall>e \<in> set hs. valid_dt (we_ts e) \<and> we_query e \<noteq> []" "sorted (map we_ts hs)"
    and "log_history L S J t d hs w0 = (ls, w)"
  shows "log_state objs J t d ls w"
  using log_history_sub [OF assms(4)] history_texts [OF assms(4)] assms(1-3)
  by (auto simp: log_state_def text_at_def)

lemma select_of_state:
  assumes "log_state objs J t d ls w"
  shows "\<exists>fs. find_wal_files_in_range S t d start target w = (Inr fs, w) \<and>
      branch_wal_files S t d start target w = (Inr fs, w) \<and>
      preview_wal_files S t d start target w = (Inr fs, w) \<and> selected start target t d ls fs"
proof -
  let ?p = "object_key t d ''wal/''"
  obtain os where os: "list_objects S ?p w = (Inr os, w)" "distinct (map obj_key os)"
    "\<forall>o1. o1 \<in> set os \<longleftrightarrow> (\<exists>b. objs w (obj_key o1) = Some b \<and> startswith (obj_key o1) ?p \<and>
        o1 = \<lparr>obj_key = obj_key o1, obj_size = nbytes b\<rparr>)"
    using listing [of ?p w] by blast
  note st = assms [unfolded log_state_def]
  have entry: "\<exists>e \<in> set ls. wal_key t d e = obj_key ob" if "ob \<in> set os" for ob
    using os(3) st that by (metis option.distinct(1))
  then obtain en where en: "\<And>ob. ob \<in> set os \<Longrightarrow> en ob \<in> set ls \<and> wal_key t d (en ob) = obj_key ob" by metis
  define P where "P ob \<longleftrightarrow> in_span start target (en ob)" for ob
  define g where "g ob = \<lparr>wf_key = obj_key ob, wf_ts = trunc_sec (we_ts (en ob)), wf_size = obj_size ob\<rparr>" for ob
  have sel: "log_select start target ob = (if P ob then Some (g ob) else None)"
    "restore_select start target ob = (if P ob then Some (g ob) else None)" if "ob \<in> set os" for ob
  proof -
    have v: "valid_dt (we_ts (en ob))" using en [OF that] st by blast
    have k: "obj_key ob = object_key t d (wal_filename (we_ts (en ob)))"
      using en [OF that] by (simp add: wal_key_def)
    show "log_select start target ob = (if P ob then Some (g ob) else None)"
      unfolding select_wal(2) [OF v k] P_def g_def in_span_def ..
    then show "restore_select start target ob = (if P ob then Some (g ob) else None)"
      unfolding select_wal(1) [OF v k] .
  qed
  define fs where "fs = py_sorted wf_ts (map g (filter P os))"
  have mf: "List.map_filter (log_select start target) os = map g (filter P os)"
    "List.map_filter (restore_select start target) os = map g (filter P os)"
    by (rule map_filter_facts, erule sel)+
  have runs: "find_wal_files_in_range S t d start target w = (Inr fs, w)"
    "branch_wal_files S t d start target w = (Inr fs, w)"
    "preview_wal_files S t d start target w = (Inr fs, w)"
    by (simp_all add: find_wal_files_in_range_def branch_wal_files_def preview_wal_files_def bind_def
        catch_def os(1) ret_def mf fs_def)
  have key_eq: "obj_key a = obj_key b \<longleftrightarrow> wf_ts (g a) = wf_ts (g b)" if "a \<in> set os" "b \<in> set os" for a b
    using wal_key_eq_iff [of "en a" "en b" t d] en [OF that(1)] en [OF that(2)] st by (simp add: g_def)
  have "inj_on (\<lambda>ob. wf_ts (g ob)) (set (filter P os))"
    using key_eq os(2) by (auto simp: inj_on_def distinct_map)
  then have "distinct (map wf_ts (map g (filter P os)))"
    using os(2) by (simp add: distinct_map comp_def)
  then have "distinct (map wf_ts fs)"
    by (metis fs_def mset_eq_imp_distinct_iff mset_map py_sorted_facts(3))
  then have "sorted_wrt (<) (map wf_ts fs)"
    using py_sorted_facts(4) [of wf_ts "map g (filter P os)"] by (simp add: fs_def strict_sorted_iff)
  moreover have "wf_ts ` set fs = (\<lambda>e. trunc_sec (we_ts e)) ` {e \<in> set ls. in_span start target e}"
  proof -
    have "\<exists>ob \<in> set os. P ob \<and> wf_ts (g ob) = trunc_sec (we_ts e)" if e: "e \<in> set ls" "in_span start target e" for e
    proof -
      obtain b where b: "objs w (wal_key t d e) = Some b" using st e by (metis wal_key_prefix)
      define ob where "ob = \<lparr>obj_key = wal_key t d e, obj_size = nbytes b\<rparr>"
      have mem: "ob \<in> set os" using os(3) b by (auto simp: ob_def)
      have "trunc_sec (we_ts (en ob)) = trunc_sec (we_ts e)"
        using en [OF mem] wal_key_eq_iff [of "en ob" e t d] e st by (simp add: ob_def)
      with mem e(2) show ?thesis
        by (intro bexI [of _ ob]) (simp_all add: P_def g_def in_span_def)
    qed
    moreover have "en ob \<in> {e \<in> set ls. in_span start target e} \<and> wf_ts (g ob) = trunc_sec (we_ts (en ob))"
      if "ob \<in> set os" "P ob" for ob
      using en [OF that(1)] that by (simp add: P_def g_def)
    ultimately show ?thesis by (force simp: fs_def)
  qed
  moreover have "\<exists>e \<in> set ls. wf_key f = wal_key t d e \<and> wf_ts f = trunc_sec (we_ts e)" if "f \<in> set fs" for f
    using that en by (force simp: fs_def g_def)
  ultimately show ?thesis using runs by (auto simp: selected_def)
qed

text \<open>The selected files hold, in order, exactly the entries of the span.\<close>

lemma selected_events:
  assumes "log_state objs J t d ls w" "json_codec J" "selected start target t d ls fs"
  defines "txt \<equiv> \<lambda>k. text_at J (objs w k)"
  shows "all_events J txt fs = map event_of (filter (in_span start target) ls)"
    and "clean_files J txt fs" and "\<forall>f \<in> set fs. objs w (wf_key f) = Some (txt (wf_key f)) \<and> plain_key (wf_key f)"
proof -
  note st = assms(1) [unfolded log_state_def] and sl = assms(3) [unfolded selected_def]
  have f: "objs w (wf_key f) = Some (txt (wf_key f)) \<and> plain_key (wf_key f) \<and>
      lines_of J (txt (wf_key f)) = map entry_line (filter (\<lambda>e. trunc_sec (we_ts e) = wf_ts f) ls)"
    if "f \<in> set fs" for f
  proof -
    obtain e where e: "e \<in> set ls" "wf_key f = wal_key t d e" "wf_ts f = trunc_sec (we_ts e)"
      using sl \<open>f \<in> set fs\<close> by blast
    have "filter (\<lambda>x. wal_key t d x = wf_key f) ls = filter (\<lambda>x. trunc_sec (we_ts x) = wf_ts f) ls"
      using e st by (auto intro!: filter_cong simp: wal_key_eq_iff)
    moreover have "objs w (wf_key f) =
        Some (foldl (add_line J) (no_text J) (filter (\<lambda>x. wal_key t d x = wf_key f) ls))"
      using st e by (metis wal_key_prefix)
    ultimately show ?thesis
      using assms(2) e(2) by (simp add: json_codec_def txt_def text_at_def wal_key_def)
  qed
  then show "\<forall>f \<in> set fs. objs w (wf_key f) = Some (txt (wf_key f)) \<and> plain_key (wf_key f)" by blast
  show "clean_files J txt fs"
    using f st by (simp add: clean_files_def list_all_iff entry_line_def)
  let ?in = "filter (in_span start target) ls"
  have ev: "file_events J txt x = map event_of (filter (\<lambda>e. trunc_sec (we_ts e) = wf_ts x) ?in)"
    if "x \<in> set fs" for x
  proof -
    have "wf_ts x \<in> (\<lambda>e. trunc_sec (we_ts e)) ` {e \<in> set ls. in_span start target e}"
      using sl that by (metis imageI)
    then obtain e where "in_span start target e" "wf_ts x = trunc_sec (we_ts e)" by blast
    then have "filter (\<lambda>e. trunc_sec (we_ts e) = wf_ts x) ls = filter (\<lambda>e. trunc_sec (we_ts e) = wf_ts x) ?in"
      by (auto intro!: filter_cong simp: in_span_def)
    with f [OF that] show ?thesis by (simp add: file_events_def events_of_entries)
  qed
  have "sorted_wrt (\<lambda>a b. we_ts a \<le> we_ts b) ?in"
    using st by (simp add: sorted_wrt_filter sorted_map)
  then have "sorted_wrt (\<lambda>a b. trunc_sec (we_ts a) \<le> trunc_sec (we_ts b)) ?in"
    by (rule sorted_wrt_mono_rel [rotated]) (rule trunc_sec_mono)
  then have "sorted (map (\<lambda>e. trunc_sec (we_ts e)) ?in)" by (simp add: sorted_map)
  then have "concat (map (\<lambda>k. filter (\<lambda>e. trunc_sec (we_ts e) = k) ?in) (map wf_ts fs)) = ?in"
    using sl by (intro sorted_grouping) (auto simp: image_iff)
  moreover have "all_events J txt fs =
      map event_of (concat (map (\<lambda>k. filter (\<lambda>e. trunc_sec (we_ts e) = k) ?in) (map wf_ts fs)))"
    using ev by (simp add: all_events_def map_concat comp_def cong: map_cong)
  ultimately show "all_events J txt fs = map event_of ?in" by simp
qed

end

section \<open>The log over MinIO\<close>

lemma wal_log_paired:
  assumes "object_storage S objs nbytes"
  shows "wal_log (storage_on_snd S) (\<lambda>wv. objs (snd wv)) nbytes (locks_on_fst L)"
  by (intro wal_log.intro object_storage_on_snd assms wal_log_axioms.intro) (simp_all add: locks_on_fst_def)

interpretation minio_log: wal_log "storage_on_snd (minio_service (ref_s3 nbytes) bucket)"
  "\<lambda>wv. ref_view (snd wv) bucket" nbytes "locks_on_fst L" for nbytes bucket L
  by (rule wal_log_paired) (rule ref_client.object_storage_axioms)

section \<open>Properties\<close>

text \<open>C1: Point-in-time recovery of a log. After any history of the worker's appends, in time order, on
  an empty log, the restore, the branch creation and the preview select the same files for a snapshot
  taken at \<open>start\<close> and a target time, and their replays run exactly the logged mutations whose second is
  not before the snapshot and whose time is not after the target, in order. A mutation after the
  snapshot in the snapshot's own second is lost when the snapshot's time has a fraction.\<close>

theorem pitr_recovers_history:
  assumes "wal_log S objs nbytes L" "json_codec J"
    and "\<forall>k. startswith k (object_key t d ''wal/'') \<longrightarrow> objs w0 k = None"
    and "\<forall>e \<in> set hs. valid_dt (we_ts e) \<and> we_query e \<noteq> []" "sorted (map we_ts hs)"
    and "log_history L S J t d hs w0 = (ls, w)"
    and "\<forall>q w. objs (snd (exec q w)) = objs w"
  shows "\<exists>fs. find_wal_files_in_range S t d start target w = (Inr fs, w) \<and>
    branch_wal_files S t d start target w = (Inr fs, w) \<and>
    preview_wal_files S t d start target w = (Inr fs, w) \<and>
    replay_wal_files S J exec target fs 0 w =
      run_queries exec (map we_query (filter (\<lambda>e. start \<le> trunc_sec (we_ts e) \<and> we_ts e \<le> target) ls)) 0 w \<and>
    branch_replay S J exec target fs 0 w = replay_wal_files S J exec target fs 0 w \<and>
    preview_replay S J exec target fs w = snd (replay_wal_files S J exec target fs 0 w)"
proof -
  have st: "log_state objs J t d ls w" by (rule wal_log.log_state_history [OF assms(1,3-6)])
  obtain fs where fs: "find_wal_files_in_range S t d start target w = (Inr fs, w)"
    "branch_wal_files S t d start target w = (Inr fs, w)"
    "preview_wal_files S t d start target w = (Inr fs, w)" "selected start target t d ls fs"
    using wal_log.select_of_state [OF assms(1) st] by blast
  note ev = wal_log.selected_events [OF assms(1) st assms(2) fs(4)]
  let ?txt = "\<lambda>k. text_at J (objs w k)" and ?P = "\<lambda>w'. objs w' = objs w"
  have t: "stable_texts S exec ?P ?txt fs"
    using ev(3) assms(1) assms(7)
    by (auto simp: stable_texts_def keeps_def wal_log_def intro!: object_storage.download)
  have s: "sorted (map fst (all_events J ?txt fs))"
    using st by (simp add: ev(1) log_state_def event_of_def comp_def sorted_map sorted_wrt_filter)
  have "by_target target (all_events J ?txt fs) =
      map we_query (filter (\<lambda>e. start \<le> trunc_sec (we_ts e) \<and> we_ts e \<le> target) ls)"
    unfolding ev(1) by_target_def filter_map map_map filter_filter
    by (auto simp: event_of_def comp_def in_span_def intro!: map_cong filter_cong
        intro: order_trans [OF trunc_sec_le])
  with replays_clean_sorted [OF t ev(2) s, where w = w and target = target] fs(1-3) show ?thesis by auto
qed

text \<open>A database that records its queries, beside a MinIO store, with locks that are free.\<close>

definition free_locks :: "'w lock_port" where
  "free_locks = \<lparr>acquire_lock = \<lambda>r n. ret (Some ''tok''), release_lock = \<lambda>r t. ret True\<rparr>"

definition demo_log :: "(string list \<times> wal_line list ref_s3, wal_line list) storage_port" where
  "demo_log = storage_on_snd (minio_service (ref_s3 length) ''kuzu'')"

definition demo_history :: "wal_entry list" where
  "demo_history =
     [\<lparr>we_ts = DT 2025 1 1 10 0 5 700000, we_query = ''CREATE (a)'', we_results = []\<rparr>,
      \<lparr>we_ts = DT 2025 1 1 10 0 7 0, we_query = ''CREATE (b)'', we_results = []\<rparr>,
      \<lparr>we_ts = DT 2025 1 1 10 0 7 500000, we_query = ''CREATE (c)'', we_results = []\<rparr>,
      \<lparr>we_ts = DT 2025 1 1 10 0 20 0, we_query = ''CREATE (d)'', we_results = []\<rparr>]"

lemma log_history_free:
  "fst (log_history (locks_on_fst free_locks) S J t d hs w) = hs"
proof -
  have g: "gets_lock (locks_on_fst free_locks) d w" for w
    by (cases w) (simp add: gets_lock_def locks_on_fst_def free_locks_def ret_def)
  show ?thesis by (induction hs arbitrary: w) (simp_all add: g case_prod_unfold)
qed

theorem pitr_recovers_history_witness:
  "\<exists>fs. find_wal_files_in_range demo_log ''t'' ''d'' (DT 2025 1 1 10 0 5 500000) (DT 2025 1 1 10 0 7 200000)
      (snd (log_history (locks_on_fst free_locks) demo_log ref_codec ''t'' ''d'' demo_history ([], []))) =
      (Inr fs, snd (log_history (locks_on_fst free_locks) demo_log ref_codec ''t'' ''d'' demo_history ([], []))) \<and>
    replay_wal_files demo_log ref_codec (\<lambda>q. on_fst (demo_exec q)) (DT 2025 1 1 10 0 7 200000) fs 0
      (snd (log_history (locks_on_fst free_locks) demo_log ref_codec ''t'' ''d'' demo_history ([], []))) =
    run_queries (\<lambda>q. on_fst (demo_exec q)) [''CREATE (b)''] 0
      (snd (log_history (locks_on_fst free_locks) demo_log ref_codec ''t'' ''d'' demo_history ([], [])))"
proof -
  let ?h = "log_history (locks_on_fst free_locks) demo_log ref_codec ''t'' ''d'' demo_history ([], [])"
  let ?objs = "\<lambda>wv :: string list \<times> wal_line list ref_s3. ref_view (snd wv) ''kuzu''"
  have h: "?h = (demo_history, snd ?h)"
    using log_history_free [of demo_log ref_codec "''t''" "''d''" demo_history "([], [])"]
    by (metis prod.collapse)
  have log: "wal_log demo_log ?objs length (locks_on_fst free_locks)"
    unfolding demo_log_def by (rule minio_log.wal_log_axioms)
  have "\<forall>k. startswith k (object_key ''t'' ''d'' ''wal/'') \<longrightarrow> ?objs ([], []) k = None"
    by (simp add: ref_view_def)
  moreover have "\<forall>e \<in> set demo_history. valid_dt (we_ts e) \<and> we_query e \<noteq> []"
    by (simp add: demo_history_def valid_dt_def days_in_month_def)
  moreover have "sorted (map we_ts demo_history)" by (simp add: demo_history_def)
  moreover have "\<forall>q wv. ?objs (snd (on_fst (demo_exec q) wv)) = ?objs wv" by simp
  moreover have "map we_query (filter (\<lambda>e. DT 2025 1 1 10 0 5 500000 \<le> trunc_sec (we_ts e) \<and>
      we_ts e \<le> DT 2025 1 1 10 0 7 200000) demo_history) = [''CREATE (b)'']"
    by (simp add: demo_history_def trunc_sec_def)
  ultimately show ?thesis
    using pitr_recovers_history [OF log json_codec_ref, of "''t''" "''d''" "([], [])" demo_history
        demo_history "snd ?h" "\<lambda>q. on_fst (demo_exec q)" "DT 2025 1 1 10 0 5 500000"
        "DT 2025 1 1 10 0 7 200000"] h
    by auto
qed

end
