(* ===== verification/Redis_Client.thy ===== *)
theory Redis_Client
  imports Ports
begin

text \<open>
  The Redis client, a parameter of the adapters that use it: its commands, and what Redis documents
  for a reachable server as the locale \<open>redis_client\<close>. The keyspace is one map from keys to typed
  values; a key of another type is outside a command's law. Stream entry ids are increasing numbers.
  Expiry is not a command: it is a step of its own that removes keys (\<open>expires\<close>).
\<close>

record 'r redis =
  redis_set :: "string \<Rightarrow> string \<Rightarrow> bool \<Rightarrow> nat option \<Rightarrow> ('r, bool) act"
  redis_get :: "string \<Rightarrow> ('r, string option) act"
  redis_del :: "string \<Rightarrow> ('r, nat) act"
  redis_exists :: "string \<Rightarrow> ('r, bool) act"
  redis_ttl :: "string \<Rightarrow> ('r, int) act"
  redis_expire :: "string \<Rightarrow> int \<Rightarrow> ('r, bool) act"
  redis_hset :: "string \<Rightarrow> fields \<Rightarrow> ('r, unit) act"
  redis_hgetall :: "string \<Rightarrow> ('r, fields) act"
  redis_sadd :: "string \<Rightarrow> string \<Rightarrow> ('r, unit) act"
  redis_srem :: "string \<Rightarrow> string \<Rightarrow> ('r, unit) act"
  redis_smembers :: "string \<Rightarrow> ('r, string list) act"
  redis_xadd :: "string \<Rightarrow> fields \<Rightarrow> nat \<Rightarrow> bool \<Rightarrow> ('r, nat) act"
  redis_xgroup_create :: "string \<Rightarrow> string \<Rightarrow> ('r, unit) act"
  redis_xreadgroup :: "string \<Rightarrow> string \<Rightarrow> string \<Rightarrow> ('r, (nat \<times> fields) option) act"
  redis_xack :: "string \<Rightarrow> string \<Rightarrow> nat \<Rightarrow> ('r, unit) act"
  redis_xdel :: "string \<Rightarrow> nat \<Rightarrow> ('r, unit) act"
  redis_xrange_after :: "string \<Rightarrow> nat \<Rightarrow> ('r, (nat \<times> fields) list) act"
  redis_publish :: "string \<Rightarrow> string \<Rightarrow> ('r, unit) act"

datatype redis_value =
    RStr string
  | RHash fields
  | RSet "string list"
  | RStream "(nat \<times> fields) list" "(string \<times> nat) list"

type_synonym keyspace = "string \<rightharpoonup> redis_value"

text \<open>Keys that expire disappear; the others stay.\<close>

definition expires :: "keyspace \<Rightarrow> keyspace \<Rightarrow> bool" where
  "expires v v' \<longleftrightarrow> v' \<subseteq>\<^sub>m v"

fun str_of_val :: "redis_value option \<Rightarrow> string option" where
  "str_of_val (Some (RStr s)) = Some s"
| "str_of_val _ = None"

fun hash_of :: "redis_value option \<Rightarrow> fields" where
  "hash_of (Some (RHash h)) = h"
| "hash_of _ = []"

fun set_of :: "redis_value option \<Rightarrow> string list" where
  "set_of (Some (RSet s)) = s"
| "set_of _ = []"

fun entries_of :: "redis_value option \<Rightarrow> (nat \<times> fields) list" where
  "entries_of (Some (RStream es g)) = es"
| "entries_of _ = []"

text \<open>The groups of a stream, each with the last id it was given.\<close>

fun groups_of :: "redis_value option \<Rightarrow> (string \<times> nat) list" where
  "groups_of (Some (RStream es g)) = g"
| "groups_of _ = []"

fun str_ok :: "redis_value option \<Rightarrow> bool" where
  "str_ok (Some (RStr s)) = True" | "str_ok None = True" | "str_ok _ = False"

fun hash_ok :: "redis_value option \<Rightarrow> bool" where
  "hash_ok (Some (RHash s)) = True" | "hash_ok None = True" | "hash_ok _ = False"

fun set_ok :: "redis_value option \<Rightarrow> bool" where
  "set_ok (Some (RSet s)) = True" | "set_ok None = True" | "set_ok _ = False"

fun stream_ok :: "redis_value option \<Rightarrow> bool" where
  "stream_ok (Some (RStream es g)) = True" | "stream_ok None = True" | "stream_ok _ = False"

text \<open>A set that loses its last element is removed.\<close>

definition put_set :: "string list \<Rightarrow> redis_value option" where
  "put_set s = (if s = [] then None else Some (RSet s))"

definition trim :: "nat \<Rightarrow> (nat \<times> fields) list \<Rightarrow> (nat \<times> fields) list" where
  "trim n es = drop (length es - n) es"

text \<open>What a group has not been given yet.\<close>

definition undelivered :: "redis_value option \<Rightarrow> string \<Rightarrow> (nat \<times> fields) list" where
  "undelivered v g = (case map_of (groups_of v) g of None \<Rightarrow> entries_of v
     | Some l \<Rightarrow> filter (\<lambda>e. l < fst e) (entries_of v))"

locale redis_client =
  fixes R :: "'r redis" and view :: "'r \<Rightarrow> keyspace"
  assumes set_law: "str_ok (view r k) \<Longrightarrow> \<exists>r'. redis_set R k v nx ex r =
        (Inr (\<not> nx \<or> view r k = None), r') \<and>
        view r' = (if nx \<and> view r k \<noteq> None then view r else (view r)(k \<mapsto> RStr v))"
    and get_law: "str_ok (view r k) \<Longrightarrow> redis_get R k r = (Inr (str_of_val (view r k)), r)"
    and del_law: "\<exists>r'. redis_del R k r = (Inr (if view r k = None then 0 else 1), r') \<and>
        view r' = (view r)(k := None)"
    and exists_law: "redis_exists R k r = (Inr (view r k \<noteq> None), r)"
    and ttl_law: "\<exists>n. redis_ttl R k r = (Inr n, r)"
    and expire_law: "0 < secs \<Longrightarrow> \<exists>r'. redis_expire R k secs r = (Inr (view r k \<noteq> None), r') \<and> view r' = view r"
    and hset_law: "hash_ok (view r k) \<Longrightarrow> fs \<noteq> [] \<Longrightarrow> \<exists>r' h. redis_hset R k fs r = (Inr (), r') \<and>
        view r' = (view r)(k \<mapsto> RHash h) \<and> h \<noteq> [] \<and> map_of h = map_of (hash_of (view r k)) ++ map_of fs"
    and hgetall_law: "hash_ok (view r k) \<Longrightarrow> redis_hgetall R k r = (Inr (hash_of (view r k)), r)"
    and sadd_law: "set_ok (view r k) \<Longrightarrow> \<exists>r' s. redis_sadd R k x r = (Inr (), r') \<and>
        view r' = (view r)(k \<mapsto> RSet s) \<and> set s = insert x (set (set_of (view r k)))"
    and srem_law: "set_ok (view r k) \<Longrightarrow> \<exists>r' s. redis_srem R k x r = (Inr (), r') \<and>
        view r' = (view r)(k := put_set s) \<and> set s = set (set_of (view r k)) - {x}"
    and smembers_law: "set_ok (view r k) \<Longrightarrow> redis_smembers R k r = (Inr (set_of (view r k)), r)"
    and xadd_law: "stream_ok (view r k) \<Longrightarrow> \<exists>r' i. redis_xadd R k fs n False r = (Inr i, r') \<and> 0 < i \<and>
        (\<forall>e \<in> set (entries_of (view r k)). fst e < i) \<and> (\<forall>p \<in> set (groups_of (view r k)). snd p < i) \<and>
        view r' = (view r)(k \<mapsto> RStream (trim n (entries_of (view r k) @ [(i, fs)])) (groups_of (view r k)))"
    and xgroup_law: "stream_ok (view r k) \<Longrightarrow> (\<exists>r'. redis_xgroup_create R k g r =
          (if map_of (groups_of (view r k)) g = None then Inr () else raise OtherError ''BUSYGROUP'', r') \<and>
        view r' = (if map_of (groups_of (view r k)) g = None
          then (view r)(k \<mapsto> RStream (entries_of (view r k)) ((g, 0) # groups_of (view r k))) else view r))"
    and xread_law: "stream_ok (view r k) \<Longrightarrow> map_of (groups_of (view r k)) g \<noteq> None \<Longrightarrow>
        (\<exists>r'. redis_xreadgroup R g c k r =
          (Inr (case undelivered (view r k) g of [] \<Rightarrow> None | e # _ \<Rightarrow> Some e), r') \<and>
        view r' = (case undelivered (view r k) g of [] \<Rightarrow> view r
          | e # _ \<Rightarrow> (view r)(k \<mapsto> RStream (entries_of (view r k)) ((g, fst e) # groups_of (view r k)))))"
    and xack_law: "stream_ok (view r k) \<Longrightarrow> \<exists>r'. redis_xack R k g i r = (Inr (), r') \<and> view r' = view r"
    and xdel_law: "stream_ok (view r k) \<Longrightarrow> \<exists>r'. redis_xdel R k i r = (Inr (), r') \<and>
        view r' = (if view r k = None then view r else (view r)(k \<mapsto>
          RStream (filter (\<lambda>e. fst e \<noteq> i) (entries_of (view r k))) (groups_of (view r k))))"
    and xrange_law: "stream_ok (view r k) \<Longrightarrow>
        redis_xrange_after R k i r = (Inr (filter (\<lambda>e. i < fst e) (entries_of (view r k))), r)"

section \<open>A reference client\<close>

text \<open>The keyspace itself as the store; it meets the laws, so hypotheses about a client can hold.\<close>

definition next_id :: "redis_value option \<Rightarrow> nat" where
  "next_id v = Suc (foldr max (map fst (entries_of v) @ map snd (groups_of v)) 0)"

definition ref_redis :: "keyspace redis" where
  "ref_redis = \<lparr>
     redis_set = \<lambda>k v nx ex r. if nx \<and> r k \<noteq> None then (Inr False, r) else (Inr True, r(k \<mapsto> RStr v)),
     redis_get = \<lambda>k r. (Inr (str_of_val (r k)), r),
     redis_del = \<lambda>k r. (Inr (if r k = None then 0 else 1), r(k := None)),
     redis_exists = \<lambda>k r. (Inr (r k \<noteq> None), r),
     redis_ttl = \<lambda>k r. (Inr (if r k = None then -2 else -1), r),
     redis_expire = \<lambda>k n r. (Inr (r k \<noteq> None), r),
     redis_hset = \<lambda>k fs r. (Inr (), r(k \<mapsto> RHash (fs @ hash_of (r k)))),
     redis_hgetall = \<lambda>k r. (Inr (hash_of (r k)), r),
     redis_sadd = \<lambda>k x r. (Inr (), r(k \<mapsto> RSet (List.insert x (set_of (r k))))),
     redis_srem = \<lambda>k x r. (Inr (), r(k := put_set (filter (\<lambda>y. y \<noteq> x) (set_of (r k))))),
     redis_smembers = \<lambda>k r. (Inr (set_of (r k)), r),
     redis_xadd = \<lambda>k fs n a r. (Inr (next_id (r k)),
       r(k \<mapsto> RStream (trim n (entries_of (r k) @ [(next_id (r k), fs)])) (groups_of (r k)))),
     redis_xgroup_create = \<lambda>k g r. if map_of (groups_of (r k)) g = None
       then (Inr (), r(k \<mapsto> RStream (entries_of (r k)) ((g, 0) # groups_of (r k))))
       else (raise OtherError ''BUSYGROUP'', r),
     redis_xreadgroup = \<lambda>g c k r. (case undelivered (r k) g of [] \<Rightarrow> (Inr None, r)
       | e # _ \<Rightarrow> (Inr (Some e), r(k \<mapsto> RStream (entries_of (r k)) ((g, fst e) # groups_of (r k))))),
     redis_xack = \<lambda>k g i r. (Inr (), r),
     redis_xdel = \<lambda>k i r. (Inr (), if r k = None then r
       else r(k \<mapsto> RStream (filter (\<lambda>e. fst e \<noteq> i) (entries_of (r k))) (groups_of (r k)))),
     redis_xrange_after = \<lambda>k i r. (Inr (filter (\<lambda>e. i < fst e) (entries_of (r k))), r),
     redis_publish = \<lambda>c m r. (Inr (), r)\<rparr>"

lemma next_id_above:
  "e \<in> set (entries_of v) \<Longrightarrow> fst e < next_id v" "p \<in> set (groups_of v) \<Longrightarrow> snd p < next_id v"
proof -
  have m: "x \<in> set xs \<Longrightarrow> x \<le> foldr max xs (0 :: nat)" for x xs by (induction xs) auto
  show "e \<in> set (entries_of v) \<Longrightarrow> fst e < next_id v"
    using m [of "fst e" "map fst (entries_of v) @ map snd (groups_of v)"] by (auto simp: next_id_def less_Suc_eq_le)
  show "p \<in> set (groups_of v) \<Longrightarrow> snd p < next_id v"
    using m [of "snd p" "map fst (entries_of v) @ map snd (groups_of v)"] by (auto simp: next_id_def less_Suc_eq_le)
qed

interpretation ref: redis_client ref_redis "\<lambda>r. r"
proof
  fix r :: keyspace and k v x g c :: string and nx ex fs n m i
  show "\<exists>r' j. redis_xadd ref_redis k fs m False r = (Inr j, r') \<and> 0 < j \<and>
      (\<forall>e \<in> set (entries_of (r k)). fst e < j) \<and> (\<forall>p \<in> set (groups_of (r k)). snd p < j) \<and>
      r' = r(k \<mapsto> RStream (trim m (entries_of (r k) @ [(j, fs)])) (groups_of (r k)))"
    by (simp add: ref_redis_def next_id_above) (simp add: next_id_def)
  show "\<exists>r' s. redis_srem ref_redis k x r = (Inr (), r') \<and> r' = r(k := put_set s) \<and>
      set s = set (set_of (r k)) - {x}"
    by (auto simp: ref_redis_def)
  show "fs \<noteq> [] \<Longrightarrow> \<exists>r' h. redis_hset ref_redis k fs r = (Inr (), r') \<and>
      r' = r(k \<mapsto> RHash h) \<and> h \<noteq> [] \<and> map_of h = map_of (hash_of (r k)) ++ map_of fs"
    by (intro exI [of _ "r(k \<mapsto> RHash (fs @ hash_of (r k)))"] exI [of _ "fs @ hash_of (r k)"])
      (simp add: ref_redis_def)
qed (auto simp: ref_redis_def split: list.splits)

end
