(* ===== verification/Transactions.thy ===== *)
theory Transactions
  imports Redis_Client
begin

text \<open>
  Query transactions: the status and the repository port (\<open>domain/shared/ports/query_execution.py\<close>),
  the contract of a repository, and the Redis repository that implements it
  (\<open>infrastructure/transactions/redis_transaction_repository.py\<close>), with its indexes by tenant and of
  the running transactions. The JSON text of the parameters is an argument.
\<close>

section \<open>Status and port\<close>

datatype tx_status = PENDING | RUNNING | COMPLETED | FAILED | TIMEOUT

fun tx_value :: "tx_status \<Rightarrow> string" where
  "tx_value PENDING = ''pending''"
| "tx_value RUNNING = ''running''"
| "tx_value COMPLETED = ''completed''"
| "tx_value FAILED = ''failed''"
| "tx_value TIMEOUT = ''timeout''"

lemma tx_value_inj [simp]: "tx_value a = tx_value b \<longleftrightarrow> a = b"
  by (cases a; cases b) simp_all

record tx_data =
  td_id :: uuid
  td_tenant :: uuid
  td_database :: uuid
  td_query :: string
  td_parameters :: string
  td_status :: tx_status
  td_timeout :: nat

text \<open>The first argument of a writing operation is the time it happens at, as text.\<close>

record 'w tx_port =
  save_transaction :: "string \<Rightarrow> tx_data \<Rightarrow> ('w, uuid) act"
  find_by_id :: "uuid \<Rightarrow> ('w, fields option) act"
  find_by_tenant :: "uuid \<Rightarrow> nat \<Rightarrow> nat \<Rightarrow> ('w, fields list) act"
  find_running_transactions :: "('w, fields list) act"
  update_status :: "string \<Rightarrow> uuid \<Rightarrow> tx_status \<Rightarrow> nat \<Rightarrow> string option \<Rightarrow> ('w, bool) act"

section \<open>The Redis repository\<close>

definition tx_key :: "uuid \<Rightarrow> string" where
  "tx_key i = ''tx:'' @ i"

definition tenant_set :: "uuid \<Rightarrow> string" where
  "tenant_set t = ''tx:tenant:'' @ t @ '':ids''"

definition running_set :: string where
  "running_set = ''tx:running''"

definition tx_fields :: "string \<Rightarrow> tx_data \<Rightarrow> fields" where
  "tx_fields created x =
     [(''transaction_id'', td_id x), (''tenant_id'', td_tenant x), (''database_id'', td_database x),
      (''query'', td_query x), (''parameters'', td_parameters x), (''status'', tx_value (td_status x)),
      (''timeout_seconds'', py_str_nat (td_timeout x)), (''created_at'', created), (''updated_at'', created),
      (''result_count'', ''0''), (''error_message'', [])]"

definition redis_save_transaction :: "'r redis \<Rightarrow> string \<Rightarrow> tx_data \<Rightarrow> ('r, uuid) act" where
  "redis_save_transaction R now x =
     andthen (redis_hset R (tx_key (td_id x)) (tx_fields now x))
       (andthen (redis_sadd R (tenant_set (td_tenant x)) (td_id x))
         (andthen (guard_do (td_status x = RUNNING) (redis_sadd R running_set (td_id x)))
           (ret (td_id x))))"

definition redis_find_by_id :: "'r redis \<Rightarrow> uuid \<Rightarrow> ('r, fields option) act" where
  "redis_find_by_id R i =
     bind (redis_hgetall R (tx_key i)) (\<lambda>d. ret (if d = [] then None else Some d))"

text \<open>The pipeline of \<open>hgetall\<close>s over a list of ids; empty hashes are dropped.\<close>

fun fetch_rows :: "'r redis \<Rightarrow> uuid list \<Rightarrow> ('r, fields list) act" where
  "fetch_rows R [] r = (Inr [], r)"
| "fetch_rows R (i # is) r = bind (of_result (UUID i)) (\<lambda>u. bind (redis_hgetall R (tx_key u)) (\<lambda>row.
     bind (fetch_rows R is) (\<lambda>rows. ret (if row = [] then rows else row # rows)))) r"

definition redis_find_by_tenant :: "'r redis \<Rightarrow> uuid \<Rightarrow> nat \<Rightarrow> nat \<Rightarrow> ('r, fields list) act" where
  "redis_find_by_tenant R t limit offset =
     bind (redis_smembers R (tenant_set t)) (\<lambda>ids. fetch_rows R (take limit (drop offset ids)))"

definition redis_find_running :: "'r redis \<Rightarrow> ('r, fields list) act" where
  "redis_find_running R = bind (redis_smembers R running_set) (\<lambda>ids. fetch_rows R ids)"

definition status_fields :: "string \<Rightarrow> tx_status \<Rightarrow> nat \<Rightarrow> string option \<Rightarrow> fields" where
  "status_fields updated st result_count error_message =
     [(''status'', tx_value st), (''updated_at'', updated), (''result_count'', py_str_nat result_count),
      (''error_message'', case error_message of None \<Rightarrow> [] | Some m \<Rightarrow> m)] @
     (if st = RUNNING then [(''started_at'', updated)]
      else if st \<in> {COMPLETED, FAILED, TIMEOUT} then [(''completed_at'', updated)] else [])"

definition redis_update_status ::
  "'r redis \<Rightarrow> string \<Rightarrow> uuid \<Rightarrow> tx_status \<Rightarrow> nat \<Rightarrow> string option \<Rightarrow> ('r, bool) act" where
  "redis_update_status R now i st result_count error_message =
     bind (redis_exists R (tx_key i)) (\<lambda>ex.
       if \<not> ex then ret False
       else andthen (redis_hset R (tx_key i) (status_fields now st result_count error_message))
         (andthen (if st = RUNNING then redis_sadd R running_set i else redis_srem R running_set i)
           (ret True)))"

definition redis_tx_repository :: "'r redis \<Rightarrow> 'r tx_port" where
  "redis_tx_repository R = \<lparr>save_transaction = redis_save_transaction R, find_by_id = redis_find_by_id R,
     find_by_tenant = redis_find_by_tenant R, find_running_transactions = redis_find_running R,
     update_status = redis_update_status R\<rparr>"

section \<open>The contract of a repository\<close>

text \<open>The repository as a table from ids to field maps.\<close>

type_synonym tx_table = "uuid \<rightharpoonup> (string \<rightharpoonup> string)"

definition status_of :: "tx_table \<Rightarrow> uuid \<Rightarrow> string option" where
  "status_of tab i = (case tab i of None \<Rightarrow> None | Some h \<Rightarrow> h ''status'')"

locale transaction_repository =
  fixes T :: "'w tx_port" and tab :: "'w \<Rightarrow> tx_table" and ok :: "'w \<Rightarrow> bool"
  assumes save_law: "ok w \<Longrightarrow> is_uuid (td_id x) \<Longrightarrow> is_uuid (td_tenant x) \<Longrightarrow> tab w (td_id x) = None \<Longrightarrow>
      \<exists>w'. save_transaction T now x w = (Inr (td_id x), w') \<and> ok w' \<and>
        tab w' = (tab w)(td_id x \<mapsto> map_of (tx_fields now x))"
    and find_law: "ok w \<Longrightarrow> is_uuid i \<Longrightarrow> \<exists>fs. find_by_id T i w = (Inr fs, w) \<and> map_option map_of fs = tab w i"
    and update_law: "ok w \<Longrightarrow> is_uuid i \<Longrightarrow> tab w i = Some h \<Longrightarrow>
      \<exists>w'. update_status T now i st n e w = (Inr True, w') \<and> ok w' \<and>
        tab w' = (tab w)(i \<mapsto> h ++ map_of (status_fields now st n e))"
    and update_missing: "ok w \<Longrightarrow> is_uuid i \<Longrightarrow> tab w i = None \<Longrightarrow>
      update_status T now i st n e w = (Inr False, w)"
    and running_law: "ok w \<Longrightarrow> \<exists>rows. find_running_transactions T w = (Inr rows, w) \<and>
      map_of ` set rows = {h. \<exists>i. tab w i = Some h \<and> h ''status'' = Some ''running''}"
begin

lemma update_status_of:
  assumes "ok w" "is_uuid i" "update_status T now i st n e w = (Inr True, w')"
  shows "ok w'" "status_of (tab w') i = Some (tx_value st)" "j \<noteq> i \<Longrightarrow> tab w' j = tab w j"
proof -
  obtain h where h: "tab w i = Some h"
    using update_missing [OF assms(1,2), of now st n e] assms(3) by (cases "tab w i") auto
  have s: "map_of (status_fields now st n e) ''status'' = Some (tx_value st)"
    by (simp add: status_fields_def)
  obtain w2 where "update_status T now i st n e w = (Inr True, w2)" "ok w2"
    "tab w2 = (tab w)(i \<mapsto> h ++ map_of (status_fields now st n e))"
    using update_law [OF assms(1,2) h, of now st n e] by blast
  with assms(3) s show "ok w'" "status_of (tab w') i = Some (tx_value st)" "j \<noteq> i \<Longrightarrow> tab w' j = tab w j"
    by (auto simp: status_of_def map_add_def)
qed

lemma update_total:
  assumes "ok w" "is_uuid i"
  shows "\<exists>w'. update_status T now i st n e w = (Inr (tab w i \<noteq> None), w') \<and> ok w' \<and>
    (\<forall>j. j \<noteq> i \<longrightarrow> tab w' j = tab w j)"
proof (cases "tab w i")
  case None
  then show ?thesis using update_missing [OF assms None, of now st n e] assms by simp
next
  case (Some h)
  then show ?thesis using update_law [OF assms Some, of now st n e] by auto
qed

end

section \<open>The Redis repository meets the contract\<close>

definition tx_tab :: "keyspace \<Rightarrow> tx_table" where
  "tx_tab v i = (if is_uuid i then (case v (tx_key i) of Some (RHash h) \<Rightarrow> Some (map_of h) | _ \<Rightarrow> None) else None)"

text \<open>The indexes: the running set holds exactly the ids of running transactions, a tenant's set the ids
  of its transactions, and hashes are never empty.\<close>

definition tx_inv :: "keyspace \<Rightarrow> bool" where
  "tx_inv v \<longleftrightarrow>
     (\<forall>i. is_uuid i \<longrightarrow> hash_ok (v (tx_key i)) \<and> v (tx_key i) \<noteq> Some (RHash [])) \<and>
     set_ok (v running_set) \<and> (\<forall>t. is_uuid t \<longrightarrow> set_ok (v (tenant_set t))) \<and>
     (\<forall>i. i \<in> set (set_of (v running_set)) \<longleftrightarrow> status_of (tx_tab v) i = Some ''running'') \<and>
     (\<forall>t i. is_uuid t \<longrightarrow> (i \<in> set (set_of (v (tenant_set t))) \<longleftrightarrow>
        (\<exists>h. tx_tab v i = Some h \<and> h ''tenant_id'' = Some t)))"

lemma uuid_no_t: "is_uuid i \<Longrightarrow> CHR ''t'' \<notin> set i"
  by (auto dest: uuid_chars)

lemma tx_keys_distinct [simp]:
  "tx_key i = tx_key j \<longleftrightarrow> i = j" "tenant_set i = tenant_set j \<longleftrightarrow> i = j"
  "is_uuid i \<Longrightarrow> tx_key i \<noteq> running_set" "is_uuid i \<Longrightarrow> running_set \<noteq> tx_key i"
  "is_uuid i \<Longrightarrow> tx_key i \<noteq> tenant_set t" "is_uuid i \<Longrightarrow> tenant_set t \<noteq> tx_key i"
  "tenant_set t \<noteq> running_set" "running_set \<noteq> tenant_set t"
proof -
  show "is_uuid i \<Longrightarrow> tx_key i \<noteq> running_set" "is_uuid i \<Longrightarrow> running_set \<noteq> tx_key i"
    by (auto simp: tx_key_def running_set_def dest: uuid_length)
  show "is_uuid i \<Longrightarrow> tx_key i \<noteq> tenant_set t" "is_uuid i \<Longrightarrow> tenant_set t \<noteq> tx_key i"
    by (auto simp: tx_key_def tenant_set_def dest: uuid_no_t)
qed (auto simp: tx_key_def tenant_set_def running_set_def)

lemma tx_tab_hash: "is_uuid i \<Longrightarrow> v (tx_key i) = Some (RHash h) \<Longrightarrow> tx_tab v i = Some (map_of h)"
  by (simp add: tx_tab_def)

lemma tx_tab_SomeD:
  assumes "tx_tab v i = Some m"
  obtains h where "is_uuid i" "v (tx_key i) = Some (RHash h)" "m = map_of h"
  using assms by (auto simp: tx_tab_def split: if_splits option.splits redis_value.splits)

lemma hash_ok_cases:
  assumes "hash_ok x"
  obtains "x = None" | h where "x = Some (RHash h)"
  using assms by (cases x rule: hash_ok.cases) auto

lemma tx_tab_None: "tx_inv v \<Longrightarrow> is_uuid i \<Longrightarrow> tx_tab v i = None \<longleftrightarrow> v (tx_key i) = None"
  by (auto simp: tx_inv_def tx_tab_def split: option.splits redis_value.splits dest!: spec [of _ i])

lemma hash_of_tab: "tx_inv v \<Longrightarrow> is_uuid i \<Longrightarrow>
    map_of (hash_of (v (tx_key i))) = (case tx_tab v i of None \<Rightarrow> Map.empty | Some m \<Rightarrow> m)"
  by (rule hash_ok_cases [of "v (tx_key i)"]) (auto simp: tx_inv_def tx_tab_def)

text \<open>The table after a write to one hash, whatever happens to the index keys.\<close>

lemma tx_tab_upd:
  assumes "is_uuid i" "v' (tx_key i) = Some (RHash h)" "\<And>j. is_uuid j \<Longrightarrow> j \<noteq> i \<Longrightarrow> v' (tx_key j) = v (tx_key j)"
  shows "tx_tab v' = (tx_tab v)(i \<mapsto> map_of h)"
  using assms by (auto simp: tx_tab_def fun_eq_iff)

context redis_client
begin

lemma fetch_rows_eq:
  "(\<And>i. i \<in> set is \<Longrightarrow> is_uuid i \<and> hash_ok (view r (tx_key i))) \<Longrightarrow>
     fetch_rows R is r = (Inr (filter (\<lambda>h. h \<noteq> []) (map (\<lambda>i. hash_of (view r (tx_key i))) is)), r)"
  by (induction "is") (simp_all add: bind_def ret_def of_result_def is_uuid_def hgetall_law)

lemma running_rows:
  assumes "tx_inv (view r)"
  shows "\<exists>rows. redis_find_running R r = (Inr rows, r) \<and>
    map_of ` set rows = {h. \<exists>i. tx_tab (view r) i = Some h \<and> h ''status'' = Some ''running''}"
proof -
  let ?ids = "set_of (view r running_set)"
  have mem: "i \<in> set ?ids \<longleftrightarrow> (\<exists>h. tx_tab (view r) i = Some h \<and> h ''status'' = Some ''running'')" for i
    using assms by (auto simp: tx_inv_def status_of_def split: option.splits)
  have ok: "is_uuid i \<and> (\<exists>h. view r (tx_key i) = Some (RHash h) \<and> tx_tab (view r) i = Some (map_of h) \<and> h \<noteq> [])"
    if "i \<in> set ?ids" for i
  proof -
    from that obtain m where "tx_tab (view r) i = Some m" by (auto simp: mem)
    then obtain h where h: "is_uuid i" "view r (tx_key i) = Some (RHash h)" "m = map_of h" by (rule tx_tab_SomeD)
    moreover have "h \<noteq> []" using assms h(1,2) by (auto simp: tx_inv_def)
    ultimately show ?thesis using \<open>tx_tab (view r) i = Some m\<close> by simp
  qed
  let ?rows = "filter (\<lambda>h. h \<noteq> []) (map (\<lambda>i. hash_of (view r (tx_key i))) ?ids)"
  have "is_uuid i \<and> hash_ok (view r (tx_key i))" if "i \<in> set ?ids" for i using ok [OF that] by auto
  then have f: "fetch_rows R ?ids r = (Inr ?rows, r)" by (rule fetch_rows_eq)
  have "set_ok (view r running_set)" using assms by (simp add: tx_inv_def)
  then have "redis_find_running R r = (Inr ?rows, r)"
    by (simp add: redis_find_running_def bind_def smembers_law f)
  moreover have "map_of ` set ?rows = {h. \<exists>i. tx_tab (view r) i = Some h \<and> h ''status'' = Some ''running''}"
  proof (intro set_eqI iffI)
    fix m
    assume "m \<in> map_of ` set ?rows"
    then obtain i where i: "i \<in> set ?ids" "m = map_of (hash_of (view r (tx_key i)))" by auto
    with ok [OF i(1)] have "tx_tab (view r) i = Some m" by auto
    with i(1) mem [of i] show "m \<in> {h. \<exists>i. tx_tab (view r) i = Some h \<and> h ''status'' = Some ''running''}" by auto
  next
    fix m
    assume "m \<in> {h. \<exists>i. tx_tab (view r) i = Some h \<and> h ''status'' = Some ''running''}"
    then obtain i where i: "tx_tab (view r) i = Some m" "i \<in> set ?ids" using mem by auto
    with ok [OF i(2)] obtain h where "view r (tx_key i) = Some (RHash h)" "m = map_of h" "h \<noteq> []" by auto
    with i(2) show "m \<in> map_of ` set ?rows" by (force simp: image_iff)
  qed
  ultimately show ?thesis by blast
qed

lemma save_effect:
  assumes inv: "tx_inv (view r)" and i: "is_uuid (td_id x)" "is_uuid (td_tenant x)"
    and new: "tx_tab (view r) (td_id x) = None"
  shows "\<exists>r'. redis_save_transaction R now x r = (Inr (td_id x), r') \<and> tx_inv (view r') \<and>
    tx_tab (view r') = (tx_tab (view r))(td_id x \<mapsto> map_of (tx_fields now x))"
proof -
  let ?i = "td_id x" and ?t = "td_tenant x"
  have none: "view r (tx_key ?i) = None" using tx_tab_None [OF inv i(1)] new by simp
  have ne: "tx_fields now x \<noteq> []" by (simp add: tx_fields_def)
  obtain r1 h where 1: "redis_hset R (tx_key ?i) (tx_fields now x) r = (Inr (), r1)"
    "view r1 = (view r)(tx_key ?i \<mapsto> RHash h)" "h \<noteq> []" "map_of h = map_of (tx_fields now x)"
    using hset_law [of r "tx_key ?i", OF _ ne] none by auto
  have t: "set_ok (view r1 (tenant_set ?t))" using inv i 1(2) by (simp add: tx_inv_def)
  obtain r2 s where 2: "redis_sadd R (tenant_set ?t) ?i r1 = (Inr (), r2)"
    "view r2 = (view r1)(tenant_set ?t \<mapsto> RSet s)" "set s = insert ?i (set (set_of (view r1 (tenant_set ?t))))"
    using sadd_law [OF t, of ?i] by auto
  have ru: "set_ok (view r2 running_set)" using inv i 1(2) 2(2) by (simp add: tx_inv_def)
  obtain r3 s' where 3: "redis_sadd R running_set ?i r2 = (Inr (), r3)"
    "view r3 = (view r2)(running_set \<mapsto> RSet s')" "set s' = insert ?i (set (set_of (view r2 running_set)))"
    using sadd_law [OF ru, of ?i] by auto
  define r4 where "r4 = (if td_status x = RUNNING then r3 else r2)"
  have run: "redis_save_transaction R now x r = (Inr ?i, r4)"
    by (simp add: redis_save_transaction_def andthen_def bind_def 1(1) 2(1) 3(1) guard_do_def ret_def r4_def)
  have v: "view r4 k = (if k = tx_key ?i then Some (RHash h) else if k = tenant_set ?t then Some (RSet s)
      else if k = running_set \<and> td_status x = RUNNING then Some (RSet s') else view r k)" for k
    using i by (simp add: r4_def 1(2) 2(2) 3(2))
  have tab: "tx_tab (view r4) = (tx_tab (view r))(?i \<mapsto> map_of (tx_fields now x))"
    unfolding 1(4) [symmetric] using i by (intro tx_tab_upd) (simp_all add: v)
  have st: "map_of (tx_fields now x) ''status'' = Some (tx_value (td_status x))"
    "map_of (tx_fields now x) ''tenant_id'' = Some ?t" by (simp_all add: tx_fields_def)
  have rn: "tx_value (td_status x) = ''running'' \<longleftrightarrow> td_status x = RUNNING" by (cases "td_status x") simp_all
  have "j \<in> set (set_of (view r4 running_set)) \<longleftrightarrow> status_of (tx_tab (view r4)) j = Some ''running''" for j
    using inv i new 3(3) 2(2) 1(2) st(1) rn
    by (auto simp: v tab tx_inv_def status_of_def split: if_splits)
  moreover have "j \<in> set (set_of (view r4 (tenant_set u))) \<longleftrightarrow>
      (\<exists>m. tx_tab (view r4) j = Some m \<and> m ''tenant_id'' = Some u)" if "is_uuid u" for j u
    using inv i new 2(3) 1(2) st(2) that by (auto simp: v tab tx_inv_def)
  moreover have "set_ok (view r4 running_set)" "\<forall>u. is_uuid u \<longrightarrow> set_ok (view r4 (tenant_set u))"
    "\<forall>j. is_uuid j \<longrightarrow> hash_ok (view r4 (tx_key j)) \<and> view r4 (tx_key j) \<noteq> Some (RHash [])"
    using inv i 1(3) by (auto simp: v tx_inv_def)
  ultimately have "tx_inv (view r4)" by (simp add: tx_inv_def)
  with run tab show ?thesis by blast
qed

lemma update_effect:
  assumes inv: "tx_inv (view r)" and i: "is_uuid i" and some: "tx_tab (view r) i = Some m"
  shows "\<exists>r'. redis_update_status R now i st n e r = (Inr True, r') \<and> tx_inv (view r') \<and>
    tx_tab (view r') = (tx_tab (view r))(i \<mapsto> m ++ map_of (status_fields now st n e))"
proof -
  let ?f = "status_fields now st n e"
  have ex: "view r (tx_key i) \<noteq> None" using tx_tab_None [OF inv i] some by simp
  have ne: "?f \<noteq> []" by (simp add: status_fields_def)
  have ok: "hash_ok (view r (tx_key i))" using inv i by (simp add: tx_inv_def)
  obtain r1 h where 1: "redis_hset R (tx_key i) ?f r = (Inr (), r1)"
    "view r1 = (view r)(tx_key i \<mapsto> RHash h)" "h \<noteq> []" "map_of h = m ++ map_of ?f"
    using hset_law [OF ok ne] hash_of_tab [OF inv i] some by auto
  have ru: "set_ok (view r1 running_set)" using inv i 1(2) by (simp add: tx_inv_def)
  have same: "view r1 running_set = view r running_set" using i 1(2) by simp
  obtain r2 x where 2: "(if st = RUNNING then redis_sadd R running_set i else redis_srem R running_set i) r1 =
      (Inr (), r2)" "view r2 = (view r1)(running_set := x)" "set_ok x"
    "set (set_of x) = (if st = RUNNING then insert i (set (set_of (view r running_set)))
                       else set (set_of (view r running_set)) - {i})"
  proof (cases "st = RUNNING")
    case True
    then show thesis using sadd_law [OF ru, of i] that same by auto
  next
    case False
    obtain r2 s where "redis_srem R running_set i r1 = (Inr (), r2)" "view r2 = (view r1)(running_set := put_set s)"
      "set s = set (set_of (view r1 running_set)) - {i}" using srem_law [OF ru, of i] by blast
    moreover have "set_ok (put_set s)" "set_of (put_set s) = s" by (simp_all add: put_set_def)
    ultimately show thesis using that [of r2 "put_set s"] False same by simp
  qed
  have run: "redis_update_status R now i st n e r = (Inr True, r2)"
    using ex 2(1) by (simp add: redis_update_status_def andthen_def bind_def exists_law 1(1) ret_def)
  have v: "view r2 k = (if k = tx_key i then Some (RHash h) else if k = running_set then x else view r k)" for k
    using i by (simp add: 2(2) 1(2))
  have tab: "tx_tab (view r2) = (tx_tab (view r))(i \<mapsto> m ++ map_of ?f)"
    unfolding 1(4) [symmetric] using i by (intro tx_tab_upd) (simp_all add: v)
  have st: "map_of ?f ''status'' = Some (tx_value st)" "map_of ?f ''tenant_id'' = None"
    by (simp_all add: status_fields_def)
  have rn: "tx_value st = ''running'' \<longleftrightarrow> st = RUNNING" by (cases st) simp_all
  have "j \<in> set (set_of (view r2 running_set)) \<longleftrightarrow> status_of (tx_tab (view r2)) j = Some ''running''" for j
    using inv i 2(4) st(1) rn by (auto simp: v tab tx_inv_def status_of_def map_add_def)
  moreover have "j \<in> set (set_of (view r2 (tenant_set u))) \<longleftrightarrow>
      (\<exists>m. tx_tab (view r2) j = Some m \<and> m ''tenant_id'' = Some u)" if "is_uuid u" for j u
    using inv i some st(2) that by (auto simp: v tab tx_inv_def map_add_def)
  moreover have "set_ok (view r2 running_set)" "\<forall>u. is_uuid u \<longrightarrow> set_ok (view r2 (tenant_set u))"
    "\<forall>j. is_uuid j \<longrightarrow> hash_ok (view r2 (tx_key j)) \<and> view r2 (tx_key j) \<noteq> Some (RHash [])"
    using inv i 1(3) 2(3) by (auto simp: v tx_inv_def)
  ultimately have "tx_inv (view r2)" by (simp add: tx_inv_def)
  with run tab show ?thesis by blast
qed

end

sublocale redis_client \<subseteq> transactions: transaction_repository "redis_tx_repository R" "\<lambda>r. tx_tab (view r)"
  "\<lambda>r. tx_inv (view r)"
proof
  fix w x now i st n e h
  assume w: "tx_inv (view w)"
  show "is_uuid (td_id x) \<Longrightarrow> is_uuid (td_tenant x) \<Longrightarrow> tx_tab (view w) (td_id x) = None \<Longrightarrow>
      \<exists>w'. save_transaction (redis_tx_repository R) now x w = (Inr (td_id x), w') \<and> tx_inv (view w') \<and>
        tx_tab (view w') = (tx_tab (view w))(td_id x \<mapsto> map_of (tx_fields now x))"
    using save_effect [OF w] by (simp add: redis_tx_repository_def)
  show "\<exists>fs. find_by_id (redis_tx_repository R) i w = (Inr fs, w) \<and> map_option map_of fs = tx_tab (view w) i"
    if "is_uuid i"
  proof -
    have "hash_ok (view w (tx_key i))" "view w (tx_key i) \<noteq> Some (RHash [])" using w that by (auto simp: tx_inv_def)
    then show ?thesis
      using that by (elim hash_ok_cases)
        (auto simp: redis_tx_repository_def redis_find_by_id_def bind_def ret_def hgetall_law tx_tab_def)
  qed
  show "is_uuid i \<Longrightarrow> tx_tab (view w) i = Some h \<Longrightarrow>
      \<exists>w'. update_status (redis_tx_repository R) now i st n e w = (Inr True, w') \<and> tx_inv (view w') \<and>
        tx_tab (view w') = (tx_tab (view w))(i \<mapsto> h ++ map_of (status_fields now st n e))"
    using update_effect [OF w] by (simp add: redis_tx_repository_def)
  show "is_uuid i \<Longrightarrow> tx_tab (view w) i = None \<Longrightarrow>
      update_status (redis_tx_repository R) now i st n e w = (Inr False, w)"
    using tx_tab_None [OF w, of i]
    by (simp add: redis_tx_repository_def redis_update_status_def bind_def exists_law ret_def)
  show "\<exists>rows. find_running_transactions (redis_tx_repository R) w = (Inr rows, w) \<and>
      map_of ` set rows = {h. \<exists>i. tx_tab (view w) i = Some h \<and> h ''status'' = Some ''running''}"
    using running_rows [OF w] by (simp add: redis_tx_repository_def)
qed

section \<open>Histories of a repository\<close>

inductive tx_reachable :: "'r redis \<Rightarrow> ('r \<Rightarrow> keyspace) \<Rightarrow> 'r \<Rightarrow> bool" for R view where
  start: "\<forall>k. startswith k ''tx:'' \<longrightarrow> view r k = None \<Longrightarrow> tx_reachable R view r"
| saved: "tx_reachable R view r \<Longrightarrow> is_uuid (td_id x) \<Longrightarrow> is_uuid (td_tenant x) \<Longrightarrow>
    tx_tab (view r) (td_id x) = None \<Longrightarrow> redis_save_transaction R now x r = (res, r') \<Longrightarrow> tx_reachable R view r'"
| updated: "tx_reachable R view r \<Longrightarrow> is_uuid i \<Longrightarrow>
    redis_update_status R now i st n e r = (res', r') \<Longrightarrow> tx_reachable R view r'"
| others: "tx_reachable R view r \<Longrightarrow> \<forall>k. startswith k ''tx:'' \<longrightarrow> view r' k = view r k \<Longrightarrow>
    tx_reachable R view r'"

lemma tx_key_prefixes [simp]: "startswith (tx_key i) ''tx:''" "startswith (tenant_set t) ''tx:''"
  "startswith running_set ''tx:''"
  by (simp_all add: tx_key_def tenant_set_def running_set_def)

lemma tx_inv_cong:
  assumes "\<forall>k. startswith k ''tx:'' \<longrightarrow> v' k = v k"
  shows "tx_tab v' = tx_tab v" "tx_inv v' = tx_inv v"
proof -
  show t: "tx_tab v' = tx_tab v" using assms by (auto simp: tx_tab_def fun_eq_iff)
  show "tx_inv v' = tx_inv v" using assms by (simp add: tx_inv_def t)
qed

lemma tx_inv_start: "\<forall>k. startswith k ''tx:'' \<longrightarrow> v k = None \<Longrightarrow> tx_inv v"
  by (simp add: tx_inv_def tx_tab_def status_of_def)

context redis_client
begin

lemma update_absent:
  "tx_inv (view r) \<Longrightarrow> is_uuid i \<Longrightarrow> tx_tab (view r) i = None \<Longrightarrow>
     redis_update_status R now i st n e r = (Inr False, r)"
  by (simp add: tx_tab_None redis_update_status_def bind_def exists_law ret_def)

lemma tx_reachable_inv: "tx_reachable R view r \<Longrightarrow> tx_inv (view r)"
proof (induction rule: tx_reachable.induct)
  case (start r)
  then show ?case by (rule tx_inv_start)
next
  case (saved r x now res r')
  then show ?case using save_effect [of r x now] by auto
next
  case (updated r i now st n e res' r')
  then show ?case
    using transactions.update_total [OF updated.IH updated.hyps(2), of now st n e]
    by (auto simp: redis_tx_repository_def)
next
  case (others r r')
  then show ?case using tx_inv_cong(2) by blast
qed

end

section \<open>Properties\<close>

text \<open>C7: The index of running transactions is exact. Over every history of saves under fresh ids and of
  status updates, beside other users of the store, the running query returns the records whose status
  is running and no other; a status update answers whether the id exists, gives that record the new
  status and leaves every other record as it was.\<close>

theorem running_index_exact:
  assumes "redis_client R view" "tx_reachable R view r"
  shows "(\<exists>rows. redis_find_running R r = (Inr rows, r) \<and>
      map_of ` set rows = {h. \<exists>i. tx_tab (view r) i = Some h \<and> h ''status'' = Some ''running''}) \<and>
    (\<forall>i. is_uuid i \<longrightarrow> (\<exists>r'. redis_update_status R now i st n e r = (Inr (tx_tab (view r) i \<noteq> None), r') \<and>
      status_of (tx_tab (view r')) i = (if tx_tab (view r) i = None then None else Some (tx_value st)) \<and>
      (\<forall>j. j \<noteq> i \<longrightarrow> tx_tab (view r') j = tx_tab (view r) j)))"
proof -
  have inv: "tx_inv (view r)" by (rule redis_client.tx_reachable_inv [OF assms])
  have "\<exists>r'. redis_update_status R now i st n e r = (Inr (tx_tab (view r) i \<noteq> None), r') \<and>
      status_of (tx_tab (view r')) i = (if tx_tab (view r) i = None then None else Some (tx_value st)) \<and>
      (\<forall>j. j \<noteq> i \<longrightarrow> tx_tab (view r') j = tx_tab (view r) j)" if i: "is_uuid i" for i
  proof (cases "tx_tab (view r) i")
    case None
    then show ?thesis
      using redis_client.update_absent [OF assms(1) inv i None, of now st n e] by (simp add: status_of_def)
  next
    case (Some m)
    have "map_of (status_fields now st n e) ''status'' = Some (tx_value st)" by (simp add: status_fields_def)
    with Some redis_client.update_effect [OF assms(1) inv i Some, of now st n e] show ?thesis
      by (auto simp: status_of_def map_add_def)
  qed
  then show ?thesis using redis_client.running_rows [OF assms(1) inv] by blast
qed

text \<open>Two transactions of a tenant, one of which runs.\<close>

definition demo_tx :: "uuid \<Rightarrow> tx_status \<Rightarrow> tx_data" where
  "demo_tx i st = \<lparr>td_id = i, td_tenant = uuid_a, td_database = uuid_b, td_query = ''MATCH (n) RETURN n'',
     td_parameters = ''{}'', td_status = st, td_timeout = 30\<rparr>"

theorem running_index_exact_witness:
  "\<exists>r rows. redis_save_transaction ref_redis ''t0'' (demo_tx uuid_b RUNNING) Map.empty = (Inr uuid_b, r) \<and>
     redis_find_running ref_redis r = (Inr rows, r) \<and>
     map_of ` set rows = {map_of (tx_fields ''t0'' (demo_tx uuid_b RUNNING))}"
proof -
  have u: "is_uuid (td_id (demo_tx uuid_b RUNNING))" "is_uuid (td_tenant (demo_tx uuid_b RUNNING))"
    by (simp_all add: demo_tx_def demo_uuids)
  have s0: "tx_reachable ref_redis (\<lambda>r. r) Map.empty" by (rule tx_reachable.start) simp
  have n: "tx_tab Map.empty (td_id (demo_tx uuid_b RUNNING)) = None" by (simp add: tx_tab_def)
  have e: "tx_tab Map.empty = Map.empty" by (simp add: tx_tab_def fun_eq_iff)
  have i: "td_id (demo_tx uuid_b RUNNING) = uuid_b" by (simp add: demo_tx_def)
  have inv0: "tx_inv Map.empty" by (rule tx_inv_start) simp
  obtain r where r: "redis_save_transaction ref_redis ''t0'' (demo_tx uuid_b RUNNING) Map.empty = (Inr uuid_b, r)"
    "tx_tab r = [uuid_b \<mapsto> map_of (tx_fields ''t0'' (demo_tx uuid_b RUNNING))]"
    using ref.save_effect [OF inv0 u n, of "''t0''"] unfolding i e by (elim exE conjE)
  have reach: "tx_reachable ref_redis (\<lambda>r. r) r" by (rule tx_reachable.saved [OF s0 u n r(1)])
  obtain rows where "redis_find_running ref_redis r = (Inr rows, r)"
    "map_of ` set rows = {h. \<exists>i. tx_tab r i = Some h \<and> h ''status'' = Some ''running''}"
    using running_index_exact [OF ref.redis_client_axioms reach, THEN conjunct1] by (elim exE conjE)
  moreover have "{h. \<exists>i. tx_tab r i = Some h \<and> h ''status'' = Some ''running''} =
      {map_of (tx_fields ''t0'' (demo_tx uuid_b RUNNING))}"
    by (auto simp: r(2) tx_fields_def demo_tx_def split: if_splits)
  ultimately show ?thesis using r(1) by auto
qed

end
