(* ===== verification/Message_Queue.thy ===== *)
theory Message_Queue
  imports Redis_Client "HOL-Library.AList"
begin

text \<open>
  The transaction queue: its port (\<open>domain/shared/ports/query_execution.py\<close>), the contract of a queue,
  and the implementation on a Redis stream (\<open>infrastructure/queue/redis_queue_service.py\<close>); and the
  event stream of a tenant (\<open>infrastructure/events/sse_event_service.py\<close>).
\<close>

section \<open>Port and implementation\<close>

record message =
  message_id :: nat
  msg_transaction :: uuid
  msg_tenant :: uuid

record 'w queue_port =
  enqueue_transaction :: "uuid \<Rightarrow> uuid \<Rightarrow> nat \<Rightarrow> ('w, bool) act"
  dequeue_transaction :: "string \<Rightarrow> string \<Rightarrow> ('w, message option) act"
  acknowledge_transaction :: "string \<Rightarrow> nat \<Rightarrow> ('w, bool) act"

definition queue_stream :: string where
  "queue_stream = ''query_transactions''"

definition max_length :: nat where
  "max_length = 10000"

definition queue_fields :: "uuid \<Rightarrow> uuid \<Rightarrow> nat \<Rightarrow> fields" where
  "queue_fields tx t priority = [(''transaction_id'', tx), (''tenant_id'', t), (''priority'', py_str_nat priority)]"

definition redis_enqueue :: "'r redis \<Rightarrow> uuid \<Rightarrow> uuid \<Rightarrow> nat \<Rightarrow> ('r, bool) act" where
  "redis_enqueue R tx t priority =
     bind (redis_xadd R queue_stream (queue_fields tx t priority) max_length False) (\<lambda>_. ret True)"

definition ensure_group :: "'r redis \<Rightarrow> string \<Rightarrow> ('r, unit) act" where
  "ensure_group R g = catch (redis_xgroup_create R queue_stream g)
     (\<lambda>e. if contains ''BUSYGROUP'' (str_of e) then ret () else of_result (Inl e))"

text \<open>The payload's ids are read with \<open>[]\<close>, which raises \<open>KeyError\<close> when they are missing.\<close>

definition payload_uuid :: "fields \<Rightarrow> string \<Rightarrow> uuid result" where
  "payload_uuid f k = (case map_of f k of None \<Rightarrow> raise KeyError k | Some v \<Rightarrow> UUID v)"

definition message_of :: "nat \<times> fields \<Rightarrow> message result" where
  "message_of e = bind_r (payload_uuid (snd e) ''transaction_id'') (\<lambda>tx.
     bind_r (payload_uuid (snd e) ''tenant_id'') (\<lambda>t.
     bind_r (py_int_text (case map_of (snd e) ''priority'' of None \<Rightarrow> ''0'' | Some p \<Rightarrow> p)) (\<lambda>_.
       Inr \<lparr>message_id = fst e, msg_transaction = tx, msg_tenant = t\<rparr>)))"

definition redis_dequeue :: "'r redis \<Rightarrow> string \<Rightarrow> string \<Rightarrow> ('r, message option) act" where
  "redis_dequeue R g consumer =
     andthen (ensure_group R g)
       (bind (redis_xreadgroup R g consumer queue_stream) (\<lambda>entry. case entry of
          None \<Rightarrow> ret None
        | Some e \<Rightarrow> bind (of_result (message_of e)) (\<lambda>m. ret (Some m))))"

definition redis_acknowledge :: "'r redis \<Rightarrow> string \<Rightarrow> nat \<Rightarrow> ('r, bool) act" where
  "redis_acknowledge R g i =
     andthen (redis_xack R queue_stream g i) (andthen (redis_xdel R queue_stream i) (ret True))"

definition publish_notification :: "'r redis \<Rightarrow> uuid \<Rightarrow> string \<Rightarrow> ('r, bool) act" where
  "publish_notification R t payload = andthen (redis_publish R (''notifications:'' @ t) payload) (ret True)"

definition redis_queue :: "'r redis \<Rightarrow> 'r queue_port" where
  "redis_queue R = \<lparr>enqueue_transaction = redis_enqueue R, dequeue_transaction = redis_dequeue R,
     acknowledge_transaction = redis_acknowledge R\<rparr>"

section \<open>Events\<close>

definition event_stream :: "uuid \<Rightarrow> string" where
  "event_stream t = ''events:'' @ t"

text \<open>\<open>fields[key] = value\<close> for each metadata entry, over the four fixed fields.\<close>

definition event_fields :: "string \<Rightarrow> string \<Rightarrow> string \<Rightarrow> string \<Rightarrow> fields \<Rightarrow> fields" where
  "event_fields now event_type title message metadata =
     foldl (\<lambda>fs (k, v). AList.update k v fs)
       [(''event_type'', event_type), (''title'', title), (''message'', message), (''timestamp'', now)] metadata"

definition emit_event ::
  "'r redis \<Rightarrow> string \<Rightarrow> uuid \<Rightarrow> string \<Rightarrow> string \<Rightarrow> string \<Rightarrow> fields \<Rightarrow> ('r, unit) act" where
  "emit_event R now t event_type title message metadata =
     bind (redis_xadd R (event_stream t) (event_fields now event_type title message metadata) max_length True)
       (\<lambda>_. ret ())"

section \<open>The contract of a queue\<close>

text \<open>\<open>waiting\<close> is what the workers' group has not been given, oldest first; there is \<open>room\<close> while the
  stream is below its maximal length, beyond which the oldest messages are dropped undelivered.\<close>

text \<open>Producers and the consumers of one group, of whom any takes the next message: what was enqueued, and
  what was handed out, in order. Only messages already handed out are acknowledged.\<close>

inductive queue_run ::
  "'w queue_port \<Rightarrow> ('w \<Rightarrow> (nat \<times> uuid \<times> uuid) list) \<Rightarrow> string \<Rightarrow> ('w \<Rightarrow> bool) \<Rightarrow>
   'w \<Rightarrow> (uuid \<times> uuid) list \<Rightarrow> (uuid \<times> uuid) list \<Rightarrow> 'w \<Rightarrow> bool" for Q waiting group room where
  nothing: "queue_run Q waiting group room w [] [] w"
| put: "queue_run Q waiting group room w es ds w1 \<Longrightarrow> room w1 \<Longrightarrow> is_uuid tx \<Longrightarrow> is_uuid t \<Longrightarrow>
    enqueue_transaction Q tx t p w1 = (r, w2) \<Longrightarrow> queue_run Q waiting group room w (es @ [(tx, t)]) ds w2"
| none: "queue_run Q waiting group room w es ds w1 \<Longrightarrow> dequeue_transaction Q group c w1 = (Inr None, w2) \<Longrightarrow>
    queue_run Q waiting group room w es ds w2"
| take: "queue_run Q waiting group room w es ds w1 \<Longrightarrow> dequeue_transaction Q group c w1 = (Inr (Some m), w2) \<Longrightarrow>
    queue_run Q waiting group room w es (ds @ [(msg_transaction m, msg_tenant m)]) w2"
| ack: "queue_run Q waiting group room w es ds w1 \<Longrightarrow> i \<notin> fst ` set (waiting w1) \<Longrightarrow>
    acknowledge_transaction Q group i w1 = (r', w2) \<Longrightarrow> queue_run Q waiting group room w es ds w2"

locale message_queue =
  fixes Q :: "'w queue_port" and waiting :: "'w \<Rightarrow> (nat \<times> uuid \<times> uuid) list" and group :: string
    and ok :: "'w \<Rightarrow> bool" and room :: "'w \<Rightarrow> bool"
  assumes enqueue_law: "ok w \<Longrightarrow> room w \<Longrightarrow> is_uuid tx \<Longrightarrow> is_uuid t \<Longrightarrow> \<exists>i w'. enqueue_transaction Q tx t p w = (Inr True, w') \<and> ok w' \<and>
      waiting w' = waiting w @ [(i, tx, t)]"
    and dequeue_empty: "ok w \<Longrightarrow> waiting w = [] \<Longrightarrow>
      \<exists>w'. dequeue_transaction Q group c w = (Inr None, w') \<and> ok w' \<and> waiting w' = []"
    and dequeue_law: "ok w \<Longrightarrow> waiting w = (i, tx, t) # ms \<Longrightarrow>
      \<exists>w'. dequeue_transaction Q group c w =
          (Inr (Some \<lparr>message_id = i, msg_transaction = tx, msg_tenant = t\<rparr>), w') \<and> ok w' \<and> waiting w' = ms \<and>
        i \<notin> fst ` set ms"
    and ack_law: "ok w \<Longrightarrow> \<exists>w'. acknowledge_transaction Q group i w = (Inr True, w') \<and> ok w' \<and>
      waiting w' = filter (\<lambda>m. fst m \<noteq> i) (waiting w)"
begin

lemma fifo:
  "queue_run Q waiting group room w es ds w' \<Longrightarrow> ok w \<Longrightarrow> waiting w = [] \<Longrightarrow> ok w' \<and> es = ds @ map snd (waiting w')"
proof (induction rule: queue_run.induct)
  case (put w es ds w1 tx t p r w2)
  then show ?case using enqueue_law [of w1 tx t p] by auto
next
  case (none w es ds w1 c w2)
  then show ?case
  proof (cases "waiting w1")
    case (Cons m ms)
    then show ?thesis using none dequeue_law [of w1 "fst m" "fst (snd m)" "snd (snd m)" ms c] by auto
  qed (use none dequeue_empty [of w1 c] in auto)
next
  case (take w es ds w1 c m w2)
  then show ?case
  proof (cases "waiting w1")
    case Nil
    then show ?thesis using take dequeue_empty [of w1 c] by auto
  next
    case (Cons n ms)
    then show ?thesis using take dequeue_law [of w1 "fst n" "fst (snd n)" "snd (snd n)" ms c] by auto
  qed
next
  case (ack w es ds w1 i r' w2)
  then have "filter (\<lambda>m. fst m \<noteq> i) (waiting w1) = waiting w1" by (auto simp: filter_id_conv)
  with ack ack_law [of w1 i] show ?case by auto
qed simp

end

section \<open>The stream meets the contract\<close>

definition entry_msg :: "nat \<times> fields \<Rightarrow> nat \<times> uuid \<times> uuid" where
  "entry_msg e = (fst e, the (map_of (snd e) ''transaction_id''), the (map_of (snd e) ''tenant_id''))"

definition stream_waiting :: "string \<Rightarrow> keyspace \<Rightarrow> (nat \<times> uuid \<times> uuid) list" where
  "stream_waiting g v = map entry_msg (undelivered (v queue_stream) g)"

definition stream_inv :: "keyspace \<Rightarrow> bool" where
  "stream_inv v \<longleftrightarrow> stream_ok (v queue_stream) \<and> sorted_wrt (<) (map fst (entries_of (v queue_stream))) \<and>
     (\<forall>e \<in> set (entries_of (v queue_stream)). 0 < fst e \<and>
        (\<exists>tx t. map_of (snd e) ''transaction_id'' = Some tx \<and> map_of (snd e) ''tenant_id'' = Some t \<and>
          is_uuid tx \<and> is_uuid t) \<and>
        (\<exists>n. map_of (snd e) ''priority'' = Some (py_str_nat n)))"

definition stream_room :: "keyspace \<Rightarrow> bool" where
  "stream_room v \<longleftrightarrow> length (entries_of (v queue_stream)) < max_length"

lemma undelivered_zero:
  "stream_inv v \<Longrightarrow> filter (\<lambda>e. 0 < fst e) (entries_of (v queue_stream)) = entries_of (v queue_stream)"
  by (auto simp: stream_inv_def filter_id_conv)

lemma trim_short: "length es \<le> n \<Longrightarrow> trim n es = es"
  by (simp add: trim_def)

lemma filter_after_first:
  "sorted_wrt (<) (map fst es) \<Longrightarrow> filter (\<lambda>e. (l::nat) < fst e) es = x # xs \<Longrightarrow>
     filter (\<lambda>e. fst x < fst e) es = xs \<and> l < fst x \<and> x \<in> set es"
proof (induction es)
  case (Cons e es)
  show ?case
  proof (cases "l < fst e")
    case True
    with Cons.prems have x: "x = e" "xs = filter (\<lambda>e. l < fst e) es" by simp_all
    have "\<forall>y \<in> set es. fst e < fst y" using Cons.prems(1) by simp
    with True have "filter (\<lambda>y. l < fst y) es = es" "filter (\<lambda>y. fst e < fst y) es = es"
      by (auto simp: filter_id_conv intro: less_trans)
    with True x show ?thesis by simp
  next
    case False
    with Cons have "filter (\<lambda>e. fst x < fst e) es = xs \<and> l < fst x \<and> x \<in> set es" by simp
    with False show ?thesis by auto
  qed
qed simp

lemma stream_inv_same:
  "entries_of (v' queue_stream) = entries_of (v queue_stream) \<Longrightarrow> stream_ok (v' queue_stream) \<Longrightarrow>
     stream_inv v \<Longrightarrow> stream_inv v'"
  by (simp add: stream_inv_def)

context redis_client
begin

lemma enqueue_effect:
  assumes "stream_inv (view r)" "stream_room (view r)" "is_uuid tx" "is_uuid t"
  shows "\<exists>i r'. redis_enqueue R tx t p r = (Inr True, r') \<and> stream_inv (view r') \<and>
    stream_waiting g (view r') = stream_waiting g (view r) @ [(i, tx, t)]"
proof -
  let ?v = "view r queue_stream" and ?f = "queue_fields tx t p"
  have ok: "stream_ok ?v" using assms(1) by (simp add: stream_inv_def)
  obtain r' i where x: "redis_xadd R queue_stream ?f max_length False r = (Inr i, r')" "0 < i"
    "\<forall>e \<in> set (entries_of ?v). fst e < i" "\<forall>q \<in> set (groups_of ?v). snd q < i"
    "view r' = (view r)(queue_stream \<mapsto> RStream (trim max_length (entries_of ?v @ [(i, ?f)])) (groups_of ?v))"
    using xadd_law [OF ok, of ?f max_length] by blast
  have v: "view r' queue_stream = Some (RStream (entries_of ?v @ [(i, ?f)]) (groups_of ?v))"
    using x(5) assms(2) by (simp add: trim_short stream_room_def)
  have f: "map_of ?f ''transaction_id'' = Some tx" "map_of ?f ''tenant_id'' = Some t"
    "map_of ?f ''priority'' = Some (py_str_nat p)"
    by (simp_all add: queue_fields_def)
  have "stream_inv (view r')"
    using assms(1,3,4) x(2,3) f by (auto simp: stream_inv_def v sorted_wrt_append)
  moreover have "stream_waiting g (view r') = stream_waiting g (view r) @ [(i, tx, t)]"
    using x(4) f
    by (auto simp: stream_waiting_def undelivered_def v entry_msg_def split: option.splits dest!: map_of_SomeD)
  ultimately show ?thesis using x(1) by (auto simp: redis_enqueue_def bind_def ret_def)
qed

lemma ensure_group_effect:
  assumes "stream_inv (view r)"
  shows "\<exists>r'. ensure_group R g r = (Inr (), r') \<and> stream_inv (view r') \<and>
    undelivered (view r' queue_stream) g = undelivered (view r queue_stream) g \<and>
    map_of (groups_of (view r' queue_stream)) g \<noteq> None"
proof -
  let ?v = "view r queue_stream"
  have ok: "stream_ok ?v" using assms by (simp add: stream_inv_def)
  obtain r' where x: "redis_xgroup_create R queue_stream g r =
      (if map_of (groups_of ?v) g = None then Inr () else raise OtherError ''BUSYGROUP'', r')"
    "view r' = (if map_of (groups_of ?v) g = None
      then (view r)(queue_stream \<mapsto> RStream (entries_of ?v) ((g, 0) # groups_of ?v)) else view r)"
    using xgroup_law [OF ok] by blast
  have busy: "contains ''BUSYGROUP'' ''BUSYGROUP''" by code_simp
  show ?thesis
  proof (cases "map_of (groups_of ?v) g")
    case None
    then have v: "view r' queue_stream = Some (RStream (entries_of ?v) ((g, 0) # groups_of ?v))"
      using x(2) by simp
    have "stream_inv (view r')" by (rule stream_inv_same [OF _ _ assms]) (simp_all add: v)
    moreover have "undelivered (view r' queue_stream) g = undelivered ?v g"
      using None undelivered_zero [OF assms] by (simp add: undelivered_def v)
    ultimately show ?thesis using x(1) None v by (simp add: ensure_group_def catch_def)
  next
    case (Some l)
    then show ?thesis using x assms busy by (simp add: ensure_group_def catch_def ret_def)
  qed
qed

lemma dequeue_effect:
  assumes "stream_inv (view r)"
  shows "\<exists>r'. redis_dequeue R g c r = (Inr (case stream_waiting g (view r) of [] \<Rightarrow> None
      | (i, tx, t) # _ \<Rightarrow> Some \<lparr>message_id = i, msg_transaction = tx, msg_tenant = t\<rparr>), r') \<and>
    stream_inv (view r') \<and> stream_waiting g (view r') = tl (stream_waiting g (view r)) \<and>
    (\<forall>m \<in> set (stream_waiting g (view r')). fst (hd (stream_waiting g (view r))) < fst m)"
proof -
  obtain r1 where 1: "ensure_group R g r = (Inr (), r1)" "stream_inv (view r1)"
    "undelivered (view r1 queue_stream) g = undelivered (view r queue_stream) g"
    "map_of (groups_of (view r1 queue_stream)) g \<noteq> None"
    using ensure_group_effect [OF assms] by blast
  let ?v = "view r1 queue_stream" and ?u = "undelivered (view r queue_stream) g"
  have ok: "stream_ok ?v" using 1(2) by (simp add: stream_inv_def)
  obtain r2 where 2: "redis_xreadgroup R g c queue_stream r1 =
      (Inr (case ?u of [] \<Rightarrow> None | e # _ \<Rightarrow> Some e), r2)"
    "view r2 = (case ?u of [] \<Rightarrow> view r1 | e # _ \<Rightarrow>
      (view r1)(queue_stream \<mapsto> RStream (entries_of ?v) ((g, fst e) # groups_of ?v)))"
    using xread_law [OF ok 1(4), of c] unfolding 1(3) by blast
  show ?thesis
  proof (cases ?u)
    case Nil
    with 1 2 show ?thesis
      by (auto simp: redis_dequeue_def andthen_def bind_def ret_def stream_waiting_def)
  next
    case (Cons e es)
    obtain l where l: "map_of (groups_of ?v) g = Some l" using 1(4) by blast
    have "filter (\<lambda>x. l < fst x) (entries_of ?v) = e # es"
      using 1(3) Cons l by (simp add: undelivered_def)
    then have rest: "filter (\<lambda>x. fst e < fst x) (entries_of ?v) = es" "e \<in> set (entries_of ?v)"
      using filter_after_first [of "entries_of ?v" l e es] 1(2) by (simp_all add: stream_inv_def)
    have v: "view r2 queue_stream = Some (RStream (entries_of ?v) ((g, fst e) # groups_of ?v))"
      using 2(2) Cons by simp
    have "stream_inv (view r2)" by (rule stream_inv_same [OF _ _ 1(2)]) (simp_all add: v)
    moreover have w: "stream_waiting g (view r2) = map entry_msg es"
      using rest(1) by (simp add: stream_waiting_def undelivered_def v)
    moreover have "message_of e = Inr \<lparr>message_id = fst e, msg_transaction = fst (snd (entry_msg e)),
        msg_tenant = snd (snd (entry_msg e))\<rparr>"
      using 1(2) rest(2) by (auto simp: stream_inv_def message_of_def payload_uuid_def is_uuid_def entry_msg_def)
    moreover have "\<forall>m \<in> set (map entry_msg es). fst e < fst m"
      using rest(1) by (auto simp: entry_msg_def)
    moreover have w0: "stream_waiting g (view r) = entry_msg e # map entry_msg es"
      using Cons by (simp add: stream_waiting_def)
    moreover have "fst (entry_msg e) = fst e" by (simp add: entry_msg_def)
    ultimately show ?thesis
      using 1(1) 2(1) Cons
      by (simp add: redis_dequeue_def andthen_def bind_def ret_def of_result_def case_prod_unfold)
  qed
qed

lemma acknowledge_effect:
  assumes "stream_inv (view r)"
  shows "\<exists>r'. redis_acknowledge R g i r = (Inr True, r') \<and> stream_inv (view r') \<and>
    stream_waiting g' (view r') = filter (\<lambda>m. fst m \<noteq> i) (stream_waiting g' (view r))"
proof -
  have ok: "stream_ok (view r queue_stream)" using assms by (simp add: stream_inv_def)
  obtain r1 where 1: "redis_xack R queue_stream g i r = (Inr (), r1)" "view r1 = view r"
    using xack_law [OF ok] by blast
  obtain r2 where 2: "redis_xdel R queue_stream i r1 = (Inr (), r2)"
    "view r2 = (if view r queue_stream = None then view r else (view r)(queue_stream \<mapsto>
      RStream (filter (\<lambda>e. fst e \<noteq> i) (entries_of (view r queue_stream))) (groups_of (view r queue_stream))))"
    using xdel_law [of r1 queue_stream i] ok unfolding 1(2) by blast
  have e: "entries_of (view r2 queue_stream) = filter (\<lambda>e. fst e \<noteq> i) (entries_of (view r queue_stream))"
    "groups_of (view r2 queue_stream) = groups_of (view r queue_stream)" "stream_ok (view r2 queue_stream)"
    using ok by (auto simp: 2(2))
  have "sorted_wrt (<) (map fst (filter (\<lambda>e. fst e \<noteq> i) es))" if "sorted_wrt (<) (map fst es)" for es :: "(nat \<times> fields) list"
    using that by (induction es) auto
  then have "stream_inv (view r2)" using assms e by (auto simp: stream_inv_def)
  moreover have "stream_waiting g' (view r2) = filter (\<lambda>m. fst m \<noteq> i) (stream_waiting g' (view r))"
    by (auto simp: stream_waiting_def undelivered_def e filter_map comp_def entry_msg_def conj_commute
        split: option.split)
  ultimately show ?thesis by (simp add: redis_acknowledge_def andthen_def bind_def ret_def 1(1) 2(1))
qed

end

sublocale redis_client \<subseteq> queue: message_queue "redis_queue R" "\<lambda>r. stream_waiting group (view r)" group
  "\<lambda>r. stream_inv (view r)" "\<lambda>r. stream_room (view r)"
  for group
proof
  fix w tx t p c i ms
  assume w: "stream_inv (view w)"
  show "stream_room (view w) \<Longrightarrow> is_uuid tx \<Longrightarrow> is_uuid t \<Longrightarrow> \<exists>i w'. enqueue_transaction (redis_queue R) tx t p w = (Inr True, w') \<and>
      stream_inv (view w') \<and> stream_waiting group (view w') = stream_waiting group (view w) @ [(i, tx, t)]"
    using enqueue_effect [OF w] by (auto simp: redis_queue_def)
  show "stream_waiting group (view w) = [] \<Longrightarrow> \<exists>w'. dequeue_transaction (redis_queue R) group c w = (Inr None, w') \<and>
      stream_inv (view w') \<and> stream_waiting group (view w') = []"
    using dequeue_effect [OF w, of group c] by (auto simp: redis_queue_def)
  show "stream_waiting group (view w) = (i, tx, t) # ms \<Longrightarrow>
      \<exists>w'. dequeue_transaction (redis_queue R) group c w =
          (Inr (Some \<lparr>message_id = i, msg_transaction = tx, msg_tenant = t\<rparr>), w') \<and> stream_inv (view w') \<and>
        stream_waiting group (view w') = ms \<and> i \<notin> fst ` set ms"
    using dequeue_effect [OF w, of group c] by (auto simp: redis_queue_def)
  show "\<exists>w'. acknowledge_transaction (redis_queue R) group i w = (Inr True, w') \<and> stream_inv (view w') \<and>
      stream_waiting group (view w') = filter (\<lambda>m. fst m \<noteq> i) (stream_waiting group (view w))"
    using acknowledge_effect [OF w] by (auto simp: redis_queue_def)
qed

context redis_client
begin

lemma queue_contract:
  fixes group :: string
  shows "message_queue (redis_queue R) (\<lambda>r. stream_waiting group (view r)) group
    (\<lambda>r. stream_inv (view r)) (\<lambda>r. stream_room (view r))"
  by (rule queue.message_queue_axioms)

end

section \<open>Properties\<close>

text \<open>C8: The queue is first in, first out and delivers each message once. From an empty stream, whatever
  producers, the consumers of a group and acknowledgements do in whatever order, as long as the stream
  has room, the messages handed out followed by those still waiting are those enqueued, in order.\<close>

theorem queue_fifo:
  fixes group :: string
  assumes "redis_client R view" "view r0 queue_stream = None"
    and "queue_run (redis_queue R) (\<lambda>r. stream_waiting group (view r)) group (\<lambda>r. stream_room (view r)) r0 es ds r"
  shows "es = ds @ map snd (stream_waiting group (view r))"
proof -
  have i: "stream_inv (view r0)" "stream_waiting group (view r0) = []"
    using assms(2) by (simp_all add: stream_inv_def stream_waiting_def undelivered_def)
  show ?thesis
    using message_queue.fifo [OF redis_client.queue_contract [OF assms(1)] assms(3) i] by blast
qed

theorem queue_fifo_witness:
  "\<exists>r1 r2 r3. redis_enqueue ref_redis uuid_a uuid_b 0 Map.empty = (Inr True, r1) \<and>
     redis_enqueue ref_redis uuid_b uuid_b 5 r1 = (Inr True, r2) \<and>
     redis_dequeue ref_redis ''queries'' ''w'' r2 =
       (Inr (Some \<lparr>message_id = 1, msg_transaction = uuid_a, msg_tenant = uuid_b\<rparr>), r3) \<and>
     map snd (stream_waiting ''queries'' r3) = [(uuid_b, uuid_b)]"
proof -
  let ?e1 = "(1, queue_fields uuid_a uuid_b 0)" and ?e2 = "(Suc 1, queue_fields uuid_b uuid_b 5)"
  define r1 :: keyspace where "r1 = [queue_stream \<mapsto> RStream [?e1] []]"
  define r2 :: keyspace where "r2 = [queue_stream \<mapsto> RStream [?e1, ?e2] []]"
  define r3 :: keyspace where
    "r3 = [queue_stream \<mapsto> RStream [?e1, ?e2] [(''queries'', 1), (''queries'', 0)]]"
  have 1: "redis_enqueue ref_redis uuid_a uuid_b 0 Map.empty = (Inr True, r1)"
    by (simp add: redis_enqueue_def bind_def ret_def ref_redis_def next_id_def trim_def max_length_def r1_def)
  have 2: "redis_enqueue ref_redis uuid_b uuid_b 5 r1 = (Inr True, r2)"
    by (simp add: redis_enqueue_def bind_def ret_def ref_redis_def next_id_def trim_def max_length_def r1_def r2_def)
  have 3: "redis_dequeue ref_redis ''queries'' ''w'' r2 =
      (Inr (Some \<lparr>message_id = 1, msg_transaction = uuid_a, msg_tenant = uuid_b\<rparr>), r3)"
    by (simp add: redis_dequeue_def ensure_group_def andthen_def catch_def bind_def ret_def of_result_def
        ref_redis_def undelivered_def message_of_def payload_uuid_def queue_fields_def r2_def r3_def)
  let ?run = "queue_run (redis_queue ref_redis) (\<lambda>r. stream_waiting ''queries'' r) ''queries'' stream_room Map.empty"
  have "?run [] [] Map.empty" by (rule queue_run.nothing)
  then have "?run ([] @ [(uuid_a, uuid_b)]) [] r1"
    by (rule queue_run.put [where p = 0]) (use 1 in \<open>simp_all add: demo_uuids redis_queue_def stream_room_def max_length_def\<close>)
  then have "?run (([] @ [(uuid_a, uuid_b)]) @ [(uuid_b, uuid_b)]) [] r2"
    by (rule queue_run.put [where p = 5])
      (use 2 in \<open>simp_all add: demo_uuids redis_queue_def stream_room_def max_length_def r1_def\<close>)
  then have "?run (([] @ [(uuid_a, uuid_b)]) @ [(uuid_b, uuid_b)]) ([] @ [(uuid_a, uuid_b)]) r3"
    using queue_run.take [where c = "''w''" and Q = "redis_queue ref_redis" and
        m = "\<lparr>message_id = 1, msg_transaction = uuid_a, msg_tenant = uuid_b\<rparr>"] 3
    by (fastforce simp: redis_queue_def)
  from queue_fifo [OF ref.redis_client_axioms _ this] 1 2 3 show ?thesis by simp
qed

end
