(* ===== verification/Redis_Locks.thy ===== *)
theory Redis_Locks
  imports Redis_Client
begin

text \<open>
  The distributed lock (\<open>infrastructure/lock/redis_lock_service.py\<close>) and the cache
  (\<open>infrastructure/cache/redis_cache_service.py\<close>) over a Redis client; the contract of a lock
  service and the bracket \<open>acquire ... finally release\<close> the use cases are written with.
\<close>

section \<open>The lock service\<close>

definition lock_key :: "string \<Rightarrow> string" where
  "lock_key resource = ''lock:'' @ resource"

text \<open>The script \<open>_RELEASE_SCRIPT\<close>, which Redis runs as one command.\<close>

definition release_script :: "'r redis \<Rightarrow> string \<Rightarrow> string \<Rightarrow> ('r, nat) act" where
  "release_script R k arg =
     bind (redis_get R k) (\<lambda>v. if v = Some arg then redis_del R k else ret 0)"

definition redis_acquire_lock :: "'r redis \<Rightarrow> string \<Rightarrow> string \<Rightarrow> nat \<Rightarrow> ('r, string option) act" where
  "redis_acquire_lock R token resource timeout_seconds =
     bind (redis_set R (lock_key resource) token True (Some timeout_seconds))
       (\<lambda>acquired. ret (if acquired then Some token else None))"

definition redis_release_lock :: "'r redis \<Rightarrow> string \<Rightarrow> string \<Rightarrow> ('r, bool) act" where
  "redis_release_lock R resource token =
     bind (release_script R (lock_key resource) token) (\<lambda>n. ret (n = 1))"

definition redis_extend_lock :: "'r redis \<Rightarrow> string \<Rightarrow> string \<Rightarrow> int \<Rightarrow> ('r, bool) act" where
  "redis_extend_lock R resource token extend_seconds =
     bind (redis_get R (lock_key resource)) (\<lambda>current_value.
       if current_value \<noteq> Some token then ret False
       else bind (redis_ttl R (lock_key resource)) (\<lambda>ttl.
         redis_expire R (lock_key resource) ((if ttl < 0 then 0 else ttl) + extend_seconds)))"

text \<open>\<open>token\<close> is what \<open>secrets.token_urlsafe(16)\<close> returns in the call.\<close>

definition redis_lock_service :: "'r redis \<Rightarrow> string \<Rightarrow> 'r lock_port" where
  "redis_lock_service R token = \<lparr>acquire_lock = redis_acquire_lock R token,
     release_lock = redis_release_lock R\<rparr>"

section \<open>The contract of a lock service\<close>

text \<open>\<open>acquire_lock\<close>, then \<open>try: body finally: release_lock\<close>; without the lock, \<open>refused\<close>.\<close>

definition with_lock ::
  "'w lock_port \<Rightarrow> string \<Rightarrow> nat \<Rightarrow> ('w, 'a) act \<Rightarrow> ('w, 'a) act \<Rightarrow> ('w, 'a) act" where
  "with_lock L res secs refused body =
     bind (acquire_lock L res secs) (\<lambda>t. case t of None \<Rightarrow> refused
       | Some token \<Rightarrow> finally_do body (release_lock L res token))"

locale lock_service =
  fixes L :: "'w lock_port" and holder :: "'w \<Rightarrow> string \<Rightarrow> string option" and ok :: "'w \<Rightarrow> bool"
  assumes acquire_free: "ok w \<Longrightarrow> holder w res = None \<Longrightarrow> \<exists>tok w'. acquire_lock L res n w = (Inr (Some tok), w') \<and>
      ok w' \<and> holder w' = (holder w)(res \<mapsto> tok)"
    and acquire_held: "ok w \<Longrightarrow> holder w res \<noteq> None \<Longrightarrow> \<exists>w'. acquire_lock L res n w = (Inr None, w') \<and>
      ok w' \<and> holder w' = holder w"
    and release_law: "ok w \<Longrightarrow> \<exists>w'. release_lock L res tok w = (Inr (holder w res = Some tok), w') \<and>
      ok w' \<and> holder w' = (if holder w res = Some tok then (holder w)(res := None) else holder w)"
begin

definition lock_frame :: "('w, 'a) act \<Rightarrow> bool" where
  "lock_frame m \<longleftrightarrow> (\<forall>w. ok w \<longrightarrow> ok (snd (m w)) \<and> holder (snd (m w)) = holder w)"

text \<open>The body runs only when nobody held the lock, and the lock is free again afterwards, whether
  the body returned or raised.\<close>

lemma with_lock_free:
  assumes "ok w" "holder w res = None" "lock_frame body"
  shows "\<exists>tok w1 w2. acquire_lock L res n w = (Inr (Some tok), w1) \<and> body w1 = (fst (body w1), w2) \<and>
    fst (with_lock L res n refused body w) = fst (body w1) \<and>
    ok (snd (with_lock L res n refused body w)) \<and> holder (snd (with_lock L res n refused body w)) = holder w"
proof -
  obtain tok w1 where a: "acquire_lock L res n w = (Inr (Some tok), w1)" "ok w1"
    "holder w1 = (holder w)(res \<mapsto> tok)" using acquire_free [OF assms(1,2)] by blast
  obtain r w2 where b: "body w1 = (r, w2)" by force
  with assms(3) a(2,3) have b2: "ok w2" "holder w2 = (holder w)(res \<mapsto> tok)"
    by (auto simp: lock_frame_def dest!: spec [of _ w1])
  obtain w3 where c: "release_lock L res tok w2 = (Inr True, w3)" "ok w3" "holder w3 = (holder w)(res := None)"
    using release_law [OF b2(1), of res tok] b2(2) by auto
  have "with_lock L res n refused body w = (r, w3)"
    by (simp add: with_lock_def bind_def a(1) finally_do_def b c(1))
  moreover have "(holder w)(res := None) = holder w" using assms(2) by (simp add: fun_upd_idem)
  ultimately show ?thesis using a(1) b c by auto
qed

lemma with_lock_held:
  assumes "ok w" "holder w res \<noteq> None"
  shows "\<exists>w1. with_lock L res n refused body w = refused w1 \<and> ok w1 \<and> holder w1 = holder w"
  using acquire_held [OF assms, of n] by (auto simp: with_lock_def bind_def)

lemma with_lock_frame:
  assumes "lock_frame body" "lock_frame refused"
  shows "lock_frame (with_lock L res n refused body)"
  unfolding lock_frame_def
proof (intro allI impI)
  fix w
  assume w: "ok w"
  show "ok (snd (with_lock L res n refused body w)) \<and> holder (snd (with_lock L res n refused body w)) = holder w"
  proof (cases "holder w res = None")
    case True
    then show ?thesis using with_lock_free [OF w True assms(1), of n refused] by blast
  next
    case False
    then show ?thesis
      using with_lock_held [OF w False, of n refused body] assms(2) by (auto simp: lock_frame_def)
  qed
qed

end

section \<open>The lock service meets the contract\<close>

definition locks_typed :: "('r \<Rightarrow> keyspace) \<Rightarrow> 'r \<Rightarrow> bool" where
  "locks_typed view r \<longleftrightarrow> (\<forall>res. str_ok (view r (lock_key res)))"

definition lock_holder :: "('r \<Rightarrow> keyspace) \<Rightarrow> 'r \<Rightarrow> string \<Rightarrow> string option" where
  "lock_holder view r res = str_of_val (view r (lock_key res))"

lemma lock_key_inj [simp]: "lock_key a = lock_key b \<longleftrightarrow> a = b"
  by (simp add: lock_key_def)

lemma str_of_val_None: "str_ok v \<Longrightarrow> str_of_val v = None \<longleftrightarrow> v = None"
  by (cases v rule: str_ok.cases) auto

context redis_client
begin

lemma acquire_effect:
  assumes "locks_typed view r"
  shows "\<exists>r'. redis_acquire_lock R tok res n r =
      (Inr (if lock_holder view r res = None then Some tok else None), r') \<and>
    view r' = (if lock_holder view r res = None then (view r)(lock_key res \<mapsto> RStr tok) else view r)"
proof -
  have t: "str_ok (view r (lock_key res))" using assms by (simp add: locks_typed_def)
  show ?thesis
    using set_law [OF t, of tok True "Some n"] str_of_val_None [OF t]
    by (auto simp: redis_acquire_lock_def bind_def ret_def lock_holder_def)
qed

lemma release_effect:
  assumes "locks_typed view r"
  shows "\<exists>r'. redis_release_lock R res tok r = (Inr (lock_holder view r res = Some tok), r') \<and>
    view r' = (if lock_holder view r res = Some tok then (view r)(lock_key res := None) else view r)"
proof -
  have t: "str_ok (view r (lock_key res))" using assms by (simp add: locks_typed_def)
  obtain r' where d: "redis_del R (lock_key res) r = (Inr (if view r (lock_key res) = None then 0 else 1), r')"
    "view r' = (view r)(lock_key res := None)" using del_law by blast
  show ?thesis
  proof (cases "lock_holder view r res = Some tok")
    case True
    then have "view r (lock_key res) \<noteq> None" by (cases "view r (lock_key res)") (auto simp: lock_holder_def)
    with True d show ?thesis
      by (simp add: redis_release_lock_def release_script_def bind_def ret_def get_law [OF t] lock_holder_def)
  next
    case False
    then show ?thesis
      by (simp add: redis_release_lock_def release_script_def bind_def ret_def get_law [OF t] lock_holder_def)
  qed
qed

lemma typed_upd:
  "locks_typed view r \<Longrightarrow> view r' = (view r)(lock_key res \<mapsto> RStr t) \<Longrightarrow> locks_typed view r'"
  "locks_typed view r \<Longrightarrow> view r' = (view r)(lock_key res := None) \<Longrightarrow> locks_typed view r'"
  by (simp_all add: locks_typed_def)

lemma holder_upd: "view r' = (view r)(lock_key res := x) \<Longrightarrow>
    lock_holder view r' = (lock_holder view r)(res := str_of_val x)"
  by (auto simp: lock_holder_def fun_eq_iff)

lemma same_view: "view r' = view r \<Longrightarrow> lock_holder view r' = lock_holder view r \<and>
    (locks_typed view r' \<longleftrightarrow> locks_typed view r)"
  by (simp add: lock_holder_def [abs_def] locks_typed_def)

end

sublocale redis_client \<subseteq> locks: lock_service "redis_lock_service R tok" "lock_holder view" "locks_typed view"
  for tok
proof
  fix w res n tok'
  assume w: "locks_typed view w"
  show "\<exists>t w'. acquire_lock (redis_lock_service R tok) res n w = (Inr (Some t), w') \<and>
      locks_typed view w' \<and> lock_holder view w' = (lock_holder view w)(res \<mapsto> t)"
    if h: "lock_holder view w res = None"
  proof -
    obtain w' where r: "redis_acquire_lock R tok res n w = (Inr (Some tok), w')"
      "view w' = (view w)(lock_key res \<mapsto> RStr tok)"
      using acquire_effect [OF w, of tok res n] h by auto
    then show ?thesis using typed_upd(1) [OF w r(2)] holder_upd [OF r(2)] by (simp add: redis_lock_service_def)
  qed
  show "\<exists>w'. acquire_lock (redis_lock_service R tok) res n w = (Inr None, w') \<and>
      locks_typed view w' \<and> lock_holder view w' = lock_holder view w"
    if "lock_holder view w res \<noteq> None"
  proof -
    obtain w' where e: "redis_acquire_lock R tok res n w =
        (Inr (if lock_holder view w res = None then Some tok else None), w')"
      "view w' = (if lock_holder view w res = None then (view w)(lock_key res \<mapsto> RStr tok) else view w)"
      using acquire_effect [OF w, of tok res n] by blast
    with that have r: "redis_acquire_lock R tok res n w = (Inr None, w')" "view w' = view w" by auto
    then show ?thesis using w same_view [OF r(2)] by (simp add: redis_lock_service_def)
  qed
  show "\<exists>w'. release_lock (redis_lock_service R tok) res tok' w =
      (Inr (lock_holder view w res = Some tok'), w') \<and> locks_typed view w' \<and>
      lock_holder view w' = (if lock_holder view w res = Some tok'
        then (lock_holder view w)(res := None) else lock_holder view w)"
  proof -
    obtain w' where r: "redis_release_lock R res tok' w = (Inr (lock_holder view w res = Some tok'), w')"
      "view w' = (if lock_holder view w res = Some tok' then (view w)(lock_key res := None) else view w)"
      using release_effect [OF w, of res tok'] by blast
    show ?thesis
    proof (cases "lock_holder view w res = Some tok'")
      case True
      with r have v: "view w' = (view w)(lock_key res := None)" by simp
      show ?thesis using r(1) True typed_upd(2) [OF w v] holder_upd [OF v] by (simp add: redis_lock_service_def)
    next
      case False
      with r have v: "view w' = view w" by simp
      show ?thesis using r(1) False w same_view [OF v] by (simp add: redis_lock_service_def)
    qed
  qed
qed

section \<open>Mutual exclusion\<close>

text \<open>Clients, expiry and the other users of the same Redis, who leave the lock keys alone. The second
  component is what the clients believe they hold: a lock acquired, not released and not expired.\<close>

inductive lock_step ::
  "'r redis \<Rightarrow> ('r \<Rightarrow> keyspace) \<Rightarrow> 'r \<times> (string \<times> string) set \<Rightarrow> 'r \<times> (string \<times> string) set \<Rightarrow> bool"
  for R view where
  acquired: "redis_acquire_lock R tok res n r = (Inr (Some t), r') \<Longrightarrow>
    lock_step R view (r, H) (r', insert (res, t) H)"
| refused: "redis_acquire_lock R tok res n r = (Inr None, r') \<Longrightarrow> lock_step R view (r, H) (r', H)"
| released: "redis_release_lock R res tok r = (Inr b, r') \<Longrightarrow>
    lock_step R view (r, H) (r', if b then H - {(res, tok)} else H)"
| expired: "expires (view r) (view r') \<Longrightarrow>
    lock_step R view (r, H) (r', {(res, tok) \<in> H. lock_holder view r' res = Some tok})"
| others: "\<forall>res. view r' (lock_key res) = view r (lock_key res) \<Longrightarrow> lock_step R view (r, H) (r', H)"

inductive lock_reachable ::
  "'r redis \<Rightarrow> ('r \<Rightarrow> keyspace) \<Rightarrow> 'r \<times> (string \<times> string) set \<Rightarrow> bool" for R view where
  start: "\<forall>res. view r (lock_key res) = None \<Longrightarrow> lock_reachable R view (r, {})"
| step: "lock_reachable R view s \<Longrightarrow> lock_step R view s s' \<Longrightarrow> lock_reachable R view s'"

definition lock_inv :: "('r \<Rightarrow> keyspace) \<Rightarrow> 'r \<times> (string \<times> string) set \<Rightarrow> bool" where
  "lock_inv view s \<longleftrightarrow> locks_typed view (fst s) \<and>
     (\<forall>res tok. (res, tok) \<in> snd s \<longleftrightarrow> lock_holder view (fst s) res = Some tok)"

lemma expires_typed: "expires v v' \<Longrightarrow> str_ok (v k) \<Longrightarrow> str_ok (v' k)"
  by (cases "v' k") (auto simp: expires_def map_le_def dom_def dest!: spec [of _ k])

lemma expires_holder:
  "expires (view r) (view r') \<Longrightarrow> lock_holder view r' res = Some tok \<Longrightarrow> lock_holder view r res = Some tok"
  by (cases "view r' (lock_key res)") (auto simp: expires_def map_le_def lock_holder_def dom_def)

context redis_client
begin

lemma lock_step_inv:
  assumes "lock_step R view s s'" "lock_inv view s"
  shows "lock_inv view s'"
  using assms
proof (induction rule: lock_step.induct)
  case (acquired tok res n r t r' H)
  then have w: "locks_typed view r" by (simp add: lock_inv_def)
  then have f: "lock_holder view r res = None" "t = tok" "view r' = (view r)(lock_key res \<mapsto> RStr tok)"
    using acquire_effect [OF w, of tok res n] acquired.hyps by (auto split: if_splits)
  show ?case
    using acquired.prems typed_upd(1) [OF w f(3)] holder_upd [OF f(3)] f(1,2) by (auto simp: lock_inv_def)
next
  case (refused tok res n r r' H)
  then have w: "locks_typed view r" by (simp add: lock_inv_def)
  then have v: "view r' = view r" using acquire_effect [OF w, of tok res n] refused.hyps by (auto split: if_splits)
  with same_view [OF v] refused.prems show ?case by (simp add: lock_inv_def)
next
  case (released res tok r b r' H)
  then have w: "locks_typed view r" by (simp add: lock_inv_def)
  then have f: "b = (lock_holder view r res = Some tok)"
    "view r' = (if b then (view r)(lock_key res := None) else view r)"
    using release_effect [OF w, of res tok] released.hyps by auto
  show ?case
  proof (cases b)
    case True
    with f have v: "view r' = (view r)(lock_key res := None)" by simp
    show ?thesis
      using released.prems typed_upd(2) [OF w v] holder_upd [OF v] True f(1) by (auto simp: lock_inv_def)
  next
    case False
    with f have v: "view r' = view r" by simp
    with released.prems False same_view [OF v] show ?thesis by (simp add: lock_inv_def)
  qed
next
  case (expired r r' H)
  have "locks_typed view r'"
    using expired.prems expires_typed [OF expired.hyps] by (simp add: lock_inv_def locks_typed_def)
  moreover have "lock_holder view r' res = Some tok \<Longrightarrow> (res, tok) \<in> H" for res tok
    using expired.prems expires_holder [where view = view, OF expired.hyps] by (simp add: lock_inv_def)
  ultimately show ?case by (auto simp: lock_inv_def)
next
  case (others r' r H)
  then show ?case by (simp add: lock_inv_def locks_typed_def lock_holder_def)
qed

lemma lock_reachable_inv: "lock_reachable R view s \<Longrightarrow> lock_inv view s"
proof (induction rule: lock_reachable.induct)
  case (start r)
  then show ?case by (simp add: lock_inv_def locks_typed_def lock_holder_def)
qed (rule lock_step_inv)

end

section \<open>The cache\<close>

text \<open>\<open>dumps\<close> and \<open>loads\<close> are \<open>json.dumps\<close> with \<open>default=str\<close> and \<open>json.loads\<close>.\<close>

definition cache_key :: "string \<Rightarrow> string" where
  "cache_key k = ''cache:'' @ k"

definition redis_cache_set :: "'r redis \<Rightarrow> ('v \<Rightarrow> string) \<Rightarrow> string \<Rightarrow> 'v \<Rightarrow> nat option \<Rightarrow> ('r, bool) act" where
  "redis_cache_set R dumps k v expire_seconds =
     bind (redis_set R (cache_key k) (dumps v) False expire_seconds) (\<lambda>_. ret True)"

definition redis_cache_get :: "'r redis \<Rightarrow> (string \<Rightarrow> 'v) \<Rightarrow> string \<Rightarrow> ('r, 'v option) act" where
  "redis_cache_get R loads k =
     bind (redis_get R (cache_key k)) (\<lambda>raw. ret (map_option loads raw))"

definition redis_cache_delete :: "'r redis \<Rightarrow> string \<Rightarrow> ('r, bool) act" where
  "redis_cache_delete R k = bind (redis_del R (cache_key k)) (\<lambda>_. ret True)"

definition redis_cache_exists :: "'r redis \<Rightarrow> string \<Rightarrow> ('r, bool) act" where
  "redis_cache_exists R k = redis_exists R (cache_key k)"

definition redis_cache_service :: "'r redis \<Rightarrow> ('v \<Rightarrow> string) \<Rightarrow> (string \<Rightarrow> 'v) \<Rightarrow> ('r, 'v) cache_port" where
  "redis_cache_service R dumps loads = \<lparr>cache_set = redis_cache_set R dumps,
     cache_get = redis_cache_get R loads, cache_delete = redis_cache_delete R\<rparr>"

section \<open>Properties\<close>

text \<open>C6: Mutual exclusion. Over every interleaving of acquisitions, releases with any token, expiries and
  other users of the store, the locks the clients hold are exactly those the store records: a resource
  has at most one holder, an acquisition succeeds only when nobody holds the resource, and a release
  succeeds only with the holder's token.\<close>

theorem lock_mutual_exclusion:
  assumes "redis_client R view" "lock_reachable R view (r, H)"
  shows "((res, t1) \<in> H \<and> (res, t2) \<in> H \<longrightarrow> t1 = t2) \<and>
    (fst (redis_acquire_lock R tok res n r) = Inr (Some tok) \<longleftrightarrow> (\<forall>t. (res, t) \<notin> H)) \<and>
    (fst (redis_release_lock R res t1 r) = Inr True \<longleftrightarrow> (res, t1) \<in> H)"
proof -
  have inv: "lock_inv view (r, H)" by (rule redis_client.lock_reachable_inv [OF assms])
  then have w: "locks_typed view r" and H: "(a, t) \<in> H \<longleftrightarrow> lock_holder view r a = Some t" for a t
    by (simp_all add: lock_inv_def)
  have a: "fst (redis_acquire_lock R tok res n r) =
      Inr (if lock_holder view r res = None then Some tok else None)"
    using redis_client.acquire_effect [OF assms(1) w, of tok res n] by auto
  have b: "fst (redis_release_lock R res t1 r) = Inr (lock_holder view r res = Some t1)"
    using redis_client.release_effect [OF assms(1) w, of res t1] by auto
  show ?thesis by (cases "lock_holder view r res") (auto simp: H a b)
qed

theorem lock_mutual_exclusion_witness:
  "\<exists>r. redis_acquire_lock ref_redis ''t1'' ''db'' 10 Map.empty = (Inr (Some ''t1''), r) \<and>
     fst (redis_acquire_lock ref_redis ''t2'' ''db'' 10 r) \<noteq> Inr (Some ''t2'') \<and>
     fst (redis_release_lock ref_redis ''db'' ''t2'' r) \<noteq> Inr True"
proof -
  have a: "redis_acquire_lock ref_redis ''t1'' ''db'' 10 Map.empty =
      (Inr (Some ''t1''), [lock_key ''db'' \<mapsto> RStr ''t1''])"
    by (simp add: redis_acquire_lock_def bind_def ret_def ref_redis_def)
  have "lock_reachable ref_redis (\<lambda>r. r) (Map.empty, {})" by (rule lock_reachable.start) simp
  then have "lock_reachable ref_redis (\<lambda>r. r) ([lock_key ''db'' \<mapsto> RStr ''t1''], {(''db'', ''t1'')})"
    using lock_step.acquired [OF a] by (rule lock_reachable.step)
  from lock_mutual_exclusion [OF ref.redis_client_axioms this] a show ?thesis by simp
qed

end
