(* ===== verification/Query_Catalog.thy ===== *)
theory Query_Catalog
  imports Ports Timestamps Value_Objects "HOL-Library.Product_Lexorder"
begin

text \<open>
  The query catalog (\<open>infrastructure/database/query_catalog_repository.py\<close>): how often each query of a
  database was used, and at most ten favourites. The two tables are lists of rows; a statement is the
  function its SQL text states, rows that an \<open>ORDER BY\<close> leaves tied staying in table order. The unique
  constraint of both tables is the triple of tenant, database and hash.
\<close>

section \<open>Tables\<close>

type_synonym cat_key = "uuid \<times> uuid \<times> string"

record usage_row =
  u_key :: cat_key
  u_text :: string
  u_count :: nat
  u_last :: dt

record favorite_row =
  f_key :: cat_key
  f_text :: string
  f_created :: dt

record catalog =
  usage_rows :: "usage_row list"
  favorite_rows :: "favorite_row list"

definition in_db :: "uuid \<Rightarrow> uuid \<Rightarrow> cat_key \<Rightarrow> bool" where
  "in_db t d k \<longleftrightarrow> fst k = t \<and> fst (snd k) = d"

section \<open>Operations\<close>

definition increment_usage :: "uuid \<Rightarrow> uuid \<Rightarrow> string \<Rightarrow> string \<Rightarrow> dt \<Rightarrow> catalog \<Rightarrow> catalog" where
  "increment_usage t d query_text query_hash used_at c =
     (if list_ex (\<lambda>u. u_key u = (t, d, query_hash)) (usage_rows c)
      then c\<lparr>usage_rows := map (\<lambda>u. if u_key u = (t, d, query_hash)
               then u\<lparr>u_count := u_count u + 1, u_text := query_text, u_last := used_at\<rparr> else u) (usage_rows c)\<rparr>
      else c\<lparr>usage_rows := usage_rows c @
               [\<lparr>u_key = (t, d, query_hash), u_text = query_text, u_count = 1, u_last = used_at\<rparr>]\<rparr>)"

definition is_favorite :: "catalog \<Rightarrow> cat_key \<Rightarrow> bool" where
  "is_favorite c k \<longleftrightarrow> list_ex (\<lambda>f. f_key f = k) (favorite_rows c)"

definition list_most_used :: "uuid \<Rightarrow> uuid \<Rightarrow> nat \<Rightarrow> catalog \<Rightarrow> usage_row list" where
  "list_most_used t d limit c = take limit (py_sorted_desc (\<lambda>u. (u_count u, u_last u))
     (filter (\<lambda>u. in_db t d (u_key u) \<and> \<not> is_favorite c (u_key u)) (usage_rows c)))"

definition count_favorites :: "uuid \<Rightarrow> uuid \<Rightarrow> catalog \<Rightarrow> nat" where
  "count_favorites t d c = length (filter (\<lambda>f. in_db t d (f_key f)) (favorite_rows c))"

definition add_favorite :: "dt \<Rightarrow> uuid \<Rightarrow> uuid \<Rightarrow> string \<Rightarrow> string \<Rightarrow> (catalog, unit) act" where
  "add_favorite now t d query_text query_hash c =
     (if is_favorite c (t, d, query_hash) then (Inr (), c)
      else if 10 \<le> count_favorites t d c
        then (raise BusinessRuleViolation ''Maximum of 10 favorites per database exceeded'', c)
      else (Inr (), c\<lparr>favorite_rows := favorite_rows c @
              [\<lparr>f_key = (t, d, query_hash), f_text = query_text, f_created = now\<rparr>]\<rparr>))"

definition remove_favorite :: "uuid \<Rightarrow> uuid \<Rightarrow> string \<Rightarrow> (catalog, bool) act" where
  "remove_favorite t d query_hash c =
     (Inr (0 < length (filter (\<lambda>f. f_key f = (t, d, query_hash)) (favorite_rows c))),
      c\<lparr>favorite_rows := filter (\<lambda>f. f_key f \<noteq> (t, d, query_hash)) (favorite_rows c)\<rparr>)"

definition list_favorites :: "uuid \<Rightarrow> uuid \<Rightarrow> catalog \<Rightarrow> favorite_row list" where
  "list_favorites t d c = py_sorted_desc f_created (filter (\<lambda>f. in_db t d (f_key f)) (favorite_rows c))"

section \<open>The routes on top\<close>

text \<open>Recording a submitted query (\<open>SubmitAsyncQueryUseCase.execute\<close>) and adding a favourite
  (\<open>queries/routes.py\<close>): the text is normalised and hashed first. A failing record is ignored.\<close>

definition record_query :: "(string \<Rightarrow> string) \<Rightarrow> uuid \<Rightarrow> uuid \<Rightarrow> string \<Rightarrow> dt \<Rightarrow> catalog \<Rightarrow> catalog" where
  "record_query sha t d query now c =
     (case bind_r (QueryText query) (\<lambda>qt. bind_r (from_query_text sha qt 16) (\<lambda>qh. Inr (qt, qh))) of
        Inl _ \<Rightarrow> c | Inr (qt, qh) \<Rightarrow> increment_usage t d qt qh now c)"

section \<open>Steps and the invariant\<close>

inductive catalog_step :: "catalog \<Rightarrow> catalog \<Rightarrow> bool" where
  used: "catalog_step c (increment_usage t d q h now c)"
| added: "add_favorite now t d q h c = (r, c') \<Longrightarrow> catalog_step c c'"
| removed: "remove_favorite t d h c = (r', c') \<Longrightarrow> catalog_step c c'"

inductive_cases catalog_stepE: "catalog_step c c'"

inductive catalog_reachable :: "catalog \<Rightarrow> bool" where
  empty: "catalog_reachable \<lparr>usage_rows = [], favorite_rows = []\<rparr>"
| step: "catalog_reachable c \<Longrightarrow> catalog_step c c' \<Longrightarrow> catalog_reachable c'"

definition catalog_inv :: "catalog \<Rightarrow> bool" where
  "catalog_inv c \<longleftrightarrow> distinct (map u_key (usage_rows c)) \<and> distinct (map f_key (favorite_rows c)) \<and>
     (\<forall>u \<in> set (usage_rows c). 1 \<le> u_count u) \<and> (\<forall>t d. count_favorites t d c \<le> 10)"

lemma increment_usage_keys:
  "map u_key (usage_rows (increment_usage t d q h now c)) =
     (if (t, d, h) \<in> set (map u_key (usage_rows c)) then map u_key (usage_rows c)
      else map u_key (usage_rows c) @ [(t, d, h)])"
proof -
  have "(t, d, h) \<in> set (map u_key (usage_rows c)) \<longleftrightarrow> list_ex (\<lambda>u. u_key u = (t, d, h)) (usage_rows c)"
    by (force simp: list_ex_iff)
  then show ?thesis by (auto simp: increment_usage_def comp_def intro!: map_cong)
qed

lemma increment_usage_frame [frame_simps]:
  "favorite_rows (increment_usage t d q h now c) = favorite_rows c"
  by (simp add: increment_usage_def)

lemma count_favorites_snoc:
  "count_favorites t d (c\<lparr>favorite_rows := favorite_rows c @ [f]\<rparr>) =
     count_favorites t d c + (if in_db t d (f_key f) then 1 else 0)"
  by (simp add: count_favorites_def)

lemma catalog_step_inv: "catalog_step c c' \<Longrightarrow> catalog_inv c \<Longrightarrow> catalog_inv c'"
proof (induction rule: catalog_step.induct)
  case (used c t d q h now)
  have "1 \<le> u_count u" if "u \<in> set (usage_rows (increment_usage t d q h now c))" for u
    using used that by (auto simp: increment_usage_def catalog_inv_def split: if_splits)
  with used show ?case
    by (auto simp: catalog_inv_def increment_usage_keys increment_usage_frame count_favorites_def)
next
  case (added now t d q h c r c')
  show ?case
  proof (cases "is_favorite c (t, d, h) \<or> 10 \<le> count_favorites t d c")
    case True
    with added show ?thesis by (auto simp: add_favorite_def split: if_splits)
  next
    case False
    then have c': "c' = c\<lparr>favorite_rows := favorite_rows c @ [\<lparr>f_key = (t, d, h), f_text = q, f_created = now\<rparr>]\<rparr>"
      using added.hyps by (simp add: add_favorite_def)
    have "count_favorites t' d' c' \<le> 10" for t' d'
      using False added.prems by (auto simp: c' count_favorites_snoc in_db_def catalog_inv_def)
    moreover have "(t, d, h) \<notin> f_key ` set (favorite_rows c)"
      using False by (auto simp: is_favorite_def list_ex_iff)
    ultimately show ?thesis using added.prems by (simp add: c' catalog_inv_def)
  qed
next
  case (removed t d h c r' c')
  have "length (filter P (filter Q xs)) \<le> length (filter P xs)" for P Q and xs :: "favorite_row list"
    by (induction xs) auto
  then have le: "count_favorites t' d' c' \<le> count_favorites t' d' c" for t' d'
    using removed.hyps by (auto simp: remove_favorite_def count_favorites_def)
  have "count_favorites t' d' c' \<le> 10" for t' d'
    using le [of t' d'] removed.prems by (meson catalog_inv_def order_trans)
  with removed show ?case by (auto simp: remove_favorite_def catalog_inv_def distinct_map_filter)
qed

lemma catalog_reachable_inv: "catalog_reachable c \<Longrightarrow> catalog_inv c"
proof (induction rule: catalog_reachable.induct)
  case empty
  then show ?case by (simp add: catalog_inv_def count_favorites_def)
qed (rule catalog_step_inv)

section \<open>Counting\<close>

definition uses_of :: "catalog \<Rightarrow> cat_key \<Rightarrow> nat" where
  "uses_of c k = (case List.find (\<lambda>u. u_key u = k) (usage_rows c) of Some u \<Rightarrow> u_count u | None \<Rightarrow> 0)"

lemma uses_increment:
  "uses_of (increment_usage t d q h now c) k = uses_of c k + (if k = (t, d, h) then 1 else 0)"
proof (cases "list_ex (\<lambda>u. u_key u = (t, d, h)) (usage_rows c)")
  case True
  let ?f = "\<lambda>u. if u_key u = (t, d, h) then u\<lparr>u_count := u_count u + 1, u_text := q, u_last := now\<rparr> else u"
  have m: "List.find (\<lambda>u. u_key u = k) (map ?f (usage_rows c)) =
      map_option ?f (List.find (\<lambda>u. u_key u = k) (usage_rows c))"
    by (rule find_map_upd) simp
  have e: "usage_rows (increment_usage t d q h now c) = map ?f (usage_rows c)"
    using True by (simp add: increment_usage_def)
  show ?thesis
  proof (cases "List.find (\<lambda>u. u_key u = k) (usage_rows c)")
    case None
    with True have "k \<noteq> (t, d, h)" by (auto simp: find_None_iff' list_ex_iff)
    with None show ?thesis unfolding uses_of_def e m by simp
  next
    case (Some u)
    then have "u_key u = k" by (auto dest: find_SomeD)
    with Some show ?thesis unfolding uses_of_def e m by simp
  qed
next
  case False
  then have none: "List.find (\<lambda>u. u_key u = (t, d, h)) (usage_rows c) = None"
    by (auto simp: find_None_iff' list_ex_iff)
  have "List.find P (xs @ [y]) = (case List.find P xs of Some x \<Rightarrow> Some x
      | None \<Rightarrow> if P y then Some y else None)" for P and xs :: "usage_row list" and y
    by (induction xs) auto
  with False none show ?thesis by (auto simp: uses_of_def increment_usage_def split: option.splits)
qed

fun record_all :: "(string \<Rightarrow> string) \<Rightarrow> uuid \<Rightarrow> uuid \<Rightarrow> (string \<times> dt) list \<Rightarrow> catalog \<Rightarrow> catalog" where
  "record_all sha t d [] c = c"
| "record_all sha t d ((q, now) # qs) c = record_all sha t d qs (record_query sha t d q now c)"

definition same_query :: "(string \<Rightarrow> string) \<Rightarrow> string \<Rightarrow> string \<Rightarrow> bool" where
  "same_query sha h q \<longleftrightarrow> (\<exists>t. QueryText q = Inr t \<and> take 16 (sha t) = h)"

lemma record_query_uses:
  assumes "hex_digest sha"
  shows "uses_of (record_query sha t d q now c) (t, d, h) =
    uses_of c (t, d, h) + (if same_query sha h q then 1 else 0)"
proof (cases "QueryText q")
  case (Inl e)
  then show ?thesis by (simp add: record_query_def same_query_def)
next
  case (Inr qt)
  then show ?thesis
    using from_query_text_total [OF assms, of 16 qt]
    by (auto simp: record_query_def same_query_def uses_increment)
qed

lemma record_all_uses:
  "hex_digest sha \<Longrightarrow> uses_of (record_all sha t d qs c) (t, d, h) =
     uses_of c (t, d, h) + length (filter (\<lambda>p. same_query sha h (fst p)) qs)"
  by (induction qs arbitrary: c) (auto simp: record_query_uses)

section \<open>Properties\<close>

text \<open>C23: Over every history of uses, additions and removals, a database has at most ten favourites, no
  query is stored twice in either table, and the favourites listed are all of the database's, the most
  recent first; adding one succeeds exactly when it is there already or fewer than ten are.\<close>

theorem favorites_capped:
  assumes "catalog_reachable c"
  shows "length (list_favorites t d c) \<le> 10 \<and> distinct (map f_key (favorite_rows c)) \<and>
    distinct (map u_key (usage_rows c)) \<and>
    set (list_favorites t d c) = {f \<in> set (favorite_rows c). in_db t d (f_key f)} \<and>
    sorted_wrt (\<lambda>x y. f_created y \<le> f_created x) (list_favorites t d c) \<and>
    (is_ok (fst (add_favorite now t d q h c)) \<longleftrightarrow>
      is_favorite c (t, d, h) \<or> length (list_favorites t d c) < 10)"
proof -
  have len: "length (list_favorites t d c) = count_favorites t d c"
    by (simp add: list_favorites_def count_favorites_def)
  with catalog_reachable_inv [OF assms] show ?thesis
    by (auto simp: catalog_inv_def add_favorite_def not_le list_favorites_def sorted_wrt_py_sorted_desc)
qed

theorem favorites_capped_witness:
  "\<exists>c. catalog_reachable c \<and> length (list_favorites ''t'' ''d'' c) \<le> 10 \<and> is_favorite c (''t'', ''d'', ''h'')"
proof -
  let ?e = "\<lparr>usage_rows = [], favorite_rows = []\<rparr>"
  let ?c = "snd (add_favorite (DT 2025 1 1 0 0 0 0) ''t'' ''d'' ''MATCH'' ''h'' ?e)"
  have "catalog_reachable ?c"
    by (rule catalog_reachable.step [OF catalog_reachable.empty], rule catalog_step.added)
      (rule prod.collapse [symmetric])
  moreover have "is_favorite ?c (''t'', ''d'', ''h'')"
    by (simp add: add_favorite_def is_favorite_def count_favorites_def)
  ultimately show ?thesis using favorites_capped [of ?c "''t''" "''d''"] by blast
qed



text \<open>The popular queries: what is listed and what is left out.\<close>

lemma most_used_spec:
  fixes t d :: uuid and c :: catalog and limit :: nat
  defines "eligible \<equiv> {u \<in> set (usage_rows c). in_db t d (u_key u) \<and> \<not> is_favorite c (u_key u)}"
    and "listed \<equiv> list_most_used t d limit c"
  shows "set listed \<subseteq> eligible \<and> length listed \<le> limit \<and>
    sorted_wrt (\<lambda>x y. (u_count y, u_last y) \<le> (u_count x, u_last x)) listed \<and>
    (\<forall>u \<in> eligible. u \<in> set listed \<or>
      length listed = limit \<and> (\<forall>v \<in> set listed. (u_count u, u_last u) \<le> (u_count v, u_last v)))"
proof -
  let ?key = "\<lambda>u. (u_count u, u_last u)"
  define every where "every = py_sorted_desc ?key
    (filter (\<lambda>u. in_db t d (u_key u) \<and> \<not> is_favorite c (u_key u)) (usage_rows c))"
  define rest where "rest = drop limit every"
  have listed: "listed = take limit every" by (simp add: listed_def list_most_used_def every_def)
  have split: "listed @ rest = every" by (simp add: listed rest_def)
  have set: "set listed \<union> set rest = eligible"
    using split by (auto simp: eligible_def every_def simp flip: set_append)
  have "sorted_wrt (\<lambda>x y. ?key y \<le> ?key x) (listed @ rest)"
    unfolding split every_def by (rule sorted_wrt_py_sorted_desc)
  then have sorted: "sorted_wrt (\<lambda>x y. ?key y \<le> ?key x) listed"
    "\<And>v u. v \<in> set listed \<Longrightarrow> u \<in> set rest \<Longrightarrow> ?key u \<le> ?key v"
    by (simp_all only: sorted_wrt_append)
  have full: "length listed = limit" if "u \<in> set rest" for u
    using that by (cases "limit < length every") (auto simp: listed rest_def)
  have "length listed \<le> limit" by (simp add: listed)
  with set sorted full show ?thesis by blast
qed

end
