(* ===== verification/Query_Service.thy ===== *)
theory Query_Service
  imports Transactions Message_Queue Redis_Locks Query_Catalog
begin

text \<open>
  The use cases around a query transaction, over their ports: submission, cancellation, status,
  results, statistics and listing (\<open>application/usecases/submit_async_query.py\<close>, \<open>cancel_query.py\<close>,
  \<open>get_query_status.py\<close>, \<open>get_query_results.py\<close>, \<open>get_query_statistics.py\<close>,
  \<open>list_query_transactions.py\<close>).
\<close>

section \<open>Submission\<close>

record submit_request =
  sr_tenant :: uuid
  sr_database :: uuid
  sr_query :: string
  sr_parameters :: string
  sr_timeout :: nat
  sr_priority :: nat

text \<open>\<open>tx_id\<close> is the fresh UUID; \<open>record_use\<close> is the catalog's \<open>increment_usage\<close>, when there is one.\<close>

definition catalog_usage ::
  "(string \<Rightarrow> string) \<Rightarrow> (uuid \<Rightarrow> uuid \<Rightarrow> string \<Rightarrow> string \<Rightarrow> ('w, unit) act) \<Rightarrow> submit_request \<Rightarrow> ('w, unit) act" where
  "catalog_usage sha record_use req =
     bind (of_result (QueryText (sr_query req))) (\<lambda>qt.
       bind (of_result (from_query_text sha qt 16)) (\<lambda>qh.
         record_use (sr_tenant req) (sr_database req) qt qh))"

definition submit_query ::
  "'w queue_port \<Rightarrow> 'w tx_port \<Rightarrow> (string \<Rightarrow> string) \<Rightarrow>
   (uuid \<Rightarrow> uuid \<Rightarrow> string \<Rightarrow> string \<Rightarrow> ('w, unit) act) option \<Rightarrow> string \<Rightarrow> uuid \<Rightarrow> submit_request \<Rightarrow> ('w, uuid) act" where
  "submit_query Q T sha record_use now tx_id req =
     andthen (save_transaction T now \<lparr>td_id = tx_id, td_tenant = sr_tenant req, td_database = sr_database req,
         td_query = sr_query req, td_parameters = sr_parameters req, td_status = PENDING,
         td_timeout = sr_timeout req\<rparr>)
       (andthen (case record_use of None \<Rightarrow> ret ()
                 | Some u \<Rightarrow> catch (catalog_usage sha u req) (\<lambda>_. ret ()))
         (andthen (enqueue_transaction Q tx_id (sr_tenant req) (sr_priority req)) (ret tx_id)))"

section \<open>Cancellation\<close>

definition field :: "fields \<Rightarrow> string \<Rightarrow> string option" where
  "field tx k = map_of tx k"

definition cancel_lock :: "uuid \<Rightarrow> string" where
  "cancel_lock tx_id = ''transaction:'' @ tx_id"

definition cancel_body ::
  "'w tx_port \<Rightarrow> ('w, 'v) cache_port \<Rightarrow> 'w event_port \<Rightarrow> string \<Rightarrow> uuid \<Rightarrow> uuid \<Rightarrow> ('w, bool) act" where
  "cancel_body T C E now t tx_id =
     andthen (update_status T now tx_id FAILED 0 (Some ''Cancelled by user''))
       (andthen (cache_delete C (''tx_status:'' @ tx_id))
         (andthen (cache_delete C (''tx_results:'' @ tx_id))
           (andthen (emit E t ''query_cancelled'' ''Query Cancelled'' ''Query execution has been cancelled''
               [(''transaction_id'', tx_id)])
             (ret True))))"

definition cancel_query ::
  "'w authz_port \<Rightarrow> 'w lock_port \<Rightarrow> 'w tx_port \<Rightarrow> ('w, 'v) cache_port \<Rightarrow> 'w event_port \<Rightarrow> string \<Rightarrow>
   uuid \<Rightarrow> uuid \<Rightarrow> ('w, bool) act" where
  "cancel_query A L T C E now t tx_id =
     andthen (require A t ''query'' ''cancel'' ''Not authorized to cancel queries'')
       (bind (find_by_id T tx_id) (\<lambda>tx. case tx of
            None \<Rightarrow> ret False
          | Some f \<Rightarrow>
              if field f ''tenant_id'' \<noteq> Some t then ret False
              else if field f ''status'' \<notin> {Some (tx_value PENDING), Some (tx_value RUNNING)} then ret False
              else with_lock L (cancel_lock tx_id) 5
                     (throw RuntimeError ''Could not acquire lock for transaction'')
                     (cancel_body T C E now t tx_id)))"

section \<open>Reading\<close>

text \<open>A cached record is used when it is not empty and names the tenant.\<close>

definition get_query_status ::
  "'w authz_port \<Rightarrow> ('w, fields) cache_port \<Rightarrow> 'w tx_port \<Rightarrow> uuid \<Rightarrow> uuid \<Rightarrow> ('w, fields option) act" where
  "get_query_status A C T t tx_id =
     andthen (require A t ''query'' ''read'' ''Not authorized to read query status'')
       (bind (cache_get C (''tx_status:'' @ tx_id)) (\<lambda>cached.
          case cached of
            Some c \<Rightarrow> if c \<noteq> [] \<and> field c ''tenant_id'' = Some t then ret (Some c)
                      else bind (find_by_id T tx_id) (\<lambda>tx. case tx of None \<Rightarrow> ret None
                        | Some f \<Rightarrow> if field f ''tenant_id'' \<noteq> Some t
                            then throw PermissionError ''Transaction does not belong to tenant''
                            else andthen (cache_set C (''tx_status:'' @ tx_id) f (Some 60)) (ret (Some f)))
          | None \<Rightarrow> bind (find_by_id T tx_id) (\<lambda>tx. case tx of None \<Rightarrow> ret None
              | Some f \<Rightarrow> if field f ''tenant_id'' \<noteq> Some t
                  then throw PermissionError ''Transaction does not belong to tenant''
                  else andthen (cache_set C (''tx_status:'' @ tx_id) f (Some 60)) (ret (Some f)))))"

definition get_query_results ::
  "'w authz_port \<Rightarrow> ('w, 'v) cache_port \<Rightarrow> 'w tx_port \<Rightarrow> uuid \<Rightarrow> uuid \<Rightarrow> ('w, 'v option) act" where
  "get_query_results A C T t tx_id =
     andthen (require A t ''query'' ''read'' ''Not authorized to read query results'')
       (bind (find_by_id T tx_id) (\<lambda>tx. case tx of
            None \<Rightarrow> ret None
          | Some f \<Rightarrow>
              if field f ''tenant_id'' \<noteq> Some t
              then throw PermissionError ''Transaction does not belong to tenant''
              else if field f ''status'' \<noteq> Some (tx_value COMPLETED)
              then throw ValueError (''Query not completed. Status: '' @
                     (case field f ''status'' of None \<Rightarrow> ''None'' | Some st \<Rightarrow> st))
              else cache_get C (''tx_results:'' @ tx_id)))"

definition list_query_transactions ::
  "'w authz_port \<Rightarrow> 'w tx_port \<Rightarrow> uuid \<Rightarrow> nat \<Rightarrow> nat \<Rightarrow> ('w, fields list) act" where
  "list_query_transactions A T t limit offset =
     andthen (require A t ''query'' ''list'' ''Not authorized to list transactions'')
       (find_by_tenant T t limit offset)"

section \<open>Statistics\<close>

record query_stats =
  total_queries :: nat
  completed_queries :: nat
  failed_queries :: nat
  pending_queries :: nat
  running_queries :: nat
  success_rate :: rat
  average_time :: rat

definition count_status :: "tx_status \<Rightarrow> fields list \<Rightarrow> nat" where
  "count_status st txs = length (filter (\<lambda>f. field f ''status'' = Some (tx_value st)) txs)"

text \<open>\<open>seconds s e\<close> is what subtracting the two ISO times gives, \<open>None\<close> when it raises; \<open>round2\<close> is
  \<open>round(x, 2)\<close>.\<close>

fun exec_times :: "(string \<Rightarrow> string \<Rightarrow> rat option) \<Rightarrow> fields list \<Rightarrow> rat list" where
  "exec_times seconds [] = []"
| "exec_times seconds (f # fs) =
     (if field f ''status'' = Some (tx_value COMPLETED)
      then (case (field f ''started_at'', field f ''completed_at'') of
          (Some s, Some e) \<Rightarrow>
            if s = [] \<or> e = [] then exec_times seconds fs
            else (case seconds s e of None \<Rightarrow> exec_times seconds fs | Some x \<Rightarrow> x # exec_times seconds fs)
        | _ \<Rightarrow> exec_times seconds fs)
      else exec_times seconds fs)"

definition statistics_of ::
  "(string \<Rightarrow> string \<Rightarrow> rat option) \<Rightarrow> (rat \<Rightarrow> rat) \<Rightarrow> fields list \<Rightarrow> query_stats" where
  "statistics_of seconds round2 txs =
     (let total = length txs; completed = count_status COMPLETED txs; times = exec_times seconds txs
      in \<lparr>total_queries = total, completed_queries = completed, failed_queries = count_status FAILED txs,
          pending_queries = count_status PENDING txs, running_queries = count_status RUNNING txs,
          success_rate = (if 0 < total then of_nat completed / of_nat total * 100 else 0),
          average_time = (if times = [] then 0 else round2 (sum_list times / of_nat (length times)))\<rparr>)"

definition get_query_statistics ::
  "'w authz_port \<Rightarrow> ('w, query_stats) cache_port \<Rightarrow> 'w tx_port \<Rightarrow> (string \<Rightarrow> string \<Rightarrow> rat option) \<Rightarrow>
   (rat \<Rightarrow> rat) \<Rightarrow> uuid \<Rightarrow> ('w, query_stats) act" where
  "get_query_statistics A C T seconds round2 t =
     andthen (require A t ''query'' ''read'' ''Not authorized to read statistics'')
       (bind (cache_get C (''stats:'' @ t)) (\<lambda>cached. case cached of
            Some c \<Rightarrow> ret c
          | None \<Rightarrow> bind (find_by_tenant T t 1000 0) (\<lambda>txs.
              let stats = statistics_of seconds round2 txs
              in andthen (cache_set C (''stats:'' @ t) stats (Some 300)) (ret stats))))"

section \<open>Lemmas\<close>

text \<open>A port that leaves the repository's table alone.\<close>

definition tab_frame :: "('w \<Rightarrow> tx_table) \<Rightarrow> ('w \<Rightarrow> bool) \<Rightarrow> ('w, 'a) act \<Rightarrow> bool" where
  "tab_frame tab ok m \<longleftrightarrow> (\<forall>w. ok w \<longrightarrow> ok (snd (m w)) \<and> tab (snd (m w)) = tab w)"

lemma tab_frameD: "tab_frame tab ok m \<Longrightarrow> ok w \<Longrightarrow> m w = (r, w') \<Longrightarrow> ok w' \<and> tab w' = tab w"
  by (auto simp: tab_frame_def dest!: spec [of _ w])

lemma tab_frame_ret [simp]: "tab_frame tab ok (ret x)" "tab_frame tab ok (throw k m)"
  "tab_frame tab ok (of_result r)"
  by (simp_all add: tab_frame_def exec_simps)

lemma tab_frame_bind:
  assumes "tab_frame tab ok m" "\<And>x. tab_frame tab ok (f x)"
  shows "tab_frame tab ok (bind m f)"
  unfolding tab_frame_def
proof (intro allI impI)
  fix w
  assume "ok w"
  obtain r w' where m: "m w = (r, w')" by force
  with tab_frameD [OF assms(1) \<open>ok w\<close> m] assms(2)
  show "ok (snd (bind m f w)) \<and> tab (snd (bind m f w)) = tab w"
    by (cases r) (auto simp: bind_def tab_frame_def)
qed

lemma tab_frame_andthen: "tab_frame tab ok m \<Longrightarrow> tab_frame tab ok k \<Longrightarrow> tab_frame tab ok (andthen m k)"
  by (simp add: andthen_def tab_frame_bind)

lemma tab_frame_catch:
  assumes "tab_frame tab ok m" "\<And>e. tab_frame tab ok (h e)"
  shows "tab_frame tab ok (catch m h)"
  unfolding tab_frame_def
proof (intro allI impI)
  fix w
  assume "ok w"
  obtain r w' where m: "m w = (r, w')" by force
  with tab_frameD [OF assms(1) \<open>ok w\<close> m] assms(2)
  show "ok (snd (catch m h w)) \<and> tab (snd (catch m h w)) = tab w"
    by (cases r) (auto simp: catch_def tab_frame_def)
qed

lemma tab_frame_finally:
  assumes "tab_frame tab ok m" "tab_frame tab ok f"
  shows "tab_frame tab ok (finally_do m f)"
  unfolding tab_frame_def
proof (intro allI impI)
  fix w
  assume "ok w"
  obtain r w' where m: "m w = (r, w')" by force
  obtain r' w'' where f: "f w' = (r', w'')" by force
  show "ok (snd (finally_do m f w)) \<and> tab (snd (finally_do m f w)) = tab w"
    using tab_frameD [OF assms(1) \<open>ok w\<close> m] tab_frameD [OF assms(2) _ f] m f
    by (cases r') (auto simp: finally_do_def)
qed

lemma count_status_le: "count_status st txs \<le> length txs"
  by (simp add: count_status_def)

lemma count_status_sum:
  "list_all (\<lambda>f. \<exists>st. field f ''status'' = Some (tx_value st)) txs \<Longrightarrow>
     count_status PENDING txs + count_status RUNNING txs + count_status COMPLETED txs +
     count_status FAILED txs + count_status TIMEOUT txs = length txs"
proof (induction txs)
  case (Cons f fs)
  then obtain st where "field f ''status'' = Some (tx_value st)" by auto
  with Cons show ?case by (cases st) (simp_all add: count_status_def)
qed (simp add: count_status_def)

section \<open>Properties\<close>

text \<open>C18: A submission saves the transaction as pending under its fresh id and puts it at the end of the
  queue, once, whether or not the query could be recorded in the catalog; nothing else in the
  repository or the queue changes.\<close>

theorem submit_saves_and_enqueues:
  assumes "transaction_repository T tab ok" "message_queue Q waiting grp okq room"
    and "\<forall>n x w. waiting (snd (save_transaction T n x w)) = waiting w \<and>
      okq (snd (save_transaction T n x w)) = okq w \<and> room (snd (save_transaction T n x w)) = room w"
    and "\<forall>a b p w. tab (snd (enqueue_transaction Q a b p w)) = tab w"
    and "\<forall>u. record_use = Some u \<longrightarrow> (\<forall>a b c d w. waiting (snd (u a b c d w)) = waiting w \<and>
      okq (snd (u a b c d w)) = okq w \<and> room (snd (u a b c d w)) = room w \<and> tab (snd (u a b c d w)) = tab w)"
    and "ok w" "okq w" "room w" "is_uuid tx_id" "is_uuid (sr_tenant req)" "tab w tx_id = None"
  shows "\<exists>i w'. submit_query Q T sha record_use now tx_id req w = (Inr tx_id, w') \<and>
    waiting w' = waiting w @ [(i, tx_id, sr_tenant req)] \<and>
    status_of (tab w') tx_id = Some ''pending'' \<and> (\<forall>j. j \<noteq> tx_id \<longrightarrow> tab w' j = tab w j)"
proof -
  define x where "x = \<lparr>td_id = tx_id, td_tenant = sr_tenant req, td_database = sr_database req,
    td_query = sr_query req, td_parameters = sr_parameters req, td_status = PENDING, td_timeout = sr_timeout req\<rparr>"
  obtain w1 where 1: "save_transaction T now x w = (Inr tx_id, w1)" "tab w1 = (tab w)(tx_id \<mapsto> map_of (tx_fields now x))"
    using transaction_repository.save_law [OF assms(1), of w x now] assms(6,9-11) by (auto simp: x_def)
  have q1: "waiting w1 = waiting w" "okq w1" "room w1"
    using assms(3) [rule_format, of now x w] assms(7,8) 1(1) by auto
  obtain w2 where 2: "(case record_use of None \<Rightarrow> ret () | Some u \<Rightarrow> catch (catalog_usage sha u req) (\<lambda>_. ret ())) w1 =
      (Inr (), w2)" "waiting w2 = waiting w" "okq w2" "room w2" "tab w2 = tab w1"
  proof (cases record_use)
    case None
    then show thesis using that [of w1] q1 by (simp add: ret_def)
  next
    case (Some u)
    obtain r w2 where c: "catalog_usage sha u req w1 = (r, w2)" by force
    have "waiting w2 = waiting w1 \<and> okq w2 = okq w1 \<and> room w2 = room w1 \<and> tab w2 = tab w1"
    proof (cases "\<exists>qt qh. QueryText (sr_query req) = Inr qt \<and> from_query_text sha qt 16 = Inr qh")
      case True
      then obtain qt qh where "QueryText (sr_query req) = Inr qt" "from_query_text sha qt 16 = Inr qh" by blast
      then have "w2 = snd (u (sr_tenant req) (sr_database req) qt qh w1)"
        using c by (simp add: catalog_usage_def bind_def of_result_def)
      with assms(5) Some show ?thesis by blast
    next
      case False
      then have "w2 = w1"
        using c by (auto simp: catalog_usage_def bind_def of_result_def split: sum.splits)
      then show ?thesis by simp
    qed
    moreover have "(case record_use of None \<Rightarrow> ret () | Some u \<Rightarrow> catch (catalog_usage sha u req) (\<lambda>_. ret ())) w1 =
        (Inr (), w2)"
      using c Some by (cases r) (simp_all add: catch_def ret_def)
    ultimately show thesis using that q1 by simp
  qed
  obtain i w3 where 3: "enqueue_transaction Q tx_id (sr_tenant req) (sr_priority req) w2 = (Inr True, w3)"
    "waiting w3 = waiting w2 @ [(i, tx_id, sr_tenant req)]"
    using message_queue.enqueue_law [OF assms(2) 2(3,4) assms(9,10)] by blast
  have "tab w3 = tab w2" using assms(4) 3(1) by (metis snd_conv)
  moreover have "submit_query Q T sha record_use now tx_id req w = (Inr tx_id, w3)"
    using 1(1) 2(1) 3(1) by (simp add: submit_query_def andthen_def bind_def ret_def x_def)
  moreover have "map_of (tx_fields now x) ''status'' = Some ''pending''" by (simp add: tx_fields_def x_def)
  ultimately show ?thesis using 1(2) 2(2,5) 3(2) by (auto simp: status_of_def)
qed

text \<open>One Redis holds the transactions and the queue.\<close>

lemma ref_save_frame:
  "fst (redis_save_transaction ref_redis n x w) = Inr (td_id x) \<and>
   snd (redis_save_transaction ref_redis n x w) queue_stream = w queue_stream"
  by (simp add: redis_save_transaction_def andthen_def bind_def ret_def guard_do_def ref_redis_def
      tx_key_def tenant_set_def running_set_def queue_stream_def)

lemma ref_enqueue_frame: "tx_tab (snd (redis_enqueue ref_redis a b p w)) = tx_tab w"
  by (rule tx_inv_cong(1))
    (simp add: redis_enqueue_def bind_def ret_def ref_redis_def queue_stream_def)

theorem submit_saves_and_enqueues_witness:
  "\<exists>i w'. submit_query (redis_queue ref_redis) (redis_tx_repository ref_redis) (\<lambda>_. []) None ''t0'' uuid_b
     \<lparr>sr_tenant = uuid_a, sr_database = uuid_a, sr_query = ''CREATE (n)'', sr_parameters = ''{}'',
      sr_timeout = 30, sr_priority = 0\<rparr> Map.empty = (Inr uuid_b, w') \<and>
     stream_waiting ''queries'' w' = [(i, uuid_b, uuid_a)] \<and> status_of (tx_tab w') uuid_b = Some ''pending''"
proof -
  note u = demo_uuids
  have e: "stream_waiting ''queries'' Map.empty = []" by (simp add: stream_waiting_def undelivered_def)
  have "\<exists>i w'. submit_query (redis_queue ref_redis) (redis_tx_repository ref_redis) (\<lambda>_. []) None ''t0'' uuid_b
     \<lparr>sr_tenant = uuid_a, sr_database = uuid_a, sr_query = ''CREATE (n)'', sr_parameters = ''{}'',
      sr_timeout = 30, sr_priority = 0\<rparr> Map.empty = (Inr uuid_b, w') \<and>
     stream_waiting ''queries'' w' = stream_waiting ''queries'' Map.empty @ [(i, uuid_b, sr_tenant
       \<lparr>sr_tenant = uuid_a, sr_database = uuid_a, sr_query = ''CREATE (n)'', sr_parameters = ''{}'',
        sr_timeout = 30, sr_priority = 0\<rparr>)] \<and>
     status_of (tx_tab w') uuid_b = Some ''pending'' \<and> (\<forall>j. j \<noteq> uuid_b \<longrightarrow> tx_tab w' j = tx_tab Map.empty j)"
  proof (rule submit_saves_and_enqueues [where grp = "''queries''" and ok = tx_inv and okq = stream_inv
        and room = stream_room and w = Map.empty])
    show "transaction_repository (redis_tx_repository ref_redis) tx_tab tx_inv"
      by (rule ref.transactions.transaction_repository_axioms)
    show "message_queue (redis_queue ref_redis) (stream_waiting ''queries'') ''queries'' stream_inv stream_room"
      by (rule ref.queue_contract)
    show "\<forall>n x w. stream_waiting ''queries'' (snd (save_transaction (redis_tx_repository ref_redis) n x w)) =
        stream_waiting ''queries'' w \<and>
      stream_inv (snd (save_transaction (redis_tx_repository ref_redis) n x w)) = stream_inv w \<and>
      stream_room (snd (save_transaction (redis_tx_repository ref_redis) n x w)) = stream_room w"
      by (simp add: redis_tx_repository_def stream_waiting_def stream_inv_def stream_room_def
          ref_save_frame [THEN conjunct2])
    show "\<forall>a b p w. tx_tab (snd (enqueue_transaction (redis_queue ref_redis) a b p w)) = tx_tab w"
      by (simp add: redis_queue_def ref_enqueue_frame)
    show "tx_inv Map.empty" by (rule tx_inv_start) simp
    show "stream_inv Map.empty" "stream_room Map.empty"
      by (simp_all add: stream_inv_def stream_room_def max_length_def)
    show "tx_tab Map.empty uuid_b = None" by (simp add: tx_tab_def)
  qed (use u in simp_all)
  then show ?thesis unfolding e by auto
qed


text \<open>Ports that hold one transaction.\<close>

definition one_tx :: "fields \<Rightarrow> unit tx_port" where
  "one_tx f = \<lparr>save_transaction = \<lambda>n x. ret (td_id x), find_by_id = \<lambda>i. ret (Some f),
     find_by_tenant = \<lambda>t l k. ret [f], find_running_transactions = ret [],
     update_status = \<lambda>n i st k e. ret True\<rparr>"

definition no_cache :: "(unit, 'v) cache_port" where
  "no_cache = \<lparr>cache_set = \<lambda>k v e. ret True, cache_get = \<lambda>k. ret None, cache_delete = \<lambda>k. ret True\<rparr>"

definition unit_locks :: "unit lock_port" where
  "unit_locks = \<lparr>acquire_lock = \<lambda>r n. ret (Some ''tok''), release_lock = \<lambda>r t. ret True\<rparr>"

definition no_events :: "'w event_port" where
  "no_events = \<lparr>emit = \<lambda>t e h m f. ret ()\<rparr>"


end
