(* ===== verification/Query_Worker.thy ===== *)
theory Query_Worker
  imports Query_Service WAL_Files
begin

text \<open>
  The worker that takes transactions from the queue and runs them
  (\<open>infrastructure/workers/query_worker.py\<close>), and the adapter that runs a query on the Kuzu engine
  (\<open>infrastructure/kuzu/kuzu_query_execution_adapter.py\<close>), whose engine is a parameter. A run of
  \<open>run_once\<close> is given the texts of the times at which it would write each status, and the WAL time.
\<close>

section \<open>Results of an execution\<close>

text \<open>The fields of a result that may hold rows: absent, a list, an empty object, or an object with a
  \<open>rows\<close> list. A row is its JSON text.\<close>

datatype rows_field = NoField | IsList "string list" | EmptyDict | DictRows "string list"

record exec_result =
  er_results :: rows_field
  er_rows :: rows_field
  er_data :: rows_field
  er_error :: "string option"
  er_time :: "string option"

text \<open>The debug line reads \<open>result['results'][0]\<close>, which raises for an object that is not empty.\<close>

definition log_result :: "exec_result \<Rightarrow> unit result" where
  "log_result r = (case er_results r of DictRows _ \<Rightarrow> raise KeyError ''0'' | _ \<Rightarrow> Inr ())"

definition normalize_rows :: "exec_result \<Rightarrow> string list" where
  "normalize_rows r = (case er_results r of
       IsList xs \<Rightarrow> xs
     | DictRows xs \<Rightarrow> xs
     | _ \<Rightarrow> (case er_rows r of IsList xs \<Rightarrow> xs
            | _ \<Rightarrow> (case er_data r of IsList xs \<Rightarrow> xs | _ \<Rightarrow> [])))"

text \<open>The adapter: an exception of the engine becomes a result with an error text. \<open>run\<close> connects to
  the database and executes, \<open>ms\<close> is the text of the time it took; neither the parameters nor the timeout
  are passed on.\<close>

definition kuzu_execute_query ::
  "string \<Rightarrow> (uuid \<Rightarrow> uuid \<Rightarrow> string \<Rightarrow> ('w, string list) act) \<Rightarrow>
   uuid \<Rightarrow> uuid \<Rightarrow> string \<Rightarrow> string option \<Rightarrow> nat \<Rightarrow> ('w, exec_result) act" where
  "kuzu_execute_query ms run t d cypher parameters timeout_seconds =
     catch (bind (run t d cypher)
              (\<lambda>rows. ret \<lparr>er_results = IsList rows, er_rows = NoField, er_data = NoField, er_error = None, er_time = Some ms\<rparr>))
       (\<lambda>e. ret \<lparr>er_results = IsList [], er_rows = NoField, er_data = NoField, er_error = Some (str_of e),
         er_time = Some ms\<rparr>)"

section \<open>The worker\<close>

record ('w, 'b) worker =
  wk_queue :: "'w queue_port"
  wk_tx :: "'w tx_port"
  wk_exec :: "uuid \<Rightarrow> uuid \<Rightarrow> string \<Rightarrow> string option \<Rightarrow> nat \<Rightarrow> ('w, exec_result) act"
  wk_cache :: "('w, string list) cache_port"
  wk_locks :: "'w lock_port"
  wk_storage :: "('w, 'b) storage_port"
  wk_codec :: "'b codec"
  wk_snapshots :: "uuid \<Rightarrow> uuid \<Rightarrow> ('w, snapshot list) act"
  wk_path_exists :: "string \<Rightarrow> ('w, bool) act"
  wk_mkdir :: "string \<Rightarrow> ('w, unit) act"
  wk_write :: "string \<Rightarrow> 'b \<Rightarrow> ('w, unit) act"
  wk_extract :: "string \<Rightarrow> 'b \<Rightarrow> ('w, unit) act"
  wk_is_gzip :: "'b \<Rightarrow> bool"
  wk_xadd :: "uuid \<Rightarrow> fields \<Rightarrow> ('w, unit) act"
  wk_loads :: "string \<Rightarrow> string result"
  wk_data_dir :: "string option"
  wk_group :: string
  wk_name :: string

definition data_dir :: "('w, 'b) worker \<Rightarrow> string result" where
  "data_dir W = (case wk_data_dir W of
       Some (c # cs) \<Rightarrow> Inr (c # cs)
     | _ \<Rightarrow> raise RuntimeError ''KUZU_DATA_DIR must be set for query execution'')"

definition checkout :: "('w, 'b) worker \<Rightarrow> string \<Rightarrow> string \<Rightarrow> string \<Rightarrow> ('w, unit) act" where
  "checkout W tenant_dir db_dir object_key1 =
     bind (download_database (wk_storage W) object_key1) (\<lambda>data.
       andthen (wk_mkdir W db_dir)
         (if endswith object_key1 ''.tar.gz'' \<or> wk_is_gzip W data
          then wk_extract W tenant_dir data
          else wk_write W (db_dir @ ''/data.kuzu'') data))"

definition ensure_local_db :: "('w, 'b) worker \<Rightarrow> uuid \<Rightarrow> uuid \<Rightarrow> ('w, unit) act" where
  "ensure_local_db W t d =
     bind (of_result (data_dir W)) (\<lambda>base.
       let tenant_dir = base @ ''/'' @ t; db_dir = tenant_dir @ ''/'' @ d in
       bind (wk_path_exists W (db_dir @ ''/data.kuzu'')) (\<lambda>e1.
       bind (if e1 then ret True else wk_path_exists W db_dir) (\<lambda>e2.
         if e2 then ret ()
         else bind (wk_snapshots W d t) (\<lambda>snapshots. case snapshots of
             [] \<Rightarrow> wk_mkdir W db_dir
           | latest # _ \<Rightarrow> with_lock (wk_locks W) (''db:'' @ d @ '':checkout'') 30
               (throw TimeoutError ''Could not acquire database checkout lock'')
               (checkout W tenant_dir db_dir (snap_object_key latest))))))"

text \<open>Events are best effort.\<close>

definition worker_emit :: "('w, 'b) worker \<Rightarrow> uuid \<Rightarrow> string \<Rightarrow> fields \<Rightarrow> ('w, unit) act" where
  "worker_emit W t event_type data =
     catch (wk_xadd W t ((''event_type'', event_type) # data)) (\<lambda>_. ret ())"

text \<open>\<open>None if not parameters else json.loads(parameters)\<close>.\<close>

definition load_parameters :: "('w, 'b) worker \<Rightarrow> string option \<Rightarrow> string option result" where
  "load_parameters W p = (case p of None \<Rightarrow> Inr None
     | Some s \<Rightarrow> if s = [] then Inr None else bind_r (wk_loads W s) (\<lambda>v. Inr (Some v)))"

definition execute_step :: "('w, 'b) worker \<Rightarrow> uuid \<Rightarrow> uuid \<Rightarrow> string \<Rightarrow> fields \<Rightarrow> ('w, exec_result) act" where
  "execute_step W t d query f =
     bind (of_result (load_parameters W (field f ''parameters''))) (\<lambda>parameters.
     bind (of_result (py_int_text (case field f ''timeout_seconds'' of None \<Rightarrow> ''30'' | Some s \<Rightarrow> s))) (\<lambda>timeout.
     bind (wk_exec W t d query parameters timeout) (\<lambda>r.
       andthen (of_result (log_result r)) (ret r))))"

definition finish ::
  "('w, 'b) worker \<Rightarrow> message \<Rightarrow> uuid \<Rightarrow> string list \<Rightarrow> string option \<Rightarrow> ('w, unit) act" where
  "finish W m d rows ms =
     andthen (catch (andthen (cache_set (wk_cache W) (''tx_results:'' @ msg_transaction m) rows (Some 3600)) (ret ()))
                (\<lambda>_. ret ()))
     (andthen (worker_emit W (msg_tenant m) ''completed''
        [(''transaction_id'', msg_transaction m), (''database_id'', d), (''rows_count'', py_str_nat (length rows)),
         (''execution_time_ms'', case ms of None \<Rightarrow> ''0'' | Some s \<Rightarrow> s)])
     (andthen (acknowledge_transaction (wk_queue W) (wk_group W) (message_id m)) (ret ())))"

definition work ::
  "('w, 'b) worker \<Rightarrow> (tx_status \<Rightarrow> string) \<Rightarrow> dt \<Rightarrow> message \<Rightarrow> uuid \<Rightarrow> string \<Rightarrow> fields \<Rightarrow> ('w, unit) act" where
  "work W clk now m d query f =
     andthen (update_status (wk_tx W) (clk RUNNING) (msg_transaction m) RUNNING 0 None)
     (andthen (ensure_local_db W (msg_tenant m) d)
     (bind (execute_step W (msg_tenant m) d query f) (\<lambda>r.
       let rows = normalize_rows r in
       andthen (catch (guard_do (is_mutating query)
           (append_wal_entry (wk_locks W) (wk_storage W) (wk_codec W) now (msg_tenant m) d query rows)) (\<lambda>_. ret ()))
       (andthen (update_status (wk_tx W) (clk COMPLETED) (msg_transaction m) COMPLETED (length rows) None)
         (finish W m d rows (er_time r))))))"

text \<open>The two handlers. \<open>database_id\<close> is unbound when the exception came before its assignment.\<close>

definition handle ::
  "('w, 'b) worker \<Rightarrow> (tx_status \<Rightarrow> string) \<Rightarrow> message \<Rightarrow> uuid option \<Rightarrow> exn \<Rightarrow> ('w, unit) act" where
  "handle W clk m database e =
     (let st = (if kind_of e = AsyncioTimeoutError then TIMEOUT else FAILED);
          event = (if kind_of e = AsyncioTimeoutError then ''timeout'' else ''failed'')
      in andthen (update_status (wk_tx W) (clk st) (msg_transaction m) st 0 (Some (str_of e)))
           (case database of
              None \<Rightarrow> throw UnboundLocalError ''local variable 'database_id' referenced before assignment''
            | Some d \<Rightarrow> andthen (worker_emit W (msg_tenant m) event
                 [(''transaction_id'', msg_transaction m), (''database_id'', d), (''error'', str_of e)])
                (andthen (acknowledge_transaction (wk_queue W) (wk_group W) (message_id m)) (ret ()))))"

definition process_message ::
  "('w, 'b) worker \<Rightarrow> (tx_status \<Rightarrow> string) \<Rightarrow> dt \<Rightarrow> message \<Rightarrow> ('w, unit) act" where
  "process_message W clk now m w = (case find_by_id (wk_tx W) (msg_transaction m) w of
       (Inl e, w1) \<Rightarrow> handle W clk m None e w1
     | (Inr None, w1) \<Rightarrow>
         catch (andthen (acknowledge_transaction (wk_queue W) (wk_group W) (message_id m)) (ret ()))
           (handle W clk m None) w1
     | (Inr (Some f), w1) \<Rightarrow> (case payload_uuid f ''database_id'' of
           Inl e \<Rightarrow> handle W clk m None e w1
         | Inr d \<Rightarrow> (case field f ''query'' of
               None \<Rightarrow> handle W clk m (Some d) (Exn KeyError ''query'') w1
             | Some query \<Rightarrow> catch (work W clk now m d query f) (handle W clk m (Some d)) w1)))"

text \<open>An exception while dequeuing reaches a handler that reads the unbound \<open>tx_id\<close> and leaves
  \<open>run_once\<close>, and with it the worker's loop.\<close>

definition run_once :: "('w, 'b) worker \<Rightarrow> (tx_status \<Rightarrow> string) \<Rightarrow> dt \<Rightarrow> ('w, unit) act" where
  "run_once W clk now w = (case dequeue_transaction (wk_queue W) (wk_group W) (wk_name W) w of
       (Inl e, w1) \<Rightarrow>
         (raise UnboundLocalError ''local variable 'tx_id' referenced before assignment'', w1)
     | (Inr None, w1) \<Rightarrow> (Inr (), w1)
     | (Inr (Some m), w1) \<Rightarrow> process_message W clk now m w1)"

section \<open>Frames\<close>

text \<open>The ports other than the repository leave its table alone.\<close>

definition worker_frames :: "('w, 'b) worker \<Rightarrow> ('w \<Rightarrow> tx_table) \<Rightarrow> ('w \<Rightarrow> bool) \<Rightarrow> bool" where
  "worker_frames W tab ok \<longleftrightarrow>
     (\<forall>g c. tab_frame tab ok (dequeue_transaction (wk_queue W) g c)) \<and>
     (\<forall>g i. tab_frame tab ok (acknowledge_transaction (wk_queue W) g i)) \<and>
     (\<forall>t d q p n. tab_frame tab ok (wk_exec W t d q p n)) \<and>
     (\<forall>k v e. tab_frame tab ok (cache_set (wk_cache W) k v e)) \<and>
     (\<forall>r n. tab_frame tab ok (acquire_lock (wk_locks W) r n)) \<and>
     (\<forall>r t. tab_frame tab ok (release_lock (wk_locks W) r t)) \<and>
     (\<forall>t d c f. tab_frame tab ok (upload_database (wk_storage W) t d c f)) \<and>
     (\<forall>k. tab_frame tab ok (download_database (wk_storage W) k)) \<and>
     (\<forall>k. tab_frame tab ok (file_exists (wk_storage W) k)) \<and>
     (\<forall>d t. tab_frame tab ok (wk_snapshots W d t)) \<and>
     (\<forall>p. tab_frame tab ok (wk_path_exists W p)) \<and> (\<forall>p. tab_frame tab ok (wk_mkdir W p)) \<and>
     (\<forall>p b. tab_frame tab ok (wk_write W p b)) \<and> (\<forall>p b. tab_frame tab ok (wk_extract W p b)) \<and>
     (\<forall>t f. tab_frame tab ok (wk_xadd W t f))"

lemma worker_frame_simps:
  assumes "worker_frames W tab ok"
  shows "tab_frame tab ok (dequeue_transaction (wk_queue W) g c)"
    "tab_frame tab ok (acknowledge_transaction (wk_queue W) g i)"
    "tab_frame tab ok (wk_exec W t d q p n)" "tab_frame tab ok (cache_set (wk_cache W) k v e)"
    "tab_frame tab ok (acquire_lock (wk_locks W) k n)" "tab_frame tab ok (release_lock (wk_locks W) k t)"
    "tab_frame tab ok (upload_database (wk_storage W) t d b k)"
    "tab_frame tab ok (download_database (wk_storage W) k)" "tab_frame tab ok (file_exists (wk_storage W) k)"
    "tab_frame tab ok (wk_snapshots W d t)" "tab_frame tab ok (wk_path_exists W k)"
    "tab_frame tab ok (wk_mkdir W k)" "tab_frame tab ok (wk_write W k b)" "tab_frame tab ok (wk_extract W k b)"
    "tab_frame tab ok (wk_xadd W t fs)"
  using assms by (auto simp: worker_frames_def)

lemma tab_frame_if: "tab_frame tab ok a \<Longrightarrow> tab_frame tab ok b \<Longrightarrow> tab_frame tab ok (if c then a else b)"
  by simp

lemma tab_frame_option: "tab_frame tab ok a \<Longrightarrow> (\<And>x. tab_frame tab ok (b x)) \<Longrightarrow>
    tab_frame tab ok (case o1 of None \<Rightarrow> a | Some x \<Rightarrow> b x)"
  by (cases o1) simp_all

lemma tab_frame_list: "tab_frame tab ok a \<Longrightarrow> (\<And>x xs. tab_frame tab ok (b x xs)) \<Longrightarrow>
    tab_frame tab ok (case l of [] \<Rightarrow> a | x # xs \<Rightarrow> b x xs)"
  by (cases l) simp_all

lemma tab_frame_guard: "tab_frame tab ok a \<Longrightarrow> tab_frame tab ok (guard_do c a)"
  by (simp add: guard_do_def)

lemma tab_frame_with_lock:
  assumes "\<And>r n. tab_frame tab ok (acquire_lock L r n)" "\<And>r t. tab_frame tab ok (release_lock L r t)"
    "tab_frame tab ok refused" "tab_frame tab ok body"
  shows "tab_frame tab ok (with_lock L res n refused body)"
  unfolding with_lock_def by (intro tab_frame_bind tab_frame_option tab_frame_finally assms)

lemmas tab_frame_rules = tab_frame_bind tab_frame_andthen tab_frame_catch tab_frame_finally tab_frame_if
  tab_frame_option tab_frame_list tab_frame_guard tab_frame_with_lock tab_frame_ret

lemma append_wal_entry_frame:
  assumes "\<And>r n. tab_frame tab ok (acquire_lock L r n)" "\<And>r t. tab_frame tab ok (release_lock L r t)"
    "\<And>t d c f. tab_frame tab ok (upload_database S t d c f)" "\<And>k. tab_frame tab ok (download_database S k)"
    "\<And>k. tab_frame tab ok (file_exists S k)"
  shows "tab_frame tab ok (append_wal_entry L S J now t d q rows)"
  unfolding tab_frame_def
proof (intro allI impI)
  fix w
  assume "ok w"
  obtain r w1 where a: "acquire_lock L (wal_lock d) 10 w = (r, w1)" by force
  with tab_frameD [OF assms(1) \<open>ok w\<close> a] have o1: "ok w1" "tab w1 = tab w" by simp_all
  let ?body = "\<lambda>token. finally_do (catch (bind (catch (bind (file_exists S (object_key t d (wal_filename now)))
      (\<lambda>b. if b then download_database S (object_key t d (wal_filename now)) else ret (no_text J)))
      (\<lambda>_. ret (no_text J))) (\<lambda>prior. bind (upload_database S t d
        (add_line J prior \<lparr>we_ts = now, we_query = q, we_results = rows\<rparr>) (wal_filename now)) (\<lambda>_. ret ())))
      (\<lambda>_. ret ())) (release_lock L (wal_lock d) token)"
  have body: "tab_frame tab ok (?body token)" for token
    by (intro tab_frame_rules assms)
  show "ok (snd (append_wal_entry L S J now t d q rows w)) \<and>
      tab (snd (append_wal_entry L S J now t d q rows w)) = tab w"
  proof (cases r)
    case (Inl e)
    then show ?thesis using a o1 by (simp add: append_wal_entry_def Let_def)
  next
    case (Inr tok)
    then show ?thesis
      using a o1 body by (cases tok) (auto simp: append_wal_entry_def Let_def tab_frame_def)
  qed
qed

lemma ensure_local_db_frame: "worker_frames W tab ok \<Longrightarrow> tab_frame tab ok (ensure_local_db W t d)"
  unfolding ensure_local_db_def checkout_def Let_def by (intro tab_frame_rules worker_frame_simps)

lemma execute_step_frame: "worker_frames W tab ok \<Longrightarrow> tab_frame tab ok (execute_step W t d q f)"
  unfolding execute_step_def by (intro tab_frame_rules worker_frame_simps)

lemma worker_emit_frame: "worker_frames W tab ok \<Longrightarrow> tab_frame tab ok (worker_emit W t e f)"
  unfolding worker_emit_def by (intro tab_frame_rules worker_frame_simps)

lemma finish_frame: "worker_frames W tab ok \<Longrightarrow> tab_frame tab ok (finish W m d rows ms)"
  unfolding finish_def by (intro tab_frame_rules worker_frame_simps worker_emit_frame)

lemma wal_step_frame: "worker_frames W tab ok \<Longrightarrow> tab_frame tab ok (catch (guard_do b
    (append_wal_entry (wk_locks W) (wk_storage W) (wk_codec W) now t d q rows)) (\<lambda>_. ret ()))"
  by (intro tab_frame_rules append_wal_entry_frame worker_frame_simps)

section \<open>Settling a transaction\<close>

definition others_kept :: "('w \<Rightarrow> tx_table) \<Rightarrow> uuid \<Rightarrow> 'w \<Rightarrow> 'w \<Rightarrow> bool" where
  "others_kept tab i w w' \<longleftrightarrow> (\<forall>j. j \<noteq> i \<longrightarrow> tab w' j = tab w j)"

lemma others_kept_refl [simp]: "tab w' = tab w \<Longrightarrow> others_kept tab i w w'"
  by (simp add: others_kept_def)

lemma others_kept_trans: "others_kept tab i u v \<Longrightarrow> others_kept tab i v w \<Longrightarrow> others_kept tab i u w"
  by (simp add: others_kept_def)

context transaction_repository
begin

lemma update_step:
  assumes "ok w" "is_uuid i" "tab w i \<noteq> None"
  shows "\<exists>w'. update_status T now i st n e w = (Inr True, w') \<and> ok w' \<and> tab w' i \<noteq> None \<and>
    status_of (tab w') i = Some (tx_value st) \<and> others_kept tab i w w'"
proof -
  obtain w' where u: "update_status T now i st n e w = (Inr True, w')"
    using update_total [OF assms(1,2), of now st n e] assms(3) by auto
  have "ok w'" "status_of (tab w') i = Some (tx_value st)" "\<And>j. j \<noteq> i \<Longrightarrow> tab w' j = tab w j"
    using update_status_of [OF assms(1,2) u] by simp_all
  moreover from this(2) have "tab w' i \<noteq> None" by (cases "tab w' i") (simp_all add: status_of_def)
  ultimately show ?thesis using u by (auto simp: others_kept_def)
qed

text \<open>What the body leaves: on success the transaction is completed; on an exception it still exists.\<close>

lemma work_effect:
  assumes fr: "worker_frames W tab ok" "wk_tx W = T"
    and w: "ok w" "is_uuid (msg_transaction m)" "tab w (msg_transaction m) \<noteq> None"
    and run: "work W clk now m d query f w = (r, w')"
  shows "ok w' \<and> tab w' (msg_transaction m) \<noteq> None \<and> others_kept tab (msg_transaction m) w w' \<and>
    (is_ok r \<longrightarrow> status_of (tab w') (msg_transaction m) = Some ''completed'')"
proof -
  let ?i = "msg_transaction m" and ?t = "msg_tenant m"
  obtain w1 where 1: "update_status T (clk RUNNING) ?i RUNNING 0 None w = (Inr True, w1)" "ok w1"
    "tab w1 ?i \<noteq> None" "others_kept tab ?i w w1"
    using update_step [OF w, of "clk RUNNING" RUNNING 0 None] by auto
  obtain r2 w2 where 2: "ensure_local_db W ?t d w1 = (r2, w2)" by force
  note f2 = tab_frameD [OF ensure_local_db_frame [OF fr(1)] 1(2) 2]
  show ?thesis
  proof (cases r2)
    case (Inl e)
    then have "(r, w') = (Inl e, w2)" using run 1(1) 2 fr(2) by (simp add: work_def andthen_def bind_def)
    with f2 1 show ?thesis by (auto simp: others_kept_def)
  next
    case (Inr u)
    obtain r3 w3 where 3: "execute_step W ?t d query f w2 = (r3, w3)" by force
    have ok2: "ok w2" using f2 by simp
    note f3 = tab_frameD [OF execute_step_frame [OF fr(1)] ok2 3]
    show ?thesis
    proof (cases r3)
      case (Inl e)
      then have "(r, w') = (Inl e, w3)" using run 1(1) 2 3 Inr fr(2) by (simp add: work_def andthen_def bind_def)
      with f2 f3 1 show ?thesis by (auto simp: others_kept_def)
    next
      case res: (Inr x)
      let ?rows = "normalize_rows x"
      let ?wal = "catch (guard_do (is_mutating query) (append_wal_entry (wk_locks W) (wk_storage W)
        (wk_codec W) now ?t d query ?rows)) (\<lambda>_. ret ())"
      have "\<exists>w4. ?wal w3 = (Inr (), w4)"
        by (auto simp: catch_def ret_def split: prod.splits sum.splits)
      then obtain w4 where 4: "?wal w3 = (Inr (), w4)" by blast
      have ok3: "ok w3" using f3 by simp
      note f4 = tab_frameD [OF wal_step_frame [OF fr(1)] ok3 4]
      have ex4: "tab w4 ?i \<noteq> None" "others_kept tab ?i w w4" "ok w4"
        using f2 f3 f4 1 by (auto simp: others_kept_def)
      obtain w5 where 5: "update_status T (clk COMPLETED) ?i COMPLETED (length ?rows) None w4 = (Inr True, w5)"
        "ok w5" "tab w5 ?i \<noteq> None" "status_of (tab w5) ?i = Some ''completed''" "others_kept tab ?i w4 w5"
        using update_step [OF ex4(3) w(2) ex4(1), of "clk COMPLETED" COMPLETED "length ?rows" None] by auto
      obtain r6 w6 where 6: "finish W m d ?rows (er_time x) w5 = (r6, w6)" by force
      note f6 = tab_frameD [OF finish_frame [OF fr(1)] 5(2) 6]
      have "(r, w') = (r6, w6)"
        using run 1(1) 2 3 4 5(1) 6 Inr res fr(2) by (simp add: work_def andthen_def bind_def Let_def)
      with f6 5 ex4(2) show ?thesis by (auto intro: others_kept_trans)
    qed
  qed
qed

lemma handle_effect:
  assumes fr: "worker_frames W tab ok" "wk_tx W = T"
    and w: "ok w" "is_uuid (msg_transaction m)" "tab w (msg_transaction m) \<noteq> None"
    and run: "handle W clk m db e w = (r, w')"
  shows "ok w' \<and> others_kept tab (msg_transaction m) w w' \<and> status_of (tab w') (msg_transaction m) =
    Some (if kind_of e = AsyncioTimeoutError then ''timeout'' else ''failed'')"
proof -
  define st where "st = (if kind_of e = AsyncioTimeoutError then TIMEOUT else FAILED)"
  obtain w1 where 1: "update_status T (clk st) (msg_transaction m) st 0 (Some (str_of e)) w = (Inr True, w1)"
    "ok w1" "status_of (tab w1) (msg_transaction m) = Some (tx_value st)" "others_kept tab (msg_transaction m) w w1"
    using update_step [OF w, of "clk st" st 0 "Some (str_of e)"] by auto
  have v: "tx_value st = (if kind_of e = AsyncioTimeoutError then ''timeout'' else ''failed'')"
    by (simp add: st_def)
  define rest where "rest = (case db of
      None \<Rightarrow> throw UnboundLocalError ''local variable 'database_id' referenced before assignment''
    | Some d \<Rightarrow> andthen (worker_emit W (msg_tenant m) (if kind_of e = AsyncioTimeoutError then ''timeout'' else ''failed'')
         [(''transaction_id'', msg_transaction m), (''database_id'', d), (''error'', str_of e)])
        (andthen (acknowledge_transaction (wk_queue W) (wk_group W) (message_id m)) (ret ())))"
  have "tab_frame tab ok rest"
    unfolding rest_def by (intro tab_frame_rules worker_frame_simps [OF fr(1)] worker_emit_frame [OF fr(1)])
  moreover have "rest w1 = (r, w')"
    using run 1(1) fr(2) by (simp add: handle_def Let_def andthen_def bind_def rest_def st_def split: if_splits)
  ultimately have "ok w' \<and> tab w' = tab w1" using tab_frameD [of tab ok rest w1 r w'] 1(2) by blast
  with 1(3,4) v show ?thesis by (auto simp: others_kept_def)
qed

lemma process_effect:
  assumes fr: "worker_frames W tab ok" "wk_tx W = T"
    and w: "ok w" "is_uuid (msg_transaction m)" "tab w (msg_transaction m) \<noteq> None"
    and run: "process_message W clk now m w = (r, w')"
  shows "others_kept tab (msg_transaction m) w w' \<and>
    status_of (tab w') (msg_transaction m) \<in> {Some ''completed'', Some ''failed'', Some ''timeout''}"
proof -
  obtain f where f: "find_by_id T (msg_transaction m) w = (Inr (Some f), w)"
    using find_law [OF w(1,2)] w(3) by (auto simp: map_option_case split: option.splits)
  show ?thesis
  proof (cases "payload_uuid f ''database_id''")
    case (Inl e)
    then have "handle W clk m None e w = (r, w')"
      using run f fr(2) by (simp add: process_message_def)
    from handle_effect [OF fr w this] show ?thesis by auto
  next
    case d: (Inr d)
    show ?thesis
    proof (cases "field f ''query''")
      case None
      with d have "handle W clk m (Some d) (Exn KeyError ''query'') w = (r, w')"
        using run f fr(2) by (simp add: process_message_def)
      from handle_effect [OF fr w this] show ?thesis by auto
    next
      case q: (Some query)
      obtain r1 w1 where 1: "work W clk now m d query f w = (r1, w1)" by force
      note e1 = work_effect [OF fr w 1]
      have c: "catch (work W clk now m d query f) (handle W clk m (Some d)) w = (r, w')"
        using run f fr(2) d q by (simp add: process_message_def)
      show ?thesis
      proof (cases r1)
        case (Inr u)
        with c 1 e1 show ?thesis by (auto simp: catch_def)
      next
        case (Inl e)
        with c 1 have "handle W clk m (Some d) e w1 = (r, w')" by (simp add: catch_def)
        from handle_effect [OF fr _ w(2) _ this] e1 show ?thesis by (auto intro: others_kept_trans)
      qed
    qed
  qed
qed

end

text \<open>With the Kuzu adapter, which never raises, a transaction whose database is checked out completes.\<close>

lemma kuzu_execute_total: "\<exists>x w'. kuzu_execute_query ms run t d q p n w = (Inr x, w') \<and> er_results x \<noteq> NoField \<and> log_result x = Inr ()"
  by (cases "run t d q w"; cases "fst (run t d q w)")
    (auto simp: kuzu_execute_query_def catch_def bind_def ret_def log_result_def)

lemma worker_emit_ok: "never_raises (worker_emit W t e f)"
  unfolding worker_emit_def by (intro never_raises_catch never_raises_ret)

lemma finish_ok:
  assumes "\<And>i. never_raises (acknowledge_transaction (wk_queue W) (wk_group W) i)"
  shows "never_raises (finish W m d rows ms)"
  unfolding finish_def
  by (intro never_raises_andthen never_raises_catch never_raises_ret worker_emit_ok assms)

lemma work_ok:
  assumes "is_ok (fst (update_status (wk_tx W) (clk RUNNING) (msg_transaction m) RUNNING 0 None w))"
    and "\<And>w n. is_ok (fst (update_status (wk_tx W) (clk COMPLETED) (msg_transaction m) COMPLETED n None w)) \<or> \<not> P w"
    and "wk_exec W = kuzu_execute_query ms run" "\<And>p w. wk_path_exists W p w = (Inr True, w)" "is_ok (data_dir W)"
    and "is_ok (load_parameters W (field f ''parameters''))"
    and "is_ok (py_int_text (case field f ''timeout_seconds'' of None \<Rightarrow> ''30'' | Some s \<Rightarrow> s))"
    and "\<And>i. never_raises (acknowledge_transaction (wk_queue W) (wk_group W) i)"
    and "\<And>w1 u. update_status (wk_tx W) (clk RUNNING) (msg_transaction m) RUNNING 0 None w = (Inr u, w1) \<Longrightarrow> P w1"
    and "\<And>q p n. keeps P (kuzu_execute_query ms run (msg_tenant m) d q p n)"
    and "\<And>q rows. keeps P (catch (guard_do (is_mutating q) (append_wal_entry (wk_locks W) (wk_storage W) (wk_codec W)
        now (msg_tenant m) d q rows)) (\<lambda>_. ret ()))"
  shows "is_ok (fst (work W clk now m d query f w))"
proof -
  obtain u w1 where 1: "update_status (wk_tx W) (clk RUNNING) (msg_transaction m) RUNNING 0 None w = (Inr u, w1)"
    using assms(1) by (cases "update_status (wk_tx W) (clk RUNNING) (msg_transaction m) RUNNING 0 None w")
      (auto simp: is_ok_iff)
  then have P1: "P w1" by (rule assms(9))
  have 2: "ensure_local_db W (msg_tenant m) d w1 = (Inr (), w1)"
    using assms(5) by (auto simp: ensure_local_db_def bind_def of_result_def assms(4) ret_def Let_def is_ok_iff)
  obtain ps ts where pt: "load_parameters W (field f ''parameters'') = Inr ps"
    "py_int_text (case field f ''timeout_seconds'' of None \<Rightarrow> ''30'' | Some s \<Rightarrow> s) = Inr ts"
    using assms(6,7) by (auto simp: is_ok_iff)
  obtain x w3 where 3: "kuzu_execute_query ms run (msg_tenant m) d query ps ts w1 = (Inr x, w3)" "log_result x = Inr ()"
    using kuzu_execute_total [of ms run "msg_tenant m" d query ps ts w1] by blast
  have P3: "P w3" by (rule keepsD [OF assms(10) P1 3(1)])
  have e: "execute_step W (msg_tenant m) d query f w1 = (Inr x, w3)"
    by (simp add: execute_step_def bind_def andthen_def of_result_def ret_def pt assms(3) 3)
  let ?wal = "catch (guard_do (is_mutating query) (append_wal_entry (wk_locks W) (wk_storage W)
        (wk_codec W) now (msg_tenant m) d query (normalize_rows x))) (\<lambda>_. ret ())"
  have "\<exists>w4. ?wal w3 = (Inr (), w4)" by (auto simp: catch_def ret_def split: prod.splits sum.splits)
  then obtain w4 where 4: "?wal w3 = (Inr (), w4)" by blast
  have P4: "P w4" by (rule keepsD [OF assms(11) P3 4])
  obtain v w5 where 5: "update_status (wk_tx W) (clk COMPLETED) (msg_transaction m) COMPLETED
      (length (normalize_rows x)) None w4 = (Inr v, w5)"
    using assms(2) [of "length (normalize_rows x)" w4] P4
    by (cases "update_status (wk_tx W) (clk COMPLETED) (msg_transaction m) COMPLETED (length (normalize_rows x)) None w4")
      (auto simp: is_ok_iff)
  have "work W clk now m d query f w = finish W m d (normalize_rows x) (er_time x) w5"
    by (simp add: work_def andthen_def bind_def Let_def 1 2 e 4 5)
  with finish_ok [OF assms(8)] show ?thesis by (simp add: never_raises_def)
qed

section \<open>A worker on one Redis\<close>

text \<open>The queue and the transactions live in one Redis; the database is present and the engine raises.\<close>

definition demo_worker :: "(keyspace, string) worker" where
  "demo_worker = \<lparr>wk_queue = redis_queue ref_redis, wk_tx = redis_tx_repository ref_redis,
     wk_exec = kuzu_execute_query ''1.5'' (\<lambda>t d q. throw RuntimeError ''Parser exception''),
     wk_cache = \<lparr>cache_set = \<lambda>k v e. ret True, cache_get = \<lambda>k. ret None, cache_delete = \<lambda>k. ret True\<rparr>,
     wk_locks = \<lparr>acquire_lock = \<lambda>r n. ret None, release_lock = \<lambda>r t. ret True\<rparr>,
     wk_storage = \<lparr>upload_database = \<lambda>t d c f. ret f, download_database = \<lambda>k. throw RuntimeError ''unavailable'',
       delete_object = \<lambda>k. ret False, file_exists = \<lambda>k. ret False, get_file_size = \<lambda>k. ret 0, list_objects = \<lambda>k. ret [],
       set_object_tags = \<lambda>k ts. ret True\<rparr>,
     wk_codec = \<lparr>no_text = [], add_line = \<lambda>t e. t, lines_of = \<lambda>t. []\<rparr>,
     wk_snapshots = \<lambda>d t. ret [], wk_path_exists = \<lambda>p. ret True, wk_mkdir = \<lambda>p. ret (),
     wk_write = \<lambda>p b. ret (), wk_extract = \<lambda>p b. ret (), wk_is_gzip = \<lambda>b. False, wk_xadd = \<lambda>t f. ret (),
     wk_loads = \<lambda>s. Inr s, wk_data_dir = Some ''/data'', wk_group = ''queries'', wk_name = ''w1''\<rparr>"

lemma stream_only_frame:
  assumes "\<And>w k. startswith k ''tx:'' \<Longrightarrow> snd (m w) k = w k"
  shows "tab_frame tx_tab tx_inv m"
  unfolding tab_frame_def using tx_inv_cong [of "snd (m _)" _] assms by blast

lemma ref_queue_frames:
  "tab_frame tx_tab tx_inv (redis_dequeue ref_redis g c)" "tab_frame tx_tab tx_inv (redis_acknowledge ref_redis g i)"
proof -
  have k: "\<not> startswith queue_stream ''tx:''" by (simp add: queue_stream_def)
  have g: "tab_frame tx_tab tx_inv (ensure_group ref_redis g)"
    using k by (intro stream_only_frame) (auto simp: ensure_group_def catch_def ref_redis_def ret_def of_result_def)
  have r: "tab_frame tx_tab tx_inv (redis_xreadgroup ref_redis g c queue_stream)"
    using k by (intro stream_only_frame) (auto simp: ref_redis_def split: list.splits)
  show "tab_frame tx_tab tx_inv (redis_dequeue ref_redis g c)"
    unfolding redis_dequeue_def by (intro tab_frame_rules g r)
  show "tab_frame tx_tab tx_inv (redis_acknowledge ref_redis g i)"
    using k by (intro stream_only_frame)
      (auto simp: redis_acknowledge_def andthen_def bind_def ref_redis_def ret_def)
qed

lemma demo_worker_frames: "worker_frames demo_worker tx_tab tx_inv"
proof -
  have "tab_frame tx_tab tx_inv (kuzu_execute_query ''1.5'' (\<lambda>t d q. throw RuntimeError ''Parser exception'') t d q p n)" for t d q p n
    unfolding kuzu_execute_query_def by (intro tab_frame_rules tab_frame_ret)
  then show ?thesis
    by (simp add: worker_frames_def demo_worker_def redis_queue_def ref_queue_frames)
qed

lemma demo_worker_queue:
  "\<exists>w i w1. tx_inv w \<and> tx_tab w uuid_b = Some (map_of (tx_fields ''t0'' (demo_tx uuid_b PENDING))) \<and>
     dequeue_transaction (wk_queue demo_worker) (wk_group demo_worker) (wk_name demo_worker) w =
       (Inr (Some \<lparr>message_id = i, msg_transaction = uuid_b, msg_tenant = uuid_a\<rparr>), w1)"
proof -
  let ?x = "demo_tx uuid_b PENDING"
  have u: "is_uuid (td_id ?x)" "is_uuid (td_tenant ?x)" and i: "td_id ?x = uuid_b"
    by (simp_all add: demo_tx_def demo_uuids)
  have start: "tx_inv Map.empty" "tx_tab Map.empty (td_id ?x) = None"
    by (rule tx_inv_start) (simp_all add: tx_tab_def)
  obtain w1 where w1: "redis_save_transaction ref_redis ''t0'' ?x Map.empty = (Inr uuid_b, w1)" "tx_inv w1"
    "tx_tab w1 uuid_b = Some (map_of (tx_fields ''t0'' ?x))"
    using ref.save_effect [OF start(1) u start(2), of "''t0''"] unfolding i by auto
  have "w1 queue_stream = Map.empty queue_stream"
    using ref_save_frame [of "''t0''" ?x Map.empty] w1(1) by simp
  then have q1: "stream_inv w1" "stream_room w1" "stream_waiting ''queries'' w1 = []"
    by (simp_all add: stream_inv_def stream_room_def max_length_def stream_waiting_def undelivered_def)
  obtain j w where w: "redis_enqueue ref_redis uuid_b uuid_a 0 w1 = (Inr True, w)" "stream_inv w"
    "stream_waiting ''queries'' w = [(j, uuid_b, uuid_a)]"
    using message_queue.enqueue_law [where group = "''queries''", OF ref.queue_contract, OF q1(1,2) demo_uuids(2,1), where p = 0] q1(3)
    by (fastforce simp: redis_queue_def)
  have "tx_tab w = tx_tab w1"
    using ref_enqueue_frame [of uuid_b uuid_a 0 w1] w(1) by simp
  moreover have "tx_inv w"
    using tx_inv_cong(2) [of w w1] w(1) w1(2)
    by (auto simp: redis_enqueue_def bind_def ret_def ref_redis_def queue_stream_def)
  moreover obtain w2 where "redis_dequeue ref_redis ''queries'' ''w1'' w =
      (Inr (Some \<lparr>message_id = j, msg_transaction = uuid_b, msg_tenant = uuid_a\<rparr>), w2)"
    using message_queue.dequeue_law [where group = "''queries''", OF ref.queue_contract, OF w(2,3), where c = "''w1''"] by (auto simp: redis_queue_def)
  ultimately show ?thesis using w1(3) by (auto simp: demo_worker_def redis_queue_def)
qed

section \<open>Properties\<close>

text \<open>C5: A worker settles what it takes. Whatever the engine, the file system, the locks, the cache, the
  storage and the queue's acknowledgement do, errors included, once \<open>run_once\<close> has taken the message of an
  existing transaction, that transaction ends completed, failed or timed out, never pending or running,
  and no other transaction changes.\<close>

theorem worker_settles_transaction:
  assumes "transaction_repository (wk_tx W) tab ok" "worker_frames W tab ok" "ok w"
    and "dequeue_transaction (wk_queue W) (wk_group W) (wk_name W) w = (Inr (Some m), w1)"
    and "is_uuid (msg_transaction m)" "tab w (msg_transaction m) \<noteq> None"
  shows "status_of (tab (snd (run_once W clk now w))) (msg_transaction m) \<in>
      {Some ''completed'', Some ''failed'', Some ''timeout''} \<and>
    (\<forall>j. j \<noteq> msg_transaction m \<longrightarrow> tab (snd (run_once W clk now w)) j = tab w j)"
proof -
  have f: "ok w1 \<and> tab w1 = tab w"
    by (rule tab_frameD [OF worker_frame_simps(1) [OF assms(2)] assms(3,4)])
  obtain r w' where p: "process_message W clk now m w1 = (r, w')" by force
  have "others_kept tab (msg_transaction m) w1 w' \<and>
      status_of (tab w') (msg_transaction m) \<in> {Some ''completed'', Some ''failed'', Some ''timeout''}"
    using f assms(6)
    by (intro transaction_repository.process_effect [OF assms(1,2) refl _ assms(5) _ p]) simp_all
  moreover have "snd (run_once W clk now w) = w'" by (simp add: run_once_def assms(4) p)
  ultimately show ?thesis using f by (auto simp: others_kept_def)
qed

theorem worker_settles_transaction_witness:
  "\<exists>w. status_of (tx_tab w) uuid_b = Some ''pending'' \<and>
     status_of (tx_tab (snd (run_once demo_worker (\<lambda>_. ''t1'') (DT 2024 5 1 12 0 0 0) w))) uuid_b \<in>
       {Some ''completed'', Some ''failed'', Some ''timeout''}"
proof -
  obtain w i w1 where w: "tx_inv w" "tx_tab w uuid_b = Some (map_of (tx_fields ''t0'' (demo_tx uuid_b PENDING)))"
    "dequeue_transaction (wk_queue demo_worker) (wk_group demo_worker) (wk_name demo_worker) w =
       (Inr (Some \<lparr>message_id = i, msg_transaction = uuid_b, msg_tenant = uuid_a\<rparr>), w1)"
    using demo_worker_queue by (elim exE conjE)
  have "status_of (tx_tab w) uuid_b = Some ''pending''"
    by (simp add: w(2) status_of_def tx_fields_def demo_tx_def)
  moreover have "transaction_repository (wk_tx demo_worker) tx_tab tx_inv"
    using ref.transactions.transaction_repository_axioms by (simp add: demo_worker_def)
  ultimately show ?thesis
    using worker_settles_transaction [OF _ demo_worker_frames w(1,3), of "\<lambda>_. ''t1''" "DT 2024 5 1 12 0 0 0"] w(2)
    by (auto simp: demo_uuids)
qed

text \<open>C25: A failing query completes. With the Kuzu adapter, on a database that is present, the transaction of
  a taken message ends completed, whatever the engine does with the query and whatever status the
  transaction had, that of a cancelled one included: the adapter turns the engine's exceptions into
  results, and the worker asks neither for their error nor for a cancellation.\<close>

theorem worker_completes_whatever_the_engine_does:
  assumes "transaction_repository (wk_tx W) tab ok" "worker_frames W tab ok" "ok w"
    and "dequeue_transaction (wk_queue W) (wk_group W) (wk_name W) w = (Inr (Some m), w1)"
    and "is_uuid (msg_transaction m)" "tab w (msg_transaction m) = Some h"
    and "h ''database_id'' = Some x" "UUID x = Inr d" "h ''query'' = Some query"
    and "wk_exec W = kuzu_execute_query ms run" "\<forall>p w. wk_path_exists W p w = (Inr True, w)" "is_ok (data_dir W)"
    and "is_ok (load_parameters W (h ''parameters''))"
    and "is_ok (py_int_text (case h ''timeout_seconds'' of None \<Rightarrow> ''30'' | Some s \<Rightarrow> s))"
    and "\<forall>i. never_raises (acknowledge_transaction (wk_queue W) (wk_group W) i)"
  shows "is_ok (fst (run_once W clk now w)) \<and>
    status_of (tab (snd (run_once W clk now w))) (msg_transaction m) = Some ''completed''"
proof -
  let ?i = "msg_transaction m"
  let ?P = "\<lambda>w. ok w \<and> tab w ?i \<noteq> None"
  have f: "ok w1 \<and> tab w1 = tab w"
    by (rule tab_frameD [OF worker_frame_simps(1) [OF assms(2)] assms(3,4)])
  obtain fs where fs: "find_by_id (wk_tx W) ?i w1 = (Inr (Some fs), w1)" "map_of fs = h"
    using transaction_repository.find_law [OF assms(1), of w1 ?i] f assms(5,6)
    by (auto simp: map_option_case split: option.splits)
  have upd: "is_ok (fst (update_status (wk_tx W) t ?i st n e v))" if "?P v" for t st n e v
    using transaction_repository.update_step [OF assms(1) _ assms(5), of v t st n e] that by auto
  have fr: "tab_frame tab ok (kuzu_execute_query ms run (msg_tenant m) d q p n)" for q p n
    using worker_frame_simps(3) [OF assms(2)] by (simp add: assms(10))
  have ok: "is_ok (fst (work W clk now m d query fs w1))"
  proof (rule work_ok [where P = ?P])
    show "is_ok (fst (update_status (wk_tx W) (clk RUNNING) ?i RUNNING 0 None w1))"
      using upd f assms(6) by simp
    show "is_ok (fst (update_status (wk_tx W) (clk COMPLETED) ?i COMPLETED n None v)) \<or> \<not> ?P v" for v n
      using upd by blast
    show "?P w2" if "update_status (wk_tx W) (clk RUNNING) ?i RUNNING 0 None w1 = (Inr u, w2)" for w2 u
      using transaction_repository.update_step [OF assms(1) _ assms(5), of w1 "clk RUNNING" RUNNING 0 None] f assms(6) that
      by auto
    show "keeps ?P (kuzu_execute_query ms run (msg_tenant m) d q p n)" for q p n
      using fr by (auto simp: keeps_def tab_frame_def)
    show "keeps ?P (catch (guard_do (is_mutating q) (append_wal_entry (wk_locks W) (wk_storage W) (wk_codec W)
        now (msg_tenant m) d q rows)) (\<lambda>_. ret ()))" for q rows
      using wal_step_frame [OF assms(2)] by (auto simp: keeps_def tab_frame_def)
  qed (use assms fs(2) in \<open>simp_all add: field_def\<close>)
  obtain u w2 where w2: "work W clk now m d query fs w1 = (Inr u, w2)"
    using ok by (cases "work W clk now m d query fs w1") (auto simp: is_ok_iff)
  have "status_of (tab w2) ?i = Some ''completed''"
    using transaction_repository.work_effect [OF assms(1,2) refl _ assms(5) _ w2] f assms(6) by simp
  moreover have "run_once W clk now w = (Inr (), w2)"
    using assms(7-9) fs w2 by (simp add: run_once_def assms(4) process_message_def payload_uuid_def field_def catch_def)
  ultimately show ?thesis by simp
qed

lemma thirty_chars: "char_of (51 :: nat) = CHR ''3''" "char_of (48 :: nat) = CHR ''0''"
  by code_simp+

theorem worker_completes_whatever_the_engine_does_witness:
  "\<exists>w. status_of (tx_tab w) uuid_b = Some ''pending'' \<and>
     status_of (tx_tab (snd (run_once demo_worker (\<lambda>_. ''t1'') (DT 2024 5 1 12 0 0 0) w))) uuid_b = Some ''completed''"
proof -
  obtain w i w1 where w: "tx_inv w" "tx_tab w uuid_b = Some (map_of (tx_fields ''t0'' (demo_tx uuid_b PENDING)))"
    "dequeue_transaction (wk_queue demo_worker) (wk_group demo_worker) (wk_name demo_worker) w =
       (Inr (Some \<lparr>message_id = i, msg_transaction = uuid_b, msg_tenant = uuid_a\<rparr>), w1)"
    using demo_worker_queue by (elim exE conjE)
  let ?h = "map_of (tx_fields ''t0'' (demo_tx uuid_b PENDING))"
  have h: "?h ''database_id'' = Some uuid_b" "?h ''query'' = Some ''MATCH (n) RETURN n''"
    "?h ''parameters'' = Some ''{}''" "?h ''timeout_seconds'' = Some ''30''" "?h ''status'' = Some ''pending''"
    by (simp_all add: tx_fields_def demo_tx_def py_str_nat.simps thirty_chars)
  have T: "transaction_repository (wk_tx demo_worker) tx_tab tx_inv"
    using ref.transactions.transaction_repository_axioms by (simp add: demo_worker_def)
  have "status_of (tx_tab (snd (run_once demo_worker (\<lambda>_. ''t1'') (DT 2024 5 1 12 0 0 0) w)))
      (msg_transaction \<lparr>message_id = i, msg_transaction = uuid_b, msg_tenant = uuid_a\<rparr>) = Some ''completed''"
  proof (rule worker_completes_whatever_the_engine_does
      [OF T demo_worker_frames w(1,3), THEN conjunct2, of ?h uuid_b uuid_b "''MATCH (n) RETURN n''"
        "''1.5''" "\<lambda>t d q. throw RuntimeError ''Parser exception''"])
    show "is_ok (py_int_text (case ?h ''timeout_seconds'' of None \<Rightarrow> ''30'' | Some s \<Rightarrow> s))"
      by (simp add: h py_int_text_def digit_val_def)
    show "\<forall>i. never_raises (acknowledge_transaction (wk_queue demo_worker) (wk_group demo_worker) i)"
      by (simp add: demo_worker_def redis_queue_def never_raises_def redis_acknowledge_def andthen_def bind_def
          ref_redis_def ret_def)
  qed (use w(2) h in \<open>simp_all add: demo_worker_def demo_uuids ret_def data_dir_def load_parameters_def\<close>)
  moreover have "status_of (tx_tab w) uuid_b = Some ''pending''" by (simp add: w(2) status_of_def h)
  ultimately show ?thesis by auto
qed

end
