(* ===== verification/PITR_Timeline.thy ===== *)
theory PITR_Timeline
  imports WAL_Files "HOL-Library.AList"
begin

text \<open>
  The timeline of a database (\<open>application/usecases/list_database_pitr.py\<close>): its snapshots and log
  files in a range, the files counted by minute or by hour, optionally with the last query and the
  query types of each window, and optionally the plan of a restore. Windows are kept under their start;
  the code's keys are the ISO texts of the starts, which sort as the times do. A dict is an association
  list in insertion order.
\<close>

section \<open>Requests and results\<close>

record timeline_request =
  tr_tenant :: uuid
  tr_database :: uuid
  tr_start :: "dt option"
  tr_end :: "dt option"
  tr_target :: "dt option"
  tr_window :: "string option"
  tr_types :: bool
  tr_queries :: bool

record window =
  wn_end :: "dt option"
  wn_files :: nat
  wn_bytes :: nat
  wn_types :: "(string \<times> nat) list"
  wn_last :: "(string \<times> string list \<times> nat) option"

type_synonym windows = "(dt \<times> window) list"

record restore_plan =
  pl_target :: dt
  pl_snapshot :: snapshot
  pl_files :: "wal_file list"
  pl_bytes :: nat

record timeline =
  tl_start :: dt
  tl_end :: dt
  tl_snapshots :: "snapshot list"
  tl_files :: "wal_file list"
  tl_windows :: windows
  tl_plan :: "restore_plan option"

section \<open>The range\<close>

text \<open>\<open>now.replace(year=y)\<close>.\<close>

definition replace_year :: "dt \<Rightarrow> nat \<Rightarrow> dt result" where
  "replace_year d y = (if y = 0 \<or> 9999 < y then raise ValueError ''year is out of range''
     else if days_in_month y (month d) < day d then raise ValueError ''day is out of range for month''
     else Inr (DT y (month d) (day d) (hour d) (minute d) (sec d) (micro d)))"

definition range_start :: "dt \<Rightarrow> dt option \<Rightarrow> dt result" where
  "range_start now start = (case start of Some d \<Rightarrow> Inr d | None \<Rightarrow> replace_year now (year now - 1))"

definition range_end :: "dt \<Rightarrow> dt option \<Rightarrow> dt" where
  "range_end now stop = (case stop of Some d \<Rightarrow> d | None \<Rightarrow> now)"

text \<open>A creation time that does not parse is skipped; a naive one raises outside the \<open>try\<close>.\<close>

fun snapshots_in_range :: "dt \<Rightarrow> dt \<Rightarrow> snapshot list \<Rightarrow> snapshot list result" where
  "snapshots_in_range start stop [] = Inr []"
| "snapshots_in_range start stop (s # ss) = (case snap_created s of
       NotStr \<Rightarrow> snapshots_in_range start stop ss
     | BadIso \<Rightarrow> snapshots_in_range start stop ss
     | IsoNaive _ \<Rightarrow> raise TypeError ''can't compare offset-naive and offset-aware datetimes''
     | IsoAware d \<Rightarrow> bind_r (snapshots_in_range start stop ss)
         (\<lambda>rest. Inr (if start \<le> d \<and> d \<le> stop then s # rest else rest)))"

section \<open>Windows\<close>

definition window_name :: "string option \<Rightarrow> string" where
  "window_name w = (let n = py_lower (case w of Some (c # cs) \<Rightarrow> c # cs | _ \<Rightarrow> ''minute'')
     in if n \<in> {''minute'', ''hour''} then n else ''minute'')"

definition window_start :: "string \<Rightarrow> dt \<Rightarrow> dt" where
  "window_start n ts = (if n = ''hour'' then trunc_hour ts else trunc_min ts)"

definition window_end :: "string \<Rightarrow> dt \<Rightarrow> dt" where
  "window_end n ts = (if n = ''hour'' then DT (year ts) (month ts) (day ts) (hour ts) 59 59 0
     else DT (year ts) (month ts) (day ts) (hour ts) (minute ts) 59 0)"

definition new_window :: window where
  "new_window = \<lparr>wn_end = None, wn_files = 0, wn_bytes = 0, wn_types = [], wn_last = None\<rparr>"

definition count_file :: "string \<Rightarrow> windows \<Rightarrow> wal_file \<Rightarrow> windows" where
  "count_file n ws f = (let k = window_start n (wf_ts f);
       s = (case map_of ws k of Some s \<Rightarrow> s | None \<Rightarrow> new_window)
     in AList.update k (s\<lparr>wn_files := wn_files s + 1, wn_bytes := wn_bytes s + wf_size f\<rparr>) ws)"

definition file_windows :: "string \<Rightarrow> wal_file list \<Rightarrow> windows" where
  "file_windows n files = foldl (count_file n) [] files"

definition count_windows :: "string \<Rightarrow> wal_file list \<Rightarrow> windows" where
  "count_windows n files = map (\<lambda>(k, s). (k, s\<lparr>wn_end := Some (window_end n k)\<rparr>)) (file_windows n files)"

definition files_by_window :: "string \<Rightarrow> wal_file list \<Rightarrow> (dt \<times> wal_file list) list" where
  "files_by_window n files = foldl (\<lambda>m f. let k = window_start n (wf_ts f) in
     AList.update k ((case map_of m k of Some fs \<Rightarrow> fs | None \<Rightarrow> []) @ [f]) m) [] files"

section \<open>The last query of each window\<close>

definition last_entry :: "wal_line list \<Rightarrow> (string \<times> string list \<times> nat) option" where
  "last_entry ls = (case rev (filter (\<lambda>l. l \<noteq> Blank) ls) of
       Entry _ q rs n # _ \<Rightarrow> Some (q, rs, n) | _ \<Rightarrow> None)"

definition last_query ::
  "('w, 'b) storage_port \<Rightarrow> 'b codec \<Rightarrow> string \<Rightarrow> ('w, (string \<times> string list \<times> nat) option) act" where
  "last_query S J k =
     catch (bind (download_database S k) (\<lambda>data. ret (last_entry (lines_of J data)))) (\<lambda>_. ret None)"

fun fill_last ::
  "('w, 'b) storage_port \<Rightarrow> 'b codec \<Rightarrow> (dt \<times> wal_file list) list \<Rightarrow> windows \<Rightarrow> ('w, windows) act" where
  "fill_last S J [] ws = ret ws"
| "fill_last S J ((k, fs) # gs) ws =
     bind (case py_max wf_ts fs of None \<Rightarrow> ret None | Some f \<Rightarrow> last_query S J (wf_key f)) (\<lambda>data.
       fill_last S J gs (case data of None \<Rightarrow> ws
         | Some x \<Rightarrow> AList.map_entry k (\<lambda>s. s\<lparr>wn_last := Some x\<rparr>) ws))"

section \<open>The query types of each window\<close>

definition add_count :: "string \<Rightarrow> nat \<Rightarrow> (string \<times> nat) list \<Rightarrow> (string \<times> nat) list" where
  "add_count k n m = AList.update k ((case map_of m k of Some c \<Rightarrow> c | None \<Rightarrow> 0) + n) m"

definition classify_lines :: "wal_line list \<Rightarrow> (string \<times> nat) list" where
  "classify_lines ls = foldl (\<lambda>m l. case l of Entry _ q _ _ \<Rightarrow> add_count (query_type q) 1 m | _ \<Rightarrow> m) [] ls"

definition classify_file ::
  "('w, 'b) storage_port \<Rightarrow> 'b codec \<Rightarrow> string \<Rightarrow> ('w, (string \<times> nat) list) act" where
  "classify_file S J k =
     catch (bind (download_database S k) (\<lambda>data. ret (classify_lines (lines_of J data)))) (\<lambda>_. ret [])"

fun classify_files ::
  "('w, 'b) storage_port \<Rightarrow> 'b codec \<Rightarrow> wal_file list \<Rightarrow> (string \<times> nat) list \<Rightarrow> ('w, (string \<times> nat) list) act" where
  "classify_files S J [] acc = ret acc"
| "classify_files S J (f # fs) acc = bind (classify_file S J (wf_key f)) (\<lambda>c.
     classify_files S J fs (foldl (\<lambda>m (k, v). add_count k v m) acc c))"

fun fill_types ::
  "('w, 'b) storage_port \<Rightarrow> 'b codec \<Rightarrow> (dt \<times> wal_file list) list \<Rightarrow> windows \<Rightarrow> ('w, windows) act" where
  "fill_types S J [] ws = ret ws"
| "fill_types S J ((k, fs) # gs) ws = bind (classify_files S J fs []) (\<lambda>c.
     fill_types S J gs (AList.map_entry k (\<lambda>s. s\<lparr>wn_types := c\<rparr>) ws))"

section \<open>The plan of a restore\<close>

definition make_plan :: "snapshot list \<Rightarrow> wal_file list \<Rightarrow> dt \<Rightarrow> restore_plan result" where
  "make_plan snapshots files target = bind_r (timeline_nearest snapshots target) (\<lambda>used. case used of
       None \<Rightarrow> raise FileNotFoundError ''No snapshot found before target''
     | Some s \<Rightarrow> (let apply_files = filter (\<lambda>f. snap_time s \<le> wf_ts f \<and> wf_ts f \<le> target) files
         in Inr \<lparr>pl_target = target, pl_snapshot = s, pl_files = apply_files,
              pl_bytes = sum_list (map wf_size apply_files)\<rparr>))"

section \<open>The use case\<close>

definition timeline_windows ::
  "('w, 'b) storage_port \<Rightarrow> 'b codec \<Rightarrow> timeline_request \<Rightarrow> wal_file list \<Rightarrow> ('w, windows) act" where
  "timeline_windows S J req files = (let n = window_name (tr_window req); gs = files_by_window n files in
     bind (if tr_queries req \<and> files \<noteq> [] then fill_last S J gs (count_windows n files)
           else ret (count_windows n files)) (\<lambda>ws.
     if tr_types req \<and> files \<noteq> [] then fill_types S J gs ws else ret ws))"

definition list_database_pitr ::
  "'w authz_port \<Rightarrow> (uuid \<Rightarrow> ('w, snapshot list) act) \<Rightarrow> ('w, 'b) storage_port \<Rightarrow> 'b codec \<Rightarrow> dt \<Rightarrow>
   timeline_request \<Rightarrow> ('w, timeline) act" where
  "list_database_pitr A list_by_database S J now req =
     andthen (require A (tr_tenant req) ''database'' ''read'' ''Not authorized to read database PITR timeline'')
    (bind (of_result (range_start now (tr_start req))) (\<lambda>start. let stop = range_end now (tr_end req) in
     bind (list_by_database (tr_database req)) (\<lambda>snaps.
     bind (of_result (snapshots_in_range start stop snaps)) (\<lambda>snapshots.
     bind (timeline_wal_files S (tr_tenant req) (tr_database req) start stop) (\<lambda>files.
     bind (timeline_windows S J req files) (\<lambda>ws.
     bind (of_result (case tr_target req of None \<Rightarrow> Inr None
           | Some t \<Rightarrow> bind_r (make_plan snapshots files t) (\<lambda>p. Inr (Some p)))) (\<lambda>plan.
     ret \<lparr>tl_start = start, tl_end = stop, tl_snapshots = snapshots, tl_files = files,
       tl_windows = py_sorted fst ws, tl_plan = plan\<rparr>)))))))"

section \<open>Counting\<close>

lemma sum_update:
  fixes g :: "'b \<Rightarrow> nat"
  shows "sum_list (map (\<lambda>p. g (snd p)) (AList.update k v xs)) + (case map_of xs k of Some s \<Rightarrow> g s | None \<Rightarrow> 0) =
    sum_list (map (\<lambda>p. g (snd p)) xs) + g v"
  by (induction xs) (auto split: option.splits)

lemma sum_count_file:
  fixes g :: "window \<Rightarrow> nat"
  assumes "g new_window = 0"
    and "\<And>s. g (s\<lparr>wn_files := wn_files s + 1, wn_bytes := wn_bytes s + wf_size f\<rparr>) = g s + d"
  shows "sum_list (map (\<lambda>p. g (snd p)) (count_file n ws f)) = sum_list (map (\<lambda>p. g (snd p)) ws) + d"
proof -
  let ?k = "window_start n (wf_ts f)"
  let ?s = "case map_of ws ?k of Some s \<Rightarrow> s | None \<Rightarrow> new_window"
  have "(case map_of ws ?k of Some s \<Rightarrow> g s | None \<Rightarrow> 0) = g ?s" by (simp add: assms(1) split: option.split)
  then show ?thesis
    using sum_update [of g ?k "?s\<lparr>wn_files := wn_files ?s + 1, wn_bytes := wn_bytes ?s + wf_size f\<rparr>" ws]
      assms(2) [of ?s]
    by (simp add: count_file_def Let_def)
qed

definition window_group :: "string \<Rightarrow> dt \<Rightarrow> wal_file list \<Rightarrow> wal_file list" where
  "window_group n k files = filter (\<lambda>f. window_start n (wf_ts f) = k) files"

lemma file_windows_facts:
  shows "distinct (map fst (file_windows n files))"
    and "fst ` set (file_windows n files) = (\<lambda>f. window_start n (wf_ts f)) ` set files"
    and "map_of (file_windows n files) k = Some s \<Longrightarrow> wn_files s = length (window_group n k files) \<and>
      wn_bytes s = sum_list (map wf_size (window_group n k files))"
    and "sum_list (map (\<lambda>p. wn_files (snd p)) (file_windows n files)) = length files"
    and "sum_list (map (\<lambda>p. wn_bytes (snd p)) (file_windows n files)) = sum_list (map wf_size files)"
proof -
  show keys: "fst ` set (file_windows n files) = (\<lambda>f. window_start n (wf_ts f)) ` set files" for files
    unfolding file_windows_def by (induction files rule: rev_induct) (simp_all add: count_file_def Let_def AList.dom_update)
  show "distinct (map fst (file_windows n files))"
    unfolding file_windows_def by (induction files rule: rev_induct) (simp_all add: count_file_def Let_def AList.distinct_update)
  show "map_of (file_windows n files) k = Some s \<Longrightarrow> wn_files s = length (window_group n k files) \<and>
      wn_bytes s = sum_list (map wf_size (window_group n k files))"
  proof (induction files arbitrary: s rule: rev_induct)
    case Nil
    then show ?case by (simp add: file_windows_def)
  next
    case (snoc f fs)
    have none: "map_of (file_windows n fs) k = None \<Longrightarrow> window_group n k fs = []"
      using keys [of fs] by (auto simp: map_of_eq_None_iff window_group_def filter_empty_conv)
    have step: "file_windows n (fs @ [f]) = count_file n (file_windows n fs) f" by (simp add: file_windows_def)
    show ?case
    proof (cases "window_start n (wf_ts f) = k")
      case True
      with snoc none show ?thesis
        by (auto simp: step count_file_def Let_def AList.update_conv' new_window_def window_group_def
            split: option.splits)
    next
      case False
      with snoc show ?thesis
        by (simp add: step count_file_def Let_def AList.update_conv' window_group_def)
    qed
  qed
  have step: "file_windows n (fs @ [f]) = count_file n (file_windows n fs) f" for fs f
    by (simp add: file_windows_def)
  show "sum_list (map (\<lambda>p. wn_files (snd p)) (file_windows n files)) = length files"
    by (induction files rule: rev_induct)
      (simp add: file_windows_def, simp add: step sum_count_file [where d = 1] new_window_def)
  show "sum_list (map (\<lambda>p. wn_bytes (snd p)) (file_windows n files)) = sum_list (map wf_size files)"
  proof (induction files rule: rev_induct)
    case (snoc f fs)
    then show ?case by (simp add: step sum_count_file [where d = "wf_size f"] new_window_def)
  qed (simp add: file_windows_def)
qed

text \<open>Filling in queries and types changes nothing else.\<close>

definition bare :: "windows \<Rightarrow> windows" where
  "bare ws = map (\<lambda>(k, s). (k, s\<lparr>wn_types := [], wn_last := None\<rparr>)) ws"

lemma bare_map_entry:
  "(\<And>s. (f s)\<lparr>wn_types := [], wn_last := None\<rparr> = s\<lparr>wn_types := [], wn_last := None\<rparr>) \<Longrightarrow>
     bare (AList.map_entry k f ws) = bare ws"
  by (induction ws) (auto simp: bare_def)

lemma bare_fill_last: "fill_last S J gs ws w = (Inr ws', w') \<Longrightarrow> bare ws' = bare ws"
proof (induction gs arbitrary: ws w)
  case (Cons g gs)
  obtain k fs where g: "g = (k, fs)" by force
  show ?case
    using Cons.prems unfolding g
    by (auto simp: bare_map_entry elim!: bind_okE dest!: Cons.IH split: option.splits)
qed (simp add: ret_def)

lemma bare_fill_types: "fill_types S J gs ws w = (Inr ws', w') \<Longrightarrow> bare ws' = bare ws"
proof (induction gs arbitrary: ws w)
  case (Cons g gs)
  obtain k fs where g: "g = (k, fs)" by force
  show ?case
    using Cons.prems unfolding g by (auto simp: bare_map_entry elim!: bind_okE dest!: Cons.IH)
qed (simp add: ret_def)

lemma timeline_windows_run:
  assumes "timeline_windows S J req files w = (Inr ws, w')"
  defines "n \<equiv> window_name (tr_window req)"
  shows "bare ws = bare (count_windows n files)"
    and "tr_types req \<and> files \<noteq> [] \<longrightarrow> (\<exists>ws1 u u'. fill_types S J (files_by_window n files) ws1 u = (Inr ws, u'))"
proof -
  obtain ws1 w1 where 1: "bare ws1 = bare (count_windows n files)"
    and 2: "(if tr_types req \<and> files \<noteq> [] then fill_types S J (files_by_window n files) ws1 else ret ws1) w1 = (Inr ws, w')"
    using assms(1) unfolding timeline_windows_def Let_def n_def [symmetric]
    by (elim bind_okE) (auto simp: ret_def dest!: bare_fill_last split: if_splits)
  show "bare ws = bare (count_windows n files)"
    using 1 2 by (auto simp: ret_def dest!: bare_fill_types split: if_splits)
  show "tr_types req \<and> files \<noteq> [] \<longrightarrow> (\<exists>ws1 u u'. fill_types S J (files_by_window n files) ws1 u = (Inr ws, u'))"
  proof
    assume "tr_types req \<and> files \<noteq> []"
    with 2 have "fill_types S J (files_by_window n files) ws1 w1 = (Inr ws, w')" by simp
    then show "\<exists>ws1 u u'. fill_types S J (files_by_window n files) ws1 u = (Inr ws, u')" by (intro exI)
  qed
qed

text \<open>What a run that returned went through.\<close>

lemma list_database_pitr_run:
  assumes "list_database_pitr A list_by S J now req w = (Inr r, w')"
  obtains snaps w1 w2 w3 ws w4 where
    "range_start now (tr_start req) = Inr (tl_start r)" "tl_end r = range_end now (tr_end req)"
    "list_by (tr_database req) w1 = (Inr snaps, w2)"
    "snapshots_in_range (tl_start r) (tl_end r) snaps = Inr (tl_snapshots r)"
    "timeline_wal_files S (tr_tenant req) (tr_database req) (tl_start r) (tl_end r) w2 = (Inr (tl_files r), w3)"
    "timeline_windows S J req (tl_files r) w3 = (Inr ws, w4)" "tl_windows r = py_sorted fst ws"
    "case tr_target req of None \<Rightarrow> tl_plan r = None
       | Some t \<Rightarrow> \<exists>p. make_plan (tl_snapshots r) (tl_files r) t = Inr p \<and> tl_plan r = Some p"
  using assms unfolding list_database_pitr_def Let_def
  by (elim andthen_okE bind_okE) (auto simp: of_result_def ret_def bind_r_ok_iff split: option.splits)

text \<open>What \<open>bare\<close> tells of a window.\<close>

definition counts :: "dt \<times> window \<Rightarrow> dt \<times> nat \<times> nat \<times> dt option" where
  "counts p = (fst p, wn_files (snd p), wn_bytes (snd p), wn_end (snd p))"

lemma bare_counts:
  assumes "bare ws = bare vs"
  shows "map counts ws = map counts vs" "map fst ws = map fst vs"
proof -
  have c: "map counts us = map counts (bare us)" for us by (simp add: bare_def counts_def case_prod_unfold comp_def)
  show "map counts ws = map counts vs" using assms c [of ws] c [of vs] by simp
  then have "map fst (map counts ws) = map fst (map counts vs)" by simp
  then show "map fst ws = map fst vs" by (simp add: comp_def counts_def)
qed

lemma counts_sums:
  "map counts ws = map counts vs \<Longrightarrow>
     sum_list (map (\<lambda>p. wn_files (snd p)) ws) = sum_list (map (\<lambda>p. wn_files (snd p)) vs) \<and>
     sum_list (map (\<lambda>p. wn_bytes (snd p)) ws) = sum_list (map (\<lambda>p. wn_bytes (snd p)) vs)"
proof -
  assume a: "map counts ws = map counts vs"
  have "map (fst \<circ> snd) (map counts ws) = map (fst \<circ> snd) (map counts vs)"
    "map (fst \<circ> snd \<circ> snd) (map counts ws) = map (fst \<circ> snd \<circ> snd) (map counts vs)" unfolding a by simp_all
  then have "map (\<lambda>p. wn_files (snd p)) ws = map (\<lambda>p. wn_files (snd p)) vs"
    "map (\<lambda>p. wn_bytes (snd p)) ws = map (\<lambda>p. wn_bytes (snd p)) vs"
    by (simp_all add: comp_def counts_def)
  then show ?thesis by simp
qed

lemma count_windows_facts:
  shows "map fst (count_windows n files) = map fst (file_windows n files)"
    and "sum_list (map (\<lambda>p. wn_files (snd p)) (count_windows n files)) = length files"
    and "sum_list (map (\<lambda>p. wn_bytes (snd p)) (count_windows n files)) = sum_list (map wf_size files)"
    and "(k, s) \<in> set (count_windows n files) \<Longrightarrow> wn_files s = length (window_group n k files) \<and>
      wn_bytes s = sum_list (map wf_size (window_group n k files)) \<and> wn_end s = Some (window_end n k)"
proof -
  show "map fst (count_windows n files) = map fst (file_windows n files)"
    by (simp add: count_windows_def case_prod_unfold comp_def)
  show "sum_list (map (\<lambda>p. wn_files (snd p)) (count_windows n files)) = length files"
    "sum_list (map (\<lambda>p. wn_bytes (snd p)) (count_windows n files)) = sum_list (map wf_size files)"
    by (simp_all add: count_windows_def case_prod_unfold comp_def file_windows_facts(4,5))
  show "wn_files s = length (window_group n k files) \<and>
      wn_bytes s = sum_list (map wf_size (window_group n k files)) \<and> wn_end s = Some (window_end n k)"
    if "(k, s) \<in> set (count_windows n files)"
  proof -
    from that obtain s0 where s0: "(k, s0) \<in> set (file_windows n files)" "s = s0\<lparr>wn_end := Some (window_end n k)\<rparr>"
      by (auto simp: count_windows_def)
    then have "map_of (file_windows n files) k = Some s0" by (simp add: file_windows_facts(1))
    from file_windows_facts(3) [OF this] show ?thesis by (simp add: s0(2))
  qed
qed

text \<open>A file lies within its window.\<close>

lemma strptime_valid: "strptime_compact s = Inr t \<Longrightarrow> valid_dt t \<and> micro t = 0"
  by (auto simp: strptime_compact_def Let_def split: list.splits if_splits)

lemma window_bounds:
  assumes "valid_dt t" "micro t = 0"
  shows "window_start n t \<le> t" "t \<le> window_end n (window_start n t)"
  using assms by (cases t; auto simp: window_start_def window_end_def trunc_hour_def trunc_min_def valid_dt_def)+

lemma timeline_files_valid:
  assumes "timeline_wal_files S t d start stop w = (Inr files, w')" "f \<in> set files"
  shows "valid_dt (wf_ts f) \<and> micro (wf_ts f) = 0 \<and> start \<le> wf_ts f \<and> wf_ts f \<le> stop"
proof -
  have "f \<in> set (List.map_filter (log_select start stop) os) \<Longrightarrow> \<exists>ob. log_select start stop ob = Some f" for os
    by (auto simp: map_filter_def)
  moreover obtain os where "files = List.map_filter (log_select start stop) os"
    using assms(1) by (auto simp: timeline_wal_files_def ret_def elim!: bind_okE)
  ultimately obtain ob where "log_select start stop ob = Some f" using assms(2) by blast
  then obtain ts where "name_time (file_name (obj_key ob)) = Inr ts" "start \<le> ts" "ts \<le> stop" "wf_ts f = ts"
    by (auto simp: log_select_def in_range_def Let_def split: if_splits sum.splits)
  then show ?thesis using strptime_valid by (simp add: name_time_def)
qed

lemma sorted_windows:
  assumes "distinct (map fst ws)"
  shows "sorted_wrt (<) (map fst (py_sorted fst (ws :: (dt \<times> 'b) list)))"
proof -
  have "distinct (map fst (sort_key fst ws))"
    using assms by (metis distinct_map distinct_sort set_sort)
  then show ?thesis by (simp add: py_sorted_def strict_sorted_iff)
qed

text \<open>The most recent element of a range is the most recent one of all, if the range has every later one.\<close>

lemma py_max_filter:
  assumes "py_max f (filter Q xs) = Some s" "\<And>x. x \<in> set xs \<Longrightarrow> f s \<le> f x \<Longrightarrow> Q x"
  shows "py_max f xs = Some s"
proof -
  note m = py_max_SomeD [OF assms(1)]
  have le: "f x \<le> f s" if "x \<in> set xs" for x
    using assms(2) [OF that] m(2) [of x] that by (cases "f s \<le> f x") auto
  have ne: "xs \<noteq> []" "filter Q xs \<noteq> []" using m(1) by (auto simp: filter_empty_conv)
  have is_max: "(\<forall>y \<in> set xs. f y \<le> f x) \<longleftrightarrow> f x = f s" "(\<forall>y \<in> set (filter Q xs). f y \<le> f x) \<longleftrightarrow> f x = f s"
    if "x \<in> set xs" for x
    using that le m(1) by (auto intro: order_antisym)
  have "filter (\<lambda>x. \<forall>y \<in> set xs. f y \<le> f x) xs = filter (\<lambda>x. f x = f s) xs"
    using is_max(1) by (intro filter_cong) auto
  also have "\<dots> = filter (\<lambda>x. \<forall>y \<in> set (filter Q xs). f y \<le> f x) (filter Q xs)"
    unfolding filter_filter using is_max(2) assms(2) by (intro filter_cong) auto
  finally show ?thesis using py_max_eq_hd_filter [OF ne(1), of f] py_max_eq_hd_filter [OF ne(2), of f] assms(1) by simp
qed

lemma snapshots_in_range_aware:
  "all_aware ss \<Longrightarrow> snapshots_in_range start stop ss =
     Inr (filter (\<lambda>s. start \<le> snap_time s \<and> snap_time s \<le> stop) ss)"
  by (induction ss) (auto simp: all_aware_iff)

lemma restore_select_within:
  assumes "startswith (file_name (obj_key ob)) ''wal-'' \<Longrightarrow> endswith (file_name (obj_key ob)) ''.log''"
    and "start \<le> lo" "t \<le> stop"
  shows "restore_select lo t ob = (case log_select start stop ob of None \<Rightarrow> None
    | Some f \<Rightarrow> if lo \<le> wf_ts f \<and> wf_ts f \<le> t then Some f else None)"
  using assms by (auto simp: restore_select_def log_select_def in_range_def Let_def split: sum.splits)

lemma map_filter_then_filter:
  "(\<And>x. x \<in> set xs \<Longrightarrow> g x = (case h x of None \<Rightarrow> None | Some y \<Rightarrow> if P y then Some y else None)) \<Longrightarrow>
     List.map_filter g xs = filter P (List.map_filter h xs)"
  by (induction xs) (auto simp: map_filter_simps split: option.splits)

section \<open>Query types\<close>

definition count_of :: "(string \<times> nat) list \<Rightarrow> string \<Rightarrow> nat" where
  "count_of m ty = (case map_of m ty of Some c \<Rightarrow> c | None \<Rightarrow> 0)"

definition of_type :: "string \<Rightarrow> wal_line \<Rightarrow> bool" where
  "of_type ty l = (case l of Entry _ q _ _ \<Rightarrow> query_type q = ty | _ \<Rightarrow> False)"

lemma count_of_add: "count_of (add_count k n m) ty = count_of m ty + (if ty = k then n else 0)"
  by (auto simp: count_of_def add_count_def AList.update_conv')

lemma distinct_add_count: "distinct (map fst m) \<Longrightarrow> distinct (map fst (add_count k n m))"
  by (simp add: add_count_def AList.distinct_update)

lemma classify_lines_count:
  "count_of (classify_lines ls) ty = length (filter (of_type ty) ls) \<and> distinct (map fst (classify_lines ls))"
proof (induction ls rule: rev_induct)
  case Nil
  then show ?case by (simp add: classify_lines_def count_of_def)
next
  case (snoc l ls)
  have "classify_lines (ls @ [l]) = (case l of Entry _ q _ _ \<Rightarrow> add_count (query_type q) 1 (classify_lines ls)
      | _ \<Rightarrow> classify_lines ls)" unfolding classify_lines_def by (simp split: wal_line.splits)
  with snoc show ?case
    by (cases l) (simp_all add: of_type_def count_of_add distinct_add_count)
qed

lemma merge_counts:
  "distinct (map fst c) \<Longrightarrow> count_of (foldl (\<lambda>m (k, v). add_count k v m) acc c) ty = count_of acc ty + count_of c ty"
proof (induction c arbitrary: acc)
  case (Cons p c)
  obtain k v where p: "p = (k, v)" by force
  have "k \<notin> fst ` set c" using Cons.prems by (simp add: p)
  then have "map_of c k = None" by (simp add: map_of_eq_None_iff)
  then have "count_of (p # c) ty = (if ty = k then v else count_of c ty)" "count_of c k = 0"
    by (simp_all add: p count_of_def)
  moreover have "count_of (foldl (\<lambda>m (k, v). add_count k v m) (add_count k v acc) c) ty =
      count_of (add_count k v acc) ty + count_of c ty"
    using Cons.prems by (intro Cons.IH) simp
  ultimately show ?case by (simp add: p count_of_add)
qed (simp add: count_of_def)

lemma classify_files_count:
  assumes "\<forall>f \<in> set fs. \<forall>u. download_database S (wf_key f) u = (Inr (txt (wf_key f)), u)"
  shows "\<exists>c. classify_files S J fs acc w = (Inr c, w) \<and> (\<forall>ty. count_of c ty = count_of acc ty +
    length (filter (of_type ty) (concat (map (\<lambda>f. lines_of J (txt (wf_key f))) fs))))"
  using assms
proof (induction fs arbitrary: acc)
  case (Cons f fs)
  have "classify_file S J (wf_key f) w = (Inr (classify_lines (lines_of J (txt (wf_key f)))), w)"
    using Cons.prems by (simp add: classify_file_def catch_def bind_def ret_def)
  moreover note Cons.IH [of "foldl (\<lambda>m (k, v). add_count k v m) acc (classify_lines (lines_of J (txt (wf_key f))))"]
  ultimately show ?case
    using Cons.prems classify_lines_count merge_counts by (auto simp: bind_def)
qed (simp add: ret_def)

lemma files_by_window_facts:
  "distinct (map fst (files_by_window n files)) \<and>
   (\<forall>k. map_of (files_by_window n files) k =
      (if window_group n k files = [] then None else Some (window_group n k files)))"
proof (induction files rule: rev_induct)
  case Nil
  then show ?case by (simp add: files_by_window_def window_group_def)
next
  case (snoc f fs)
  let ?m = "files_by_window n fs" and ?k = "window_start n (wf_ts f)"
  have "files_by_window n (fs @ [f]) =
      AList.update ?k ((case map_of ?m ?k of Some gs \<Rightarrow> gs | None \<Rightarrow> []) @ [f]) ?m"
    by (simp add: files_by_window_def Let_def)
  with snoc show ?case by (auto simp: AList.distinct_update AList.update_conv' window_group_def)
qed

lemma fill_types_result:
  assumes "\<forall>(k, fs) \<in> set gs. \<forall>u. \<exists>c. classify_files S J fs [] u = (Inr c, u) \<and> P k c" "distinct (map fst gs)"
    and "fill_types S J gs ws w = (Inr ws', w')" "map_of ws' k = Some s"
  shows "if k \<in> fst ` set gs then P k (wn_types s) else map_of ws k = Some s"
  using assms
proof (induction gs arbitrary: ws)
  case (Cons g gs)
  obtain k0 fs c where g: "g = (k0, fs)" "classify_files S J fs [] w = (Inr c, w)" "P k0 c"
    using Cons.prems(1) by (cases g) fastforce
  let ?ws = "AList.map_entry k0 (\<lambda>s. s\<lparr>wn_types := c\<rparr>) ws"
  have "fill_types S J gs ?ws w = (Inr ws', w')" using Cons.prems(3) g by (simp add: bind_def)
  with Cons.prems have "if k \<in> fst ` set gs then P k (wn_types s) else map_of ?ws k = Some s"
    by (intro Cons.IH) auto
  then show ?case using g(1,3) Cons.prems(2) by (auto simp: AList.map_of_map_entry split: if_splits option.splits)
qed (simp add: ret_def)

section \<open>A timeline of three log files\<close>

definition demo_log_objects :: "wal_object list" where
  "demo_log_objects =
     [\<lparr>obj_key = object_key uuid_a uuid_b (wal_filename (DT 2025 3 1 10 0 5 0)), obj_size = 10\<rparr>,
      \<lparr>obj_key = object_key uuid_a uuid_b (wal_filename (DT 2025 3 1 10 0 50 0)), obj_size = 20\<rparr>,
      \<lparr>obj_key = object_key uuid_a uuid_b (wal_filename (DT 2025 3 1 10 1 0 0)), obj_size = 5\<rparr>]"

definition demo_logs :: "(unit, wal_line list) storage_port" where
  "demo_logs = \<lparr>upload_database = \<lambda>t d c f. ret f, download_database = \<lambda>k. ret [BadJson,
       Entry (IsoAware (DT 2025 3 1 10 0 5 7)) ''create (n)'' [] 0, Entry NotStr ''MATCH (n) RETURN n'' [] 1],
     delete_object = \<lambda>k. ret True, file_exists = \<lambda>k. ret True, get_file_size = \<lambda>k. ret 0,
     list_objects = \<lambda>p. ret demo_log_objects,
     set_object_tags = \<lambda>k ts. ret True\<rparr>"

definition line_codec :: "wal_line list codec" where
  "line_codec = \<lparr>no_text = [], add_line = \<lambda>t e. t @ [entry_line e], lines_of = \<lambda>t. t\<rparr>"

definition demo_snapshot :: snapshot where
  "demo_snapshot = \<lparr>snap_id = uuid_a, snap_object_key = ''k'', snap_checksum = ''c'', snap_size = 7,
     snap_created = IsoAware (DT 2025 3 1 9 0 0 0)\<rparr>"

definition demo_request :: timeline_request where
  "demo_request = \<lparr>tr_tenant = uuid_a, tr_database = uuid_b, tr_start = None, tr_end = None,
     tr_target = Some (DT 2025 3 1 10 0 55 0), tr_window = Some ''Minute'', tr_types = True, tr_queries = True\<rparr>"

definition demo_file :: "dt \<Rightarrow> nat \<Rightarrow> wal_file" where
  "demo_file d n = \<lparr>wf_key = object_key uuid_a uuid_b (wal_filename d), wf_ts = d, wf_size = n\<rparr>"

definition demo_files :: "wal_file list" where
  "demo_files = [demo_file (DT 2025 3 1 10 0 5 0) 10, demo_file (DT 2025 3 1 10 0 50 0) 20, demo_file (DT 2025 3 1 10 1 0 0) 5]"

lemma demo_facts:
  "query_type ''create (n)'' = ''CREATE''" "query_type ''MATCH (n) RETURN n'' = ''READ''"
  "window_name (Some ''Minute'') = ''minute''"
  by code_simp+

lemma demo_listing: "timeline_wal_files demo_logs uuid_a uuid_b (DT 2024 3 2 0 0 0 0) (DT 2025 3 2 0 0 0 0) u = (Inr demo_files, u)"
proof -
  have v: "valid_dt (DT 2025 3 1 10 0 5 0)" "valid_dt (DT 2025 3 1 10 0 50 0)" "valid_dt (DT 2025 3 1 10 1 0 0)"
    by (simp_all add: valid_dt_def days_in_month_def)
  note s = v [THEN select_wal(2), where t = uuid_a and db = uuid_b]
  show ?thesis
    by (simp add: timeline_wal_files_def demo_logs_def demo_log_objects_def bind_def ret_def map_filter_simps s
        demo_files_def demo_file_def trunc_sec_def)
qed

lemma demo_timeline_run:
  "\<exists>r. list_database_pitr allow_all (\<lambda>d. ret [demo_snapshot]) demo_logs line_codec (DT 2025 3 2 0 0 0 0) demo_request () =
     (Inr r, ()) \<and> tl_files r = demo_files \<and> tl_end r = DT 2025 3 2 0 0 0 0 \<and>
     map (\<lambda>p. (fst p, wn_files (snd p), wn_types (snd p))) (tl_windows r) =
       [(DT 2025 3 1 10 0 0 0, 2, [(''CREATE'', 2), (''READ'', 2)]), (DT 2025 3 1 10 1 0 0, 1, [(''CREATE'', 1), (''READ'', 1)])]"
proof -
  let ?k1 = "DT 2025 3 1 10 0 0 0" and ?k2 = "DT 2025 3 1 10 1 0 0"
  have st: "range_start (DT 2025 3 2 0 0 0 0) None = Inr (DT 2024 3 2 0 0 0 0)"
    by (simp add: range_start_def replace_year_def days_in_month_def)
  have q: "last_query demo_logs line_codec k u = (Inr (Some (''MATCH (n) RETURN n'', [], 1)), u)" for k u
    by (simp add: last_query_def demo_logs_def line_codec_def last_entry_def catch_def bind_def ret_def)
  have t: "classify_file demo_logs line_codec k u = (Inr [(''CREATE'', 1), (''READ'', 1)], u)" for k u
    by (simp add: classify_file_def demo_logs_def line_codec_def classify_lines_def add_count_def demo_facts
        catch_def bind_def ret_def)
  have c: "count_windows ''minute'' demo_files = [(?k1, new_window\<lparr>wn_end := Some (DT 2025 3 1 10 0 59 0), wn_files := 2, wn_bytes := 30\<rparr>),
      (?k2, new_window\<lparr>wn_end := Some (DT 2025 3 1 10 1 59 0), wn_files := 1, wn_bytes := 5\<rparr>)]"
    by (simp add: count_windows_def file_windows_def count_file_def demo_files_def demo_file_def window_start_def
        window_end_def trunc_min_def new_window_def)
  have g: "files_by_window ''minute'' demo_files = [(?k1, take 2 demo_files), (?k2, drop 2 demo_files)]"
    by (simp add: files_by_window_def Let_def demo_files_def demo_file_def window_start_def trunc_min_def)
  have "\<exists>ws. timeline_windows demo_logs line_codec demo_request demo_files () = (Inr ws, ()) \<and>
      map (\<lambda>p. (fst p, wn_files (snd p), wn_types (snd p))) ws =
        [(?k1, 2, [(''CREATE'', 2), (''READ'', 2)]), (?k2, 1, [(''CREATE'', 1), (''READ'', 1)])] \<and>
      map fst ws = [?k1, ?k2]"
    by (simp add: timeline_windows_def Let_def demo_request_def demo_facts c g)
      (simp add: demo_files_def demo_file_def q t bind_def ret_def add_count_def new_window_def)
  then obtain ws where ws: "timeline_windows demo_logs line_codec demo_request demo_files () = (Inr ws, ())"
    "map (\<lambda>p. (fst p, wn_files (snd p), wn_types (snd p))) ws =
       [(?k1, 2, [(''CREATE'', 2), (''READ'', 2)]), (?k2, 1, [(''CREATE'', 1), (''READ'', 1)])]"
    "map fst ws = [?k1, ?k2]" by (elim exE conjE)
  have plan: "\<exists>p. make_plan [demo_snapshot] demo_files (DT 2025 3 1 10 0 55 0) = Inr p"
    by (simp add: make_plan_def timeline_nearest_def demo_snapshot_def first_desc_def py_sorted_desc_def Let_def)
  have so: "py_sorted fst ws = ws" using ws(3) by (simp add: py_sorted_def sort_key_id_if_sorted)
  have "snapshots_in_range (DT 2024 3 2 0 0 0 0) (DT 2025 3 2 0 0 0 0) [demo_snapshot] = Inr [demo_snapshot]"
    by (simp add: demo_snapshot_def)
  moreover have "tr_tenant demo_request = uuid_a" "tr_database demo_request = uuid_b" "tr_start demo_request = None"
    "tr_end demo_request = None" "tr_target demo_request = Some (DT 2025 3 1 10 0 55 0)"
    by (simp_all add: demo_request_def)
  ultimately show ?thesis
    using plan ws demo_listing
    by (auto simp: list_database_pitr_def Let_def require_def allow_all_def andthen_def bind_def ret_def of_result_def
        st range_end_def so)
qed

section \<open>Properties\<close>



text \<open>Without a start the listing covers the last year, except on a 29th of February: that day it
  raises \<open>ValueError\<close> for every database, before anything is read.\<close>

lemma timeline_fails_on_leap_day:
  assumes "valid_dt now" "1 < year now" "tr_start req = None"
    and "check_permission A (tr_tenant req) ''database'' ''read'' w = (Inr True, w1)"
  shows "(month now = 2 \<and> day now = 29 \<longrightarrow>
      list_database_pitr A list_by S J now req w = (raise ValueError ''day is out of range for month'', w1)) \<and>
    (\<not> (month now = 2 \<and> day now = 29) \<longrightarrow>
      (\<exists>start. range_start now None = Inr start \<and> valid_dt start \<and> Suc (year start) = year now \<and>
        month start = month now \<and> day start = day now))"
proof -
  have leap: "leap_year (year now)" if "month now = 2" "day now = 29"
    using assms(1) that by (auto simp: valid_dt_def days_in_month_def split: if_splits)
  have prior: "\<not> leap_year (year now - 1)" if "leap_year (year now)"
  proof -
    have "year now mod 4 = 0" using that by (simp add: leap_year_def)
    with assms(2) have "(year now - 1) mod 4 \<noteq> 0" by presburger
    then show ?thesis by (simp add: leap_year_def)
  qed
  have bad: "range_start now None = raise ValueError ''day is out of range for month''"
    if "month now = 2" "day now = 29"
  proof -
    have d: "days_in_month (year now - 1) 2 = 28" using prior [OF leap [OF that]] by (simp add: days_in_month_def)
    have y: "year now - 1 \<noteq> 0" "\<not> 9999 < year now - 1" using assms(1,2) unfolding valid_dt_def by linarith+
    show ?thesis unfolding range_start_def option.case replace_year_def that d using y by simp
  qed
  have good: "\<exists>start. range_start now None = Inr start \<and> valid_dt start \<and> Suc (year start) = year now \<and>
      month start = month now \<and> day start = day now" if "\<not> (month now = 2 \<and> day now = 29)"
  proof -
    have "day now \<le> days_in_month (year now - 1) (month now)"
      using that assms(1) by (auto simp: valid_dt_def days_in_month_def split: if_splits)
    then show ?thesis using assms(1,2) by (auto simp: range_start_def replace_year_def valid_dt_def)
  qed
  show ?thesis
    using bad good assms(3,4)
    by (auto simp: list_database_pitr_def require_def andthen_def bind_def of_result_def ret_def)
qed

text \<open>C33: The plan of the timeline is what a restore would do. When the range reaches up to the target, the
  planned snapshot is the one the restore picks among all snapshots of the database, and the planned log
  files are the ones it replays, whose bytes the estimate adds up.\<close>

theorem timeline_plan_is_what_restore_replays:
  assumes "list_database_pitr A list_by S J now req w = (Inr r, w')" "tr_target req = Some t" "t \<le> tl_end r"
    and "\<forall>u. fst (list_by (tr_database req) u) = Inr snaps" "all_aware snaps"
    and "\<forall>u. list_objects S (object_key (tr_tenant req) (tr_database req) ''wal/'') u = (Inr os, u)"
    and "\<forall>ob \<in> set os. startswith (file_name (obj_key ob)) ''wal-'' \<longrightarrow> endswith (file_name (obj_key ob)) ''.log''"
  shows "\<exists>p fs. tl_plan r = Some p \<and> restore_nearest snaps t = Inr (Some (pl_snapshot p)) \<and>
    find_wal_files_in_range S (tr_tenant req) (tr_database req) (snap_time (pl_snapshot p)) t u = (Inr fs, u) \<and>
    mset fs = mset (pl_files p) \<and> pl_bytes p = sum_list (map wf_size fs)"
proof -
  let ?in = "\<lambda>s. tl_start r \<le> snap_time s \<and> snap_time s \<le> tl_end r"
  obtain snaps' w1 w2 w3 where l: "list_by (tr_database req) w1 = (Inr snaps', w2)"
    "snapshots_in_range (tl_start r) (tl_end r) snaps' = Inr (tl_snapshots r)"
    "timeline_wal_files S (tr_tenant req) (tr_database req) (tl_start r) (tl_end r) w2 = (Inr (tl_files r), w3)"
    "\<exists>p. make_plan (tl_snapshots r) (tl_files r) t = Inr p \<and> tl_plan r = Some p"
    by (rule list_database_pitr_run [OF assms(1)], rule that) (simp_all add: assms(2))
  obtain p where p: "make_plan (tl_snapshots r) (tl_files r) t = Inr p" "tl_plan r = Some p" using l(4) by blast
  have "snaps' = snaps" using assms(4) [rule_format, of w1] l(1) by simp
  note inr = l(2) [unfolded this]
  have "tl_snapshots r = filter ?in snaps"
    using inr snapshots_in_range_aware [OF assms(5), of "tl_start r" "tl_end r"] by simp
  moreover from this have "all_aware (tl_snapshots r)" using assms(5) by (simp add: all_aware_iff)
  ultimately have snaps: "tl_snapshots r = filter ?in snaps" "all_aware (tl_snapshots r)" by blast+
  have files: "tl_files r = List.map_filter (log_select (tl_start r) (tl_end r)) os"
    using l(3) assms(6) by (simp add: timeline_wal_files_def bind_def ret_def)
  obtain s where s: "timeline_nearest (tl_snapshots r) t = Inr (Some s)" "pl_snapshot p = s"
    "pl_files p = filter (\<lambda>f. snap_time s \<le> wf_ts f \<and> wf_ts f \<le> t) (tl_files r)"
    "pl_bytes p = sum_list (map wf_size (pl_files p))"
    using p(1) by (auto simp: make_plan_def bind_r_ok_iff Let_def split: option.splits)
  note near = timeline.nearest_SomeD [OF snaps(2) s(1)]
  have start: "tl_start r \<le> snap_time s" using near(1) by (simp add: snaps(1))
  have "list_ex (taken_by t) (tl_snapshots r)" "list_ex (taken_by t) snaps"
    using near(1,2) by (auto simp: snaps(1) list_ex_iff taken_by_def)
  then have "py_max snap_time (filter ?in (filter (taken_by t) snaps)) = Some s"
    and rest: "restore_nearest snaps t = Inr (py_max snap_time (filter (taken_by t) snaps))"
    using timeline.found [OF snaps(2), of t] restore.found [OF assms(5), of t] s(1)
    by (simp_all add: snaps(1) filter_filter conj_commute)
  then have "py_max snap_time (filter (taken_by t) snaps) = Some s"
    using start assms(3) by (elim py_max_filter) (auto simp: taken_by_def intro: order_trans)
  moreover have "List.map_filter (restore_select (snap_time s) t) os = pl_files p"
    unfolding s(3) files using restore_select_within [OF _ start assms(3)] assms(7)
    by (intro map_filter_then_filter) blast
  ultimately show ?thesis
    using assms(6) p(2) rest s(2,4)
    by (auto simp: find_wal_files_in_range_def bind_def catch_def ret_def py_sorted_def simp flip: sum_mset_sum_list)
qed

theorem timeline_plan_is_what_restore_replays_witness:
  "\<exists>fs. find_wal_files_in_range demo_logs uuid_a uuid_b (DT 2025 3 1 9 0 0 0) (DT 2025 3 1 10 0 55 0) () = (Inr fs, ()) \<and>
     restore_nearest [demo_snapshot] (DT 2025 3 1 10 0 55 0) = Inr (Some demo_snapshot)"
proof -
  obtain r where r: "list_database_pitr allow_all (\<lambda>d. ret [demo_snapshot]) demo_logs line_codec (DT 2025 3 2 0 0 0 0)
      demo_request () = (Inr r, ())" "tl_end r = DT 2025 3 2 0 0 0 0"
    using demo_timeline_run by (elim exE conjE)
  have "endswith (file_name (object_key t db (wal_filename d))) ''.log''" if "valid_dt d" for t db d
    using endswith_append [of "''wal-'' @ strftime_compact d" "''.log''"] by (simp add: file_name_wal [OF that])
  then have "\<forall>ob \<in> set demo_log_objects. startswith (file_name (obj_key ob)) ''wal-'' \<longrightarrow> endswith (file_name (obj_key ob)) ''.log''"
    by (simp add: demo_log_objects_def valid_dt_def days_in_month_def)
  moreover have "tr_target demo_request = Some (DT 2025 3 1 10 0 55 0)" "tr_tenant demo_request = uuid_a"
    "tr_database demo_request = uuid_b" "all_aware [demo_snapshot]" "\<forall>u. list_objects demo_logs k u = (Inr demo_log_objects, u)" for k
    by (simp_all add: demo_request_def demo_snapshot_def all_aware_def demo_logs_def ret_def)
  ultimately have "\<exists>p fs. tl_plan r = Some p \<and>
      restore_nearest [demo_snapshot] (DT 2025 3 1 10 0 55 0) = Inr (Some (pl_snapshot p)) \<and>
      find_wal_files_in_range demo_logs uuid_a uuid_b (snap_time (pl_snapshot p)) (DT 2025 3 1 10 0 55 0) () = (Inr fs, ()) \<and>
      mset fs = mset (pl_files p) \<and> pl_bytes p = sum_list (map wf_size fs)"
    using timeline_plan_is_what_restore_replays [OF r(1), of "DT 2025 3 1 10 0 55 0" "[demo_snapshot]" demo_log_objects "()"]
    by (simp add: r(2) ret_def)
  then obtain p :: restore_plan and fs where p: "restore_nearest [demo_snapshot] (DT 2025 3 1 10 0 55 0) = Inr (Some (pl_snapshot p))"
    "find_wal_files_in_range demo_logs uuid_a uuid_b (snap_time (pl_snapshot p)) (DT 2025 3 1 10 0 55 0) () = (Inr fs, ())"
    by (elim exE conjE)
  moreover have "restore_nearest [demo_snapshot] (DT 2025 3 1 10 0 55 0) = Inr (Some demo_snapshot)"
    by (simp add: restore_nearest_def demo_snapshot_def)
  ultimately show ?thesis by (auto simp: demo_snapshot_def snap_time_def)
qed

text \<open>C35: The type counts of a timeline are exact. When the listed files can be read, each window counts for
  each query type the parseable lines of that type in its files, lines that do not parse left out.\<close>

theorem timeline_types_count:
  assumes "list_database_pitr A list_by S J now req w = (Inr r, w')" "tr_types req"
    and "\<forall>f \<in> set (tl_files r). \<forall>u. download_database S (wf_key f) u = (Inr (txt (wf_key f)), u)"
    and "(k, s) \<in> set (tl_windows r)"
  shows "count_of (wn_types s) ty = length (filter (of_type ty)
    (concat (map (\<lambda>f. lines_of J (txt (wf_key f))) (window_group (window_name (tr_window req)) k (tl_files r)))))"
proof -
  define n where "n = window_name (tr_window req)"
  let ?total = "\<lambda>fs ty. length (filter (of_type ty) (concat (map (\<lambda>f. lines_of J (txt (wf_key f))) fs)))"
  let ?P = "\<lambda>k c. \<forall>ty. count_of c ty = ?total (window_group n k (tl_files r)) ty"
  obtain ws where ws: "bare ws = bare (count_windows n (tl_files r))" "tl_windows r = py_sorted fst ws"
    "tl_files r \<noteq> [] \<longrightarrow> (\<exists>ws1 u u'. fill_types S J (files_by_window n (tl_files r)) ws1 u = (Inr ws, u'))"
  proof (rule list_database_pitr_run [OF assms(1)])
    fix w3 w4 ws
    assume "timeline_windows S J req (tl_files r) w3 = (Inr ws, w4)" "tl_windows r = py_sorted fst ws"
    then show thesis using that timeline_windows_run [of S J req "tl_files r" w3 ws w4] assms(2) unfolding n_def by blast
  qed
  note b = bare_counts [OF ws(1)]
  have "(k, s) \<in> set ws" using assms(4) by (simp add: ws(2) py_sorted_def)
  moreover have "distinct (map fst ws)" by (simp add: b(2) count_windows_facts(1) file_windows_facts(1))
  ultimately have m: "map_of ws k = Some s" "k \<in> set (map fst ws)" by force+
  note fw = files_by_window_facts [of n "tl_files r"]
  have "k \<in> (\<lambda>f. window_start n (wf_ts f)) ` set (tl_files r)"
    using m(2) file_windows_facts(2) [of n "tl_files r"] unfolding b(2) count_windows_facts(1) set_map by simp
  then have grp: "window_group n k (tl_files r) \<noteq> []" "tl_files r \<noteq> []"
    by (auto simp: window_group_def filter_empty_conv)
  then obtain ws1 u u' where fill: "fill_types S J (files_by_window n (tl_files r)) ws1 u = (Inr ws, u')"
    using ws(3) by blast
  have "\<exists>c. classify_files S J fs [] u = (Inr c, u) \<and> ?P k c" if "(k, fs) \<in> set (files_by_window n (tl_files r))" for k fs u
  proof -
    have "map_of (files_by_window n (tl_files r)) k = Some fs" using fw that by (metis map_of_eq_Some_iff)
    then have fs: "fs = window_group n k (tl_files r)" using fw by (auto split: if_splits)
    then have "\<forall>f \<in> set fs. \<forall>u. download_database S (wf_key f) u = (Inr (txt (wf_key f)), u)"
      using assms(3) by (simp add: window_group_def)
    from classify_files_count [OF this, of J "[]" u] show ?thesis unfolding fs by (simp add: count_of_def)
  qed
  then have c: "\<forall>(k, fs) \<in> set (files_by_window n (tl_files r)). \<forall>u. \<exists>c. classify_files S J fs [] u = (Inr c, u) \<and> ?P k c"
    by blast
  have "k \<in> fst ` set (files_by_window n (tl_files r))"
    using fw grp(1) by (metis map_of_eq_None_iff option.distinct(1))
  with fill_types_result [OF c conjunct1 [OF fw] fill m(1)] show ?thesis by (simp add: n_def)
qed

theorem timeline_types_count_witness:
  "\<exists>r s. list_database_pitr allow_all (\<lambda>d. ret [demo_snapshot]) demo_logs line_codec (DT 2025 3 2 0 0 0 0) demo_request () =
     (Inr r, ()) \<and> (DT 2025 3 1 10 0 0 0, s) \<in> set (tl_windows r) \<and> count_of (wn_types s) ''CREATE'' = 2"
proof -
  obtain r where r: "list_database_pitr allow_all (\<lambda>d. ret [demo_snapshot]) demo_logs line_codec (DT 2025 3 2 0 0 0 0)
      demo_request () = (Inr r, ())" "tl_files r = demo_files"
    "map (\<lambda>p. (fst p, wn_files (snd p), wn_types (snd p))) (tl_windows r) =
       [(DT 2025 3 1 10 0 0 0, 2, [(''CREATE'', 2), (''READ'', 2)]), (DT 2025 3 1 10 1 0 0, 1, [(''CREATE'', 1), (''READ'', 1)])]"
    using demo_timeline_run by (elim exE conjE)
  then obtain s where s: "(DT 2025 3 1 10 0 0 0, s) \<in> set (tl_windows r)" by (cases "tl_windows r") auto
  define at_key where "at_key = (\<lambda>k :: string. [BadJson, Entry (IsoAware (DT 2025 3 1 10 0 5 7)) ''create (n)'' [] 0,
      Entry NotStr ''MATCH (n) RETURN n'' [] 1])"
  have "\<forall>f \<in> set (tl_files r). \<forall>u. download_database demo_logs (wf_key f) u = (Inr (at_key (wf_key f)), u)"
    by (simp add: demo_logs_def at_key_def ret_def)
  from timeline_types_count [OF r(1) _ this s, of "''CREATE''"] have "count_of (wn_types s) ''CREATE'' = 2"
    by (simp add: demo_request_def demo_facts r(2) window_group_def demo_files_def demo_file_def window_start_def
        trunc_min_def line_codec_def at_key_def of_type_def)
  with r(1) s show ?thesis by (intro exI conjI)
qed

end
