(* ===== verification/SDK_Orm.thy ===== *)
theory SDK_Orm
  imports Effects PyString "HOL-Library.AList"
begin

text \<open>
  The object mapper of the Python SDK (\<open>src/sdk/python/python/casys_db/orm.py\<close> and the session of
  \<open>session.py\<close>): relation descriptors, entity classes as the metaclass leaves them, entity instances
  with their properties, the queries that load related nodes and the nodes built from their rows. The
  graph engine is a Rust library: its \<open>add_node\<close> and \<open>query\<close> are arguments. Values are those the engine
  exchanges; other Python objects are carried by their text.
\<close>

section \<open>Values\<close>

datatype pyval = PNone | PBool bool | PInt int | PStr string | POther string

datatype gval = GLit pyval | GMap "(string \<times> gval) list" | GList "gval list"

text \<open>\<open>str(v)\<close> of a value that is not a container, and \<open>bool(v)\<close>.\<close>

fun py_str :: "pyval \<Rightarrow> string" where
  "py_str PNone = ''None''"
| "py_str (PBool b) = (if b then ''True'' else ''False'')"
| "py_str (PInt i) = py_str_int i"
| "py_str (PStr s) = s"
| "py_str (POther s) = s"

fun truthy :: "gval \<Rightarrow> bool" where
  "truthy (GLit PNone) = False"
| "truthy (GLit (PBool b)) = b"
| "truthy (GLit (PInt i)) = (i \<noteq> 0)"
| "truthy (GLit (PStr s)) = (s \<noteq> [])"
| "truthy (GLit (POther s)) = True"
| "truthy (GMap m) = (m \<noteq> [])"
| "truthy (GList l) = (l \<noteq> [])"

section \<open>Relation descriptors\<close>

record relation_desc =
  edge_types :: "string list option"
  rd_target :: string
  direction :: string
  depth_min :: int
  depth_max :: int
  rd_name :: string
  relation_cls :: "string option"

text \<open>The target as it is written in the class body: nothing or \<open>'Self'\<close>, a label, a class (by its label).\<close>

datatype rel_target = TargetSelf | TargetLabel string

text \<open>\<open>Relation.to/from_/both\<close>, the functions of the same names (type from the attribute name) and
  \<open>AnyOf(...)\<close>; the metaclass names the descriptor and resolves its target.\<close>

definition RelationDescriptor ::
    "string list option \<Rightarrow> string \<Rightarrow> string option \<Rightarrow> relation_desc" where
  "RelationDescriptor types dir cls = \<lparr>edge_types = types, rd_target = [], direction = dir, depth_min = 1,
     depth_max = 1, rd_name = [], relation_cls = cls\<rparr>"

definition Relation_to :: "string \<Rightarrow> relation_desc" where
  "Relation_to cls = RelationDescriptor (Some [cls]) ''to'' (Some cls)"

definition Relation_from :: "string \<Rightarrow> relation_desc" where
  "Relation_from cls = RelationDescriptor (Some [cls]) ''from'' (Some cls)"

definition Relation_both :: "string \<Rightarrow> relation_desc" where
  "Relation_both cls = RelationDescriptor (Some [cls]) ''both'' (Some cls)"

definition auto_relation :: "string \<Rightarrow> relation_desc" where
  "auto_relation dir = RelationDescriptor None dir None"

definition AnyOf_relation :: "string list \<Rightarrow> string \<Rightarrow> relation_desc" where
  "AnyOf_relation classes dir = RelationDescriptor (Some classes) dir None"

definition set_depth :: "int \<Rightarrow> int option \<Rightarrow> relation_desc \<Rightarrow> relation_desc" where
  "set_depth lo hi d = d\<lparr>depth_min := lo, depth_max := (case hi of None \<Rightarrow> lo | Some h \<Rightarrow> h)\<rparr>"

definition via :: "relation_desc \<Rightarrow> string" where
  "via d = (case edge_types d of Some (t # ts) \<Rightarrow> join_with ''|'' (t # ts) | _ \<Rightarrow> py_upper (rd_name d))"

definition inverse_rel :: "relation_desc \<Rightarrow> bool" where
  "inverse_rel d \<longleftrightarrow> direction d = ''from''"

section \<open>Entity classes\<close>

record entity =
  cls_name :: string
  labels :: "string list"
  relations :: "(string \<times> relation_desc) list"

text \<open>\<open>EntityMeta.__new__\<close>: the class body gives the relations with their targets, \<open>__label__\<close> and
  \<open>labels\<close> (markers by their names).\<close>

definition EntityMeta_new ::
    "string \<Rightarrow> (string \<times> relation_desc \<times> rel_target) list \<Rightarrow> string option \<Rightarrow> string list option \<Rightarrow> entity" where
  "EntityMeta_new name rels label_attr labels_attr = \<lparr>cls_name = name,
     labels = (case (label_attr, labels_attr) of
         (Some l, None) \<Rightarrow> [l] | (Some l, Some []) \<Rightarrow> [l] | (_, Some ls) \<Rightarrow> ls | (None, None) \<Rightarrow> []),
     relations = map (\<lambda>(key, d, t). (key, d\<lparr>rd_name := key,
       rd_target := (case t of TargetSelf \<Rightarrow> name
         | TargetLabel l \<Rightarrow> if l = ''Self'' then name else l)\<rparr>)) rels\<rparr>"

definition get_label :: "entity \<Rightarrow> string" where
  "get_label c = (case labels c of [] \<Rightarrow> cls_name c | l # _ \<Rightarrow> l)"

text \<open>\<open>ENTITY_REGISTRY\<close>: the classes by name, the last definition of a name counts.\<close>

type_synonym registry = "(string \<times> entity) list"

definition register :: "entity \<Rightarrow> registry \<Rightarrow> registry" where
  "register c r = (if cls_name c = ''NodeEntity'' then r else AList.update (cls_name c) c r)"

section \<open>Entity instances\<close>

text \<open>An instance: its class, \<open>_id\<close>, \<open>_properties\<close>, and the values its relation descriptors cache for it.\<close>

record node =
  n_class :: entity
  n_id :: "gval option"
  n_props :: "(string \<times> gval) list"
  n_related :: "(string \<times> gval) list"
  n_session :: bool

definition is_relation :: "entity \<Rightarrow> string \<Rightarrow> bool" where
  "is_relation c k \<longleftrightarrow> map_of (relations c) k \<noteq> None"

text \<open>\<open>NodeEntity.__init__(**kwargs)\<close>.\<close>

definition node_init :: "entity \<Rightarrow> (string \<times> gval) list \<Rightarrow> node" where
  "node_init c kwargs = (let rest = AList.delete ''_id'' kwargs in
     \<lparr>n_class = c,
      n_id = (case map_of kwargs ''_id'' of Some (GLit PNone) \<Rightarrow> None | v \<Rightarrow> v),
      n_props = filter (\<lambda>(k, v). \<not> is_relation c k) rest,
      n_related = filter (\<lambda>(k, v). is_relation c k) rest, n_session = False\<rparr>)"

text \<open>Attribute access for names that are not internal (\<open>_x\<close>, \<open>labels\<close>): relations through their
  descriptor, then properties, then attributes of the class.\<close>

definition internal_name :: "string \<Rightarrow> bool" where
  "internal_name k \<longleftrightarrow> startswith k ''_'' \<or> k = ''labels''"

definition node_getattribute :: "(string \<Rightarrow> gval option) \<Rightarrow> string \<Rightarrow> node \<Rightarrow> gval result" where
  "node_getattribute object_attr k n = (
     if \<not> internal_name k \<and> is_relation (n_class n) k
     then Inr (case map_of (n_related n) k of Some v \<Rightarrow> v | None \<Rightarrow> GList [])
     else case (if internal_name k then None else map_of (n_props n) k) of
         Some v \<Rightarrow> Inr v
       | None \<Rightarrow> (case object_attr k of Some v \<Rightarrow> Inr v | None \<Rightarrow> raise AttributeError k))"

definition node_setattr :: "string \<Rightarrow> gval \<Rightarrow> node \<Rightarrow> node" where
  "node_setattr k v n = (
     if is_relation (n_class n) k then n\<lparr>n_related := AList.update k v (n_related n)\<rparr>
     else n\<lparr>n_props := AList.update k v (n_props n)\<rparr>)"

text \<open>\<open>_hydrate_node\<close>: the class is looked up in the registry under the label.\<close>

definition py_or :: "gval option \<Rightarrow> gval option \<Rightarrow> gval option" where
  "py_or a b = (case a of Some v \<Rightarrow> if truthy v then a else b | None \<Rightarrow> b)"

definition not_none :: "gval option \<Rightarrow> gval option" where
  "not_none v = (if v = Some (GLit PNone) then None else v)"

definition hydrate_node :: "registry \<Rightarrow> string \<Rightarrow> gval \<Rightarrow> node option" where
  "hydrate_node reg label raw = (case map_of reg label of
       None \<Rightarrow> None
     | Some c \<Rightarrow>
         let (props, node_id) = (case raw of
             GMap m \<Rightarrow> (case map_of m ''properties'' of Some (GMap p) \<Rightarrow> p
                        | _ \<Rightarrow> filter (\<lambda>(k, v). k \<noteq> ''id'') m,
                       not_none (py_or (map_of m ''id'') (map_of m ''_id'')))
           | _ \<Rightarrow> ([], None));
           inst = node_init c props
         in Some (case node_id of None \<Rightarrow> inst | Some i \<Rightarrow> inst\<lparr>n_id := Some i\<rparr>))"

section \<open>Related nodes\<close>

datatype row = RList "gval list" | RDict "(string \<times> gval) list" | ROther gval

record query_result =
  columns :: "string list"
  rows :: "row list"

record 'w branch =
  branch_query :: "string \<Rightarrow> (string \<times> gval) list option \<Rightarrow> ('w, query_result) act"
  branch_add_node :: "string list \<Rightarrow> (string \<times> gval) list \<Rightarrow> ('w, int) act"

text \<open>The depth part of an edge pattern.\<close>

definition depth_text :: "int \<Rightarrow> int \<Rightarrow> string" where
  "depth_text lo hi = (if lo = hi then ''*'' @ py_str_int lo
     else ''*'' @ py_str_int lo @ ''..'' @ py_str_int hi)"

definition depth_spec :: "relation_desc \<Rightarrow> string" where
  "depth_spec d = (if depth_min d = 1 \<and> depth_max d = 1 then [] else depth_text (depth_min d) (depth_max d))"

definition edge_spec :: "relation_desc \<Rightarrow> string" where
  "edge_spec d = join_with ''|'' (case edge_types d of Some (t # ts) \<Rightarrow> t # ts
     | _ \<Rightarrow> if contains ''|'' (via d) then py_split_char CHR ''|'' (via d) else [via d])"

definition relation_gql :: "string \<Rightarrow> relation_desc \<Rightarrow> string" where
  "relation_gql base_label d = (let e = ''[r:'' @ edge_spec d @ depth_spec d @ '']'';
     b = ''(p:'' @ base_label @ '')''; t = ''(t:'' @ rd_target d @ '')'' in
     ''MATCH '' @ (if direction d = ''to'' then b @ ''-'' @ e @ ''->'' @ t
       else if direction d = ''from'' then b @ ''<-'' @ e @ ''-'' @ t
       else b @ ''-'' @ e @ ''-'' @ t) @
     '' WHERE ID(p) = $base_id RETURN r, r.edge_type, t'')"

text \<open>\<open>columns.index(c)\<close>, the cell of a row, the values \<open>r\<close> and \<open>t\<close> of a row and its edge type.\<close>

fun index_of :: "string \<Rightarrow> string list \<Rightarrow> nat option" where
  "index_of c [] = None"
| "index_of c (x # xs) = (if x = c then Some 0 else map_option Suc (index_of c xs))"

definition cell :: "gval list \<Rightarrow> nat \<Rightarrow> gval" where
  "cell vs i = (if i < length vs then vs ! i else GLit PNone)"

definition row_values :: "string list \<Rightarrow> row \<Rightarrow> (gval \<times> gval) option" where
  "row_values cols r = (
     let idx_r = (case index_of ''r'' cols of Some i \<Rightarrow> i | None \<Rightarrow> 0);
         idx_t = (case index_of ''t'' cols of Some i \<Rightarrow> i | None \<Rightarrow> if 1 < length cols then 1 else 0)
     in case r of RList vs \<Rightarrow> Some (cell vs idx_r, cell vs idx_t)
        | RDict m \<Rightarrow> Some (case map_of m ''r'' of Some v \<Rightarrow> v | None \<Rightarrow> GLit PNone,
                          case map_of m ''t'' of Some v \<Rightarrow> v | None \<Rightarrow> GLit PNone)
        | ROther v \<Rightarrow> None)"

definition row_edge_type :: "string \<Rightarrow> string list \<Rightarrow> row \<Rightarrow> gval" where
  "row_edge_type spec cols r = (case r of
       RDict m \<Rightarrow> (case map_of m ''r.edge_type'' of Some v \<Rightarrow> v | None \<Rightarrow> GLit (PStr spec))
     | RList vs \<Rightarrow> (case index_of ''r.edge_type'' cols of
           Some i \<Rightarrow> if i < length vs then vs ! i else GLit (PStr spec) | None \<Rightarrow> GLit (PStr spec))
     | ROther v \<Rightarrow> GLit (PStr spec))"

text \<open>The relation instance: the class it gets and the properties put on it.\<close>

record rel_inst =
  ri_class :: string
  ri_props :: "(string \<times> gval) list"

definition relation_instance :: "relation_desc \<Rightarrow> gval \<Rightarrow> gval \<Rightarrow> rel_inst result" where
  "relation_instance d edge_type r_val = (
     let props = (case r_val of GMap m \<Rightarrow>
           (case py_or (map_of m ''properties'') (map_of m ''props'') of Some (GMap p) \<Rightarrow> p | _ \<Rightarrow> []) | _ \<Rightarrow> []);
         named = (\<lambda>c. Inr \<lparr>ri_class = c, ri_props = props\<rparr>)
     in case relation_cls d of Some c \<Rightarrow> named c
        | None \<Rightarrow> if \<not> truthy edge_type then named ''Rel''
            else (case edge_type of GLit (PStr s) \<Rightarrow> named s
                  | _ \<Rightarrow> raise TypeError ''type() argument 1 must be str''))"

definition load_row :: "registry \<Rightarrow> relation_desc \<Rightarrow> string list \<Rightarrow> row \<Rightarrow> (rel_inst \<times> node) list result" where
  "load_row reg d cols r = (case row_values cols r of
       None \<Rightarrow> Inr []
     | Some (rv, tv) \<Rightarrow> bind_r (relation_instance d (row_edge_type (edge_spec d) cols r) rv) (\<lambda>ri.
         Inr (case hydrate_node reg (rd_target d) tv of None \<Rightarrow> []
              | Some n \<Rightarrow> [(ri, n\<lparr>n_session := True\<rparr>)])))"

fun load_relations :: "'w branch \<Rightarrow> registry \<Rightarrow> node \<Rightarrow> gval \<Rightarrow> relation_desc list \<Rightarrow>
    ('w, (rel_inst \<times> node) list) act" where
  "load_relations br reg n i [] = ret []"
| "load_relations br reg n i (d # ds) =
     bind (branch_query br (relation_gql (get_label (n_class n)) d) (Some [(''base_id'', i)])) (\<lambda>res.
     bind (of_result (map_r (load_row reg d (columns res)) (rows res))) (\<lambda>found.
     bind (load_relations br reg n i ds) (\<lambda>more. ret (concat found @ more))))"

text \<open>\<open>with_relations(*attrs)\<close>, the attributes given as descriptors or by name; others are skipped.\<close>

datatype rel_arg = ByDescriptor relation_desc | ByName string

definition with_relations :: "'w branch \<Rightarrow> registry \<Rightarrow> node \<Rightarrow> rel_arg list \<Rightarrow>
    ('w, (rel_inst \<times> node) list) act" where
  "with_relations br reg n attrs = (
     case n_id n of
       Some i \<Rightarrow> if n_session n
         then load_relations br reg n i (List.map_filter (\<lambda>a. case a of ByDescriptor d \<Rightarrow> Some d
                | ByName k \<Rightarrow> map_of (relations (n_class n)) k) attrs)
         else ret []
     | None \<Rightarrow> ret [])"

section \<open>Sessions\<close>

text \<open>\<open>Session.save\<close>, \<open>delete\<close>, \<open>execute_scalar\<close>, and the cardinality check, whose loop skips every
  descriptor that is not of a class named \<open>HasOne\<close>; descriptors are of the class
  \<open>RelationDescriptor\<close>.\<close>

definition session_save :: "'w branch \<Rightarrow> node \<Rightarrow> ('w, int \<times> node) act" where
  "session_save br n = (if n_id n \<noteq> None
     then throw NotImplementedError ''Entity updates not yet supported''
     else bind (branch_add_node br (labels (n_class n)) (n_props n)) (\<lambda>i.
       ret (i, n\<lparr>n_id := Some (GLit (PInt i)), n_session := True\<rparr>)))"

definition session_delete :: "node \<Rightarrow> ('w, unit) act" where
  "session_delete n = (if n_id n = None then throw ValueError ''Cannot delete entity without ID''
     else throw NotImplementedError ''DELETE operations not yet supported by engine'')"

definition execute_scalar :: "'w branch \<Rightarrow> string \<Rightarrow> (string \<times> gval) list option \<Rightarrow> ('w, gval) act" where
  "execute_scalar br gql params = bind (branch_query br gql params) (\<lambda>res.
     case rows res of [] \<Rightarrow> ret (GLit PNone)
     | r # _ \<Rightarrow> (case r of
           RList [] \<Rightarrow> ret (GLit PNone)
         | RList (v # _) \<Rightarrow> ret v
         | RDict [] \<Rightarrow> ret (GLit PNone)
         | RDict _ \<Rightarrow> throw KeyError ''0''
         | ROther (GLit (PStr (c # _))) \<Rightarrow> ret (GLit (PStr [c]))
         | ROther v \<Rightarrow> if truthy v then throw TypeError ''object is not subscriptable'' else ret (GLit PNone)))"

text \<open>\<open>validate_has_one_constraints\<close>; \<open>cls\<close> is the class name of a descriptor and \<open>show\<close> the text of a
  value in a message.\<close>

definition has_one_rows :: "(gval \<Rightarrow> string) \<Rightarrow> string \<Rightarrow> string \<Rightarrow> string \<Rightarrow> row list \<Rightarrow> string list" where
  "has_one_rows show_val ent rel v rs = List.map_filter (\<lambda>r. case r of
       RList (x # GLit (PInt k) # _) \<Rightarrow> if 1 < k then Some (''HasOne violation on '' @ ent @ ''.'' @ rel @
         '': node '' @ show_val x @ '' has '' @ py_str_int k @ '' '' @ v @ '' edges'') else None
     | _ \<Rightarrow> None) rs"

fun has_one_relations :: "'w branch \<Rightarrow> (relation_desc \<Rightarrow> string) \<Rightarrow> (gval \<Rightarrow> string) \<Rightarrow>
    (entity \<times> string \<times> relation_desc) list \<Rightarrow> ('w, string list) act" where
  "has_one_relations br cls show_val [] = ret []"
| "has_one_relations br cls show_val ((e, k, d) # rest) = (
     if cls d \<noteq> ''HasOne'' then has_one_relations br cls show_val rest
     else (case get_label e of [] \<Rightarrow> throw IndexError ''string index out of range'' | c # _ \<Rightarrow>
       let v = (if via d = [] then py_upper k else via d); x = [lower_char c];
           alias = (case rd_target d of [] \<Rightarrow> ''n'' | t # _ \<Rightarrow> [lower_char t]);
           label = (if rd_target d = [] then [] else '':'' @ rd_target d) in
       bind (branch_query br (''MATCH ('' @ x @ '':'' @ get_label e @ '')-[:'' @ v @ '']->('' @ alias @ label @
         '') RETURN '' @ x @ '', COUNT('' @ alias @ '')'') None) (\<lambda>res.
       bind (has_one_relations br cls show_val rest) (\<lambda>more.
         ret (has_one_rows show_val (cls_name e) k v (rows res) @ more)))))"

definition validate_has_one :: "'w branch \<Rightarrow> (relation_desc \<Rightarrow> string) \<Rightarrow> (gval \<Rightarrow> string) \<Rightarrow> registry \<Rightarrow>
    bool \<Rightarrow> ('w, string list) act" where
  "validate_has_one br cls show_val reg enforce =
     bind (has_one_relations br cls show_val (concat (map (\<lambda>(k, e). map (\<lambda>(r, d). (e, r, d)) (relations e)) reg))) (\<lambda>vs.
       if enforce \<and> vs \<noteq> [] then throw ValueError (''HasOne constraints violated:'' @ [CHR 10] @ join_with [CHR 10] vs)
       else ret vs)"

section \<open>Lemmas\<close>

lemma registry_update [simp]:
  "cls_name c \<noteq> ''NodeEntity'' \<Longrightarrow> map_of (register c r) = (map_of r)(cls_name c \<mapsto> c)"
  by (simp add: register_def update_conv')

text \<open>A property that is assigned is read back, unless a relation has its name.\<close>

lemma get_set_property:
  assumes "\<not> is_relation (n_class n) k" "\<not> internal_name k"
  shows "node_getattribute oa k (node_setattr k v n) = Inr v"
  using assms by (simp add: node_getattribute_def node_setattr_def update_conv')

lemma get_set_other:
  assumes "j \<noteq> k"
  shows "node_getattribute oa j (node_setattr k v n) = node_getattribute oa j n"
  using assms by (simp add: node_getattribute_def node_setattr_def update_conv')

text \<open>The cardinality check of a registry of relation descriptors asks nothing and finds nothing.\<close>

lemma has_one_skips: "(\<And>d. cls d \<noteq> ''HasOne'') \<Longrightarrow> has_one_relations br cls sv xs = ret []"
  by (induction xs) auto

lemma validate_has_one_finds_nothing:
  "(\<And>d. cls d \<noteq> ''HasOne'') \<Longrightarrow> validate_has_one br cls sv reg enforce w = (Inr [], w)"
  by (simp add: validate_has_one_def has_one_skips exec_simps)

text \<open>Related nodes whose label is no class name of the registry are left out.\<close>

lemma unregistered_label_dropped:
  "map_of reg (rd_target d) = None \<Longrightarrow> load_row reg d cols r = Inr ps \<Longrightarrow> ps = []"
  by (cases "relation_instance d (row_edge_type (edge_spec d) cols r) (fst (the (row_values cols r)))")
    (auto simp: load_row_def hydrate_node_def split: option.splits prod.splits)

text \<open>What the engine returns for a node it stored under the id \<open>i\<close>.\<close>

definition stored_node :: "int \<Rightarrow> node \<Rightarrow> gval" where
  "stored_node i n = GMap [(''id'', GLit (PInt i)), (''properties'', GMap (n_props n))]"

definition plain_node :: "node \<Rightarrow> bool" where
  "plain_node n \<longleftrightarrow> n_related n = [] \<and> (\<forall>(k, v) \<in> set (n_props n). \<not> is_relation (n_class n) k \<and> k \<noteq> ''_id'')"

lemma hydrate_stored:
  assumes "map_of reg l = Some (n_class n)" "plain_node n"
  shows "hydrate_node reg l (stored_node i n) = Some (n\<lparr>n_session := False,
    n_id := if i = 0 then None else Some (GLit (PInt i))\<rparr>)"
proof -
  have d: "AList.delete ''_id'' (n_props n) = n_props n" "map_of (n_props n) ''_id'' = None"
    using assms(2) by (auto simp: plain_node_def AList.delete_eq filter_id_conv map_of_eq_None_iff)
  have f: "filter (\<lambda>(k, v). \<not> is_relation (n_class n) k) (n_props n) = n_props n"
    "filter (\<lambda>(k, v). is_relation (n_class n) k) (n_props n) = []"
    using assms(2) by (auto simp: plain_node_def filter_id_conv filter_empty_conv)
  show ?thesis
    using assms by (simp add: hydrate_node_def stored_node_def node_init_def d f py_or_def not_none_def plain_node_def)
qed

section \<open>Saving a node and reading it back\<close>


definition demo_person :: entity where
  "demo_person = EntityMeta_new ''Person'' [(''friends'', Relation_both ''Knows'', TargetSelf)] None (Some [''Person''])"

definition demo_alice :: node where
  "demo_alice = node_init demo_person [(''name'', GLit (PStr ''Alice''))]"

definition demo_branch :: "unit branch" where
  "demo_branch = \<lparr>branch_query = (\<lambda>gql ps. ret \<lparr>columns = [], rows = []\<rparr>), branch_add_node = (\<lambda>ls ps. ret 7)\<rparr>"

lemma demo_person_simps [simp]:
  "get_label demo_person = ''Person''" "labels demo_person = [''Person'']" "cls_name demo_person = ''Person''"
  "n_class demo_alice = demo_person" "n_id demo_alice = None" "plain_node demo_alice"
  by (simp_all add: demo_person_def demo_alice_def EntityMeta_new_def get_label_def node_init_def plain_node_def
      is_relation_def)


end
