(* ===== verification/SDK_Expr.thy ===== *)
theory SDK_Expr
  imports SDK_Orm
begin

text \<open>
  The expression objects of the SDK's query builder (\<open>Expr\<close>, \<open>_wrap\<close> and \<open>Var\<close> of \<open>query.py\<close>): calling
  a predicate on a variable records what the predicate does to it, and \<open>to_gql\<close> prints the record. A
  reader for the printed conditions is the reference: what is printed is read back as what was recorded,
  for conditions whose comparisons have plain operands.
\<close>

section \<open>Expressions\<close>

datatype expr = EVar string | EAttr expr string | ELit pyval | EBin expr string expr

text \<open>What a predicate may hold: an expression, a plain value, any other object by its text.\<close>

datatype dval = DExpr expr | DVal pyval | DObj string

text \<open>\<open>_wrap\<close>, the operators (arithmetic, comparison, \<open>&\<close>, \<open>|\<close>), whose left operand is an expression, and
  the comparisons Python reflects when only the right operand is one.\<close>

definition wrap :: "dval \<Rightarrow> expr" where
  "wrap v = (case v of DExpr e \<Rightarrow> e | DVal c \<Rightarrow> ELit c | DObj s \<Rightarrow> ELit (POther s))"

definition arithmetic_op :: "string \<Rightarrow> expr \<Rightarrow> dval \<Rightarrow> expr" where
  "arithmetic_op op a b = EBin a op (wrap b)"

definition comparison_op :: "string \<Rightarrow> expr \<Rightarrow> dval \<Rightarrow> expr" where
  "comparison_op op a b = EBin a op (wrap b)"

definition logical_op :: "string \<Rightarrow> expr \<Rightarrow> dval \<Rightarrow> expr" where
  "logical_op op a b = EBin a op (wrap b)"

definition comparison_ops :: "string list" where
  "comparison_ops = [''='', ''!='', ''<'', ''<='', ''>'', ''>='']"

text \<open>Attribute access. \<open>__getattr__\<close> is only asked for names the object does not have: the five fields
  of an \<open>Expr\<close> and its method hide properties of the same names. Names with two leading underscores are
  left out.\<close>

definition expr_kind :: "expr \<Rightarrow> string" where
  "expr_kind e = (case e of EVar _ \<Rightarrow> ''var'' | EAttr _ _ \<Rightarrow> ''attr'' | ELit _ \<Rightarrow> ''lit'' | EBin _ _ _ \<Rightarrow> ''bin'')"

definition expr_getattr :: "expr \<Rightarrow> string \<Rightarrow> dval result" where
  "expr_getattr e k = (
     if k = ''kind'' then Inr (DVal (PStr (expr_kind e)))
     else if k = ''value'' then Inr (case e of EVar v \<Rightarrow> DVal (PStr v) | EAttr _ _ \<Rightarrow> DObj ''(Expr, name)''
       | ELit c \<Rightarrow> DVal c | EBin _ _ _ \<Rightarrow> DVal PNone)
     else if k = ''left'' then Inr (case e of EBin l _ _ \<Rightarrow> DExpr l | _ \<Rightarrow> DVal PNone)
     else if k = ''op'' then Inr (case e of EBin _ f _ \<Rightarrow> DVal (PStr f) | _ \<Rightarrow> DVal PNone)
     else if k = ''right'' then Inr (case e of EBin _ _ r \<Rightarrow> DExpr r | _ \<Rightarrow> DVal PNone)
     else if k = ''to_gql'' then Inr (DObj ''method'')
     else case e of EVar _ \<Rightarrow> Inr (DExpr (EAttr e k)) | EAttr _ _ \<Rightarrow> Inr (DExpr (EAttr e k))
       | _ \<Rightarrow> raise AttributeError k)"

text \<open>\<open>a and b\<close>, \<open>a or b\<close>, \<open>not a\<close>: the language decides on \<open>bool(a)\<close>, and an object without \<open>__bool__\<close>
  or \<open>__len__\<close>, such as an expression, counts as true.\<close>

definition dval_bool :: "dval \<Rightarrow> bool" where
  "dval_bool v = (case v of DVal c \<Rightarrow> truthy (GLit c) | _ \<Rightarrow> True)"

definition py_and :: "dval \<Rightarrow> dval \<Rightarrow> dval" where
  "py_and a b = (if dval_bool a then b else a)"

definition py_or_val :: "dval \<Rightarrow> dval \<Rightarrow> dval" where
  "py_or_val a b = (if dval_bool a then a else b)"

definition py_not :: "dval \<Rightarrow> dval" where
  "py_not a = DVal (PBool (\<not> dval_bool a))"

text \<open>\<open>to_gql\<close>.\<close>

fun attr_chain :: "expr \<Rightarrow> string list" where
  "attr_chain (EVar v) = [v]"
| "attr_chain (EAttr e k) = attr_chain e @ [k]"
| "attr_chain (ELit c) = []"
| "attr_chain (EBin l f r) = []"

fun to_gql :: "expr \<Rightarrow> string" where
  "to_gql (EVar v) = v"
| "to_gql (EAttr e k) = join_with ''.'' (attr_chain (EAttr e k))"
| "to_gql (ELit c) = (case c of PStr s \<Rightarrow> [CHR 39] @ s @ [CHR 39] | _ \<Rightarrow> py_str c)"
| "to_gql (EBin l f r) =
     (if f = ''AND'' \<or> f = ''OR'' then ''('' @ to_gql l @ '' '' @ f @ '' '' @ to_gql r @ '')''
      else to_gql l @ '' '' @ f @ '' '' @ to_gql r)"

section \<open>A reader for printed conditions\<close>

text \<open>Operands are numbers, quoted text and dotted names. A condition is an operand, a comparison (or one
  arithmetic operation) of two operands, or a parenthesised \<open>AND\<close> or \<open>OR\<close> of conditions.\<close>

definition name_char :: "char \<Rightarrow> bool" where
  "name_char c \<longleftrightarrow> is_digit c \<or> is_lower_az c \<or> is_upper_az c \<or> c = CHR ''_''"

definition is_name :: "string \<Rightarrow> bool" where
  "is_name s \<longleftrightarrow> s \<noteq> [] \<and> (\<forall>c \<in> set s. name_char c) \<and> \<not> is_digit (hd s)"

definition word_char :: "char \<Rightarrow> bool" where
  "word_char c \<longleftrightarrow> name_char c \<or> c = CHR ''.'' \<or> c = CHR ''-''"

definition plain_ops :: "string list" where
  "plain_ops = comparison_ops @ [''+'', ''-'', ''*'', ''/'']"

definition read_int :: "string \<Rightarrow> int option" where
  "read_int s = (if startswith s ''-'' then map_option (\<lambda>n. - int n) (digits_value 0 (tl s))
     else map_option int (digits_value 0 s))"

definition names_expr :: "string list \<Rightarrow> expr" where
  "names_expr ns = foldl EAttr (EVar (hd ns)) (tl ns)"

definition read_word :: "string \<Rightarrow> expr option" where
  "read_word w = (if w = [] then None
     else if is_digit (hd w) \<or> hd w = CHR ''-'' then map_option (\<lambda>i. ELit (PInt i)) (read_int w)
     else Some (names_expr (py_split_char CHR ''.'' w)))"

fun read_operand :: "string \<Rightarrow> (expr \<times> string) option" where
  "read_operand s = (if startswith s [CHR 39]
     then map_option (\<lambda>(a, b). (ELit (PStr a), b)) (split_first [CHR 39] (tl s))
     else map_option (\<lambda>e. (e, dropWhile word_char s)) (read_word (takeWhile word_char s)))"

definition read_op :: "string \<Rightarrow> (string \<times> string) option" where
  "read_op s = (if startswith s '' '' then split_first '' '' (tl s) else None)"

fun read_cond :: "nat \<Rightarrow> string \<Rightarrow> (expr \<times> string) option" where
  "read_cond 0 s = None"
| "read_cond (Suc n) s = (if startswith s ''('' then
       (case read_cond n (tl s) of None \<Rightarrow> None | Some (l, s1) \<Rightarrow>
        case read_op s1 of None \<Rightarrow> None | Some (f, s2) \<Rightarrow>
        case read_cond n s2 of None \<Rightarrow> None | Some (r, s3) \<Rightarrow>
          if startswith s3 '')'' then Some (EBin l f r, tl s3) else None)
     else (case read_operand s of None \<Rightarrow> None | Some (l, s1) \<Rightarrow>
       (case read_op s1 of None \<Rightarrow> Some (l, s1) | Some (f, s2) \<Rightarrow>
         if f \<in> set plain_ops then map_option (\<lambda>(r, s3). (EBin l f r, s3)) (read_operand s2)
         else Some (l, s1))))"

section \<open>Readable conditions\<close>

fun dotted :: "expr \<Rightarrow> bool" where
  "dotted (EVar v) = is_name v"
| "dotted (EAttr e k) = (dotted e \<and> is_name k)"
| "dotted _ = False"

definition plain_operand :: "expr \<Rightarrow> bool" where
  "plain_operand e \<longleftrightarrow> dotted e \<or> (\<exists>i. e = ELit (PInt i)) \<or> (\<exists>t. e = ELit (PStr t) \<and> CHR 39 \<notin> set t)"

fun readable :: "expr \<Rightarrow> bool" where
  "readable (EBin l f r) =
     (if f = ''AND'' \<or> f = ''OR'' then readable l \<and> readable r
      else f \<in> set plain_ops \<and> plain_operand l \<and> plain_operand r)"
| "readable e = plain_operand e"

lemma name_charD: "name_char c \<Longrightarrow> c \<noteq> CHR ''.'' \<and> c \<noteq> CHR ''-'' \<and> c \<noteq> CHR 39 \<and> c \<noteq> CHR ''('' \<and> c \<noteq> CHR '' ''"
  by (auto simp: name_char_def is_digit_def is_lower_az_def is_upper_az_def)

lemma word_charD: "word_char c \<Longrightarrow> c \<noteq> CHR 39 \<and> c \<noteq> CHR ''('' \<and> c \<noteq> CHR '' '' \<and> c \<noteq> CHR '')''"
  by (auto simp: word_char_def name_char_def is_digit_def is_lower_az_def is_upper_az_def)

lemma py_split_char_free: "d \<notin> set s \<Longrightarrow> py_split_char d s = [s]"
  by (induction s) auto

lemma py_split_char_snoc:
  "d \<notin> set k \<Longrightarrow> py_split_char d (s @ d # k) = py_split_char d s @ [k]"
  by (induction s) (auto simp: py_split_char_free split: list.splits)

lemma join_with_snoc: "ns \<noteq> [] \<Longrightarrow> join_with sep (ns @ [k]) = join_with sep ns @ sep @ k"
  by (induction sep ns rule: join_with.induct) auto

lemma attr_chain_ne: "dotted e \<Longrightarrow> attr_chain e \<noteq> []"
  by (cases e) auto

lemma dotted_text: "dotted e \<Longrightarrow> to_gql e = join_with ''.'' (attr_chain e)"
  by (cases e) auto

lemma dotted_split:
  "dotted e \<Longrightarrow> py_split_char CHR ''.'' (to_gql e) = attr_chain e"
proof (induction e)
  case (EVar v)
  then show ?case by (auto simp: is_name_def intro!: py_split_char_free dest: name_charD)
next
  case (EAttr e k)
  then have "CHR ''.'' \<notin> set k" by (auto simp: is_name_def dest: name_charD)
  with EAttr show ?case
    using py_split_char_snoc [of "CHR ''.''" k "to_gql e"]
    by (simp add: join_with_snoc [OF attr_chain_ne] dotted_text)
qed auto

lemma names_expr_chain: "dotted e \<Longrightarrow> names_expr (attr_chain e) = e"
proof (induction e)
  case (EAttr e k)
  from EAttr.prems attr_chain_ne [of e] have "attr_chain e \<noteq> []" by simp
  with EAttr show ?case by (simp add: names_expr_def)
qed (auto simp: names_expr_def)

lemma dotted_chars: "dotted e \<Longrightarrow> \<exists>c cs. to_gql e = c # cs \<and> \<not> is_digit c \<and> c \<noteq> CHR ''-'' \<and> (\<forall>x \<in> set (c # cs). word_char x)"
proof (induction e)
  case (EVar v)
  then show ?case by (cases v) (auto simp: is_name_def word_char_def dest: name_charD)
next
  case (EAttr e k)
  then obtain c cs where "to_gql e = c # cs" "\<not> is_digit c" "c \<noteq> CHR ''-''" "\<forall>x \<in> set (c # cs). word_char x"
    by auto
  moreover have "to_gql (EAttr e k) = to_gql e @ ''.'' @ k"
    using EAttr.prems by (simp add: join_with_snoc [OF attr_chain_ne] dotted_text)
  ultimately show ?case using EAttr.prems by (auto simp: is_name_def word_char_def)
qed auto

section \<open>Reading back what was printed\<close>

lemma not_digit_minus [simp]: "\<not> is_digit CHR ''-''" "\<not> is_digit CHR 39"
  by (simp_all add: is_digit_def)

text \<open>Numbers.\<close>

lemma py_str_nat_digits: "\<forall>c \<in> set (py_str_nat n). is_digit c"
proof (induction n rule: py_str_nat.induct)
  case (1 n)
  have "is_digit (char_of (48 + k))" if "k < 10" for k :: nat
    using that by (simp add: is_digit_def)
  with 1 show ?case by (subst py_str_nat.simps) auto
qed

lemma py_str_nat_ne: "py_str_nat n \<noteq> []"
  by (subst py_str_nat.simps) simp

lemma read_int_str: "read_int (py_str_int i) = Some i"
proof -
  have "\<not> startswith (py_str_nat n) ''-''" for n
    using py_str_nat_digits [of n] py_str_nat_ne [of n] by (cases "py_str_nat n") auto
  then show ?thesis by (simp add: read_int_def py_str_int_def digits_value_str)
qed

lemma py_str_int_word:
  "py_str_int i \<noteq> []" "is_digit (hd (py_str_int i)) \<or> hd (py_str_int i) = CHR ''-''"
  "\<forall>c \<in> set (py_str_int i). word_char c"
  using py_str_nat_ne py_str_nat_digits [of "nat i"] py_str_nat_digits [of "nat (- i)"]
    hd_in_set [OF py_str_nat_ne [of "nat i"]]
  by (auto simp: py_str_int_def word_char_def name_char_def)

lemma read_word_int: "read_word (py_str_int i) = Some (ELit (PInt i))"
  using py_str_int_word [of i] by (simp add: read_word_def read_int_str)

lemma read_word_dotted:
  assumes "dotted e"
  shows "read_word (to_gql e) = Some e"
proof -
  from dotted_chars [OF assms] obtain c cs where "to_gql e = c # cs" "\<not> is_digit c" "c \<noteq> CHR ''-''" by blast
  then show ?thesis using dotted_split [OF assms] names_expr_chain [OF assms] by (simp add: read_word_def)
qed

definition ends_word :: "string \<Rightarrow> bool" where
  "ends_word r \<longleftrightarrow> r = [] \<or> \<not> word_char (hd r)"

lemma takeWhile_word:
  assumes "\<forall>c \<in> set w. word_char c" "ends_word r"
  shows "takeWhile word_char (w @ r) = w \<and> dropWhile word_char (w @ r) = r"
  using assms by (induction w) (auto simp: ends_word_def, (cases r, auto)+)

lemma read_operand_word:
  assumes "w \<noteq> []" "\<forall>c \<in> set w. word_char c" "ends_word r" "read_word w = Some e"
  shows "read_operand (w @ r) = Some (e, r)"
proof -
  from assms(1,2) obtain c cs where "w = c # cs" "c \<noteq> CHR 39" by (cases w) (auto dest: word_charD)
  then have "\<not> startswith (w @ r) [CHR 39]" by simp
  with takeWhile_word [OF assms(2,3)] assms(4) show ?thesis by simp
qed

lemma read_operand_printed:
  assumes "plain_operand e" "ends_word r"
  shows "read_operand (to_gql e @ r) = Some (e, r)"
proof -
  consider "dotted e" | i where "e = ELit (PInt i)" | t where "e = ELit (PStr t)" "CHR 39 \<notin> set t"
    using assms(1) by (auto simp: plain_operand_def)
  then show ?thesis
  proof cases
    case 1
    from dotted_chars [OF 1] obtain c cs where "to_gql e = c # cs" "\<forall>x \<in> set (to_gql e). word_char x" by auto
    with read_word_dotted [OF 1] assms(2) show ?thesis by (intro read_operand_word) auto
  next
    case 2
    then show ?thesis using py_str_int_word [of i] assms(2)
      by (simp add: read_operand_word read_word_int del: read_operand.simps)
  next
    case 3
    then show ?thesis using split_first_char [of "CHR 39" t r] by simp
  qed
qed

text \<open>Conditions: what follows a printed condition inside another one.\<close>

definition cond_end :: "string \<Rightarrow> bool" where
  "cond_end r \<longleftrightarrow> r = [] \<or> startswith r '')'' \<or> startswith r '' AND '' \<or> startswith r '' OR ''"

lemma cond_end_word: "cond_end r \<Longrightarrow> ends_word r"
  by (auto simp: cond_end_def ends_word_def startswith_iff word_char_def name_char_def is_digit_def
      is_lower_az_def is_upper_az_def)

lemma cond_end_op: "cond_end r \<Longrightarrow> read_op r = None \<or> (\<exists>f b. read_op r = Some (f, b) \<and> f \<notin> set plain_ops)"
  by (auto simp: cond_end_def read_op_def startswith_iff plain_ops_def comparison_ops_def)

lemma operand_not_paren:
  assumes "plain_operand e"
  shows "\<exists>c cs. to_gql e = c # cs \<and> c \<noteq> CHR ''(''"
proof -
  consider "dotted e" | i where "e = ELit (PInt i)" | t where "e = ELit (PStr t)"
    using assms by (auto simp: plain_operand_def)
  then show ?thesis
  proof cases
    case 1
    from dotted_chars [OF 1] show ?thesis by (auto dest: word_charD)
  next
    case 2
    then show ?thesis using py_str_int_word [of i] by (cases "py_str_int i") (auto dest: word_charD)
  qed simp
qed

lemma read_cond_operand:
  assumes "plain_operand e" "cond_end r"
  shows "read_cond (Suc n) (to_gql e @ r) = Some (e, r)"
  using operand_not_paren [OF assms(1)] read_operand_printed [OF assms(1) cond_end_word [OF assms(2)]]
    cond_end_op [OF assms(2)]
  by (auto simp del: read_operand.simps)

lemma read_op_printed: "CHR '' '' \<notin> set f \<Longrightarrow> read_op ('' '' @ f @ '' '' @ r) = Some (f, r)"
  using split_first_char [of "CHR '' ''" f r] by (simp add: read_op_def)

lemma plain_ops_word: "f \<in> set plain_ops \<Longrightarrow> CHR '' '' \<notin> set f \<and> f \<noteq> ''AND'' \<and> f \<noteq> ''OR''"
  by (auto simp: plain_ops_def comparison_ops_def)

lemma read_cond_plain:
  assumes "plain_operand a" "f \<in> set plain_ops" "plain_operand b" "cond_end r"
  shows "read_cond (Suc n) (to_gql (EBin a f b) @ r) = Some (EBin a f b, r)"
proof -
  let ?r = "'' '' @ f @ '' '' @ to_gql b @ r"
  have t: "to_gql (EBin a f b) @ r = to_gql a @ ?r" using plain_ops_word [OF assms(2)] by simp
  have "ends_word ?r" by (simp add: ends_word_def word_char_def name_char_def is_digit_def
      is_lower_az_def is_upper_az_def)
  note a = read_operand_printed [OF assms(1) this]
  have o: "read_op ?r = Some (f, to_gql b @ r)" using plain_ops_word [OF assms(2)] by (intro read_op_printed) simp
  note b = read_operand_printed [OF assms(3) cond_end_word [OF assms(4)]]
  have "\<not> startswith (to_gql a @ ?r) ''(''" using operand_not_paren [OF assms(1)] by auto
  then show ?thesis
    unfolding t read_cond.simps using assms(2) by (simp only: a o b if_False option.case prod.case if_True map_option_case)
qed

lemma read_cond_printed:
  "readable e \<Longrightarrow> cond_end r \<Longrightarrow> length (to_gql e) < n \<Longrightarrow> read_cond n (to_gql e @ r) = Some (e, r)"
proof (induction e arbitrary: r n)
  case (EBin a f b)
  then obtain m where n: "n = Suc m" by (cases n) auto
  show ?case
  proof (cases "f = ''AND'' \<or> f = ''OR''")
    case False
    with EBin.prems n show ?thesis by (simp add: read_cond_plain del: to_gql.simps read_cond.simps)
  next
    case True
    let ?r1 = "'' '' @ f @ '' '' @ to_gql b @ '')'' @ r" and ?r2 = "'')'' @ r"
    have t: "to_gql (EBin a f b) @ r = CHR ''('' # to_gql a @ ?r1" using True by auto
    have e: "cond_end ?r1" "cond_end ?r2" using True by (auto simp: cond_end_def)
    have l: "length (to_gql a) < m" "length (to_gql b) < m" using EBin.prems(3) n True by auto
    have "readable a" "readable b" using EBin.prems(1) True by auto
    with EBin.IH e l have "read_cond m (to_gql a @ ?r1) = Some (a, ?r1)" "read_cond m (to_gql b @ ?r2) = Some (b, ?r2)"
      by blast+
    moreover have "read_op ?r1 = Some (f, to_gql b @ ?r2)" using True by (intro read_op_printed) auto
    ultimately show ?thesis unfolding n t by simp
  qed
next
  case (EVar v)
  then show ?case by (cases n) (simp_all add: read_cond_operand del: to_gql.simps read_cond.simps)
next
  case (EAttr e k)
  then show ?case by (cases n) (simp_all add: read_cond_operand del: to_gql.simps read_cond.simps)
next
  case (ELit c)
  then show ?case by (cases n) (simp_all add: read_cond_operand del: to_gql.simps read_cond.simps)
qed

definition read_condition :: "string \<Rightarrow> expr option" where
  "read_condition s = (case read_cond (Suc (length s)) s of Some (e, []) \<Rightarrow> Some e | _ \<Rightarrow> None)"


text \<open>\<open>(p.age > 20) & (p.city == 'Paris') | (p.vip == 1)\<close>\<close>

definition demo_cond :: expr where
  "demo_cond = (let p = EVar ''p'' in logical_op ''OR''
     (logical_op ''AND'' (comparison_op ''>'' (EAttr p ''age'') (DVal (PInt 20)))
       (DExpr (comparison_op ''='' (EAttr p ''city'') (DVal (PStr ''Paris'')))))
     (DExpr (comparison_op ''='' (EAttr p ''vip'') (DVal (PInt 1)))))"


text \<open>Outside those conditions printing loses structure: nested arithmetic and comparisons are printed
  without parentheses, and a quote in a text literal ends the literal.\<close>

lemma arithmetic_prints_alike:
  "to_gql (EBin (EBin a ''+'' b) ''*'' c) = to_gql (EBin a ''+'' (EBin b ''*'' c))"
  by simp

lemma quoted_text_prints_as_condition:
  assumes "t = ''x'' @ [CHR 39] @ '' OR 1 = 1 OR '' @ [CHR 39]"
  shows "to_gql (EBin (EVar ''n'') ''='' (ELit (PStr t))) =
    ''n = '' @ [CHR 39] @ ''x'' @ [CHR 39] @ '' OR 1 = 1 OR '' @ [CHR 39, CHR 39]"
  by (simp add: assms)

end
