(* ===== verification/SDK_Lambda.thy ===== *)
theory SDK_Lambda
  imports SDK_Expr
begin

text \<open>
  How the query builder reads a lambda: by calling it on a variable and, when that gives no expression, by
  taking its source text apart (\<open>_lambda_to_gql\<close>, \<open>_lambda_to_expr_with_alias\<close>,
  \<open>_extract_property_from_lambda\<close>, \<open>_lambda_dict_mapping\<close>, \<open>_extract_relation_name\<close> and
  \<open>_build_exists_for_relation\<close> of \<open>query.py\<close>). A lambda is what the builder looks at: its code object,
  the text \<open>inspect.getsource\<close> gives, and what calling it returns.
\<close>

record lam =
  co_argcount :: nat
  co_varnames :: "string list"
  co_names :: "string list"
  getsource :: "string result"
  call :: "expr \<Rightarrow> dval result"

text \<open>The first argument's name, and the expression a call on a variable records.\<close>

definition dsl_param :: "lam \<Rightarrow> string" where
  "dsl_param f = (if 0 < co_argcount f then hd (co_varnames f) else ''x'')"

definition dsl_capture :: "lam \<Rightarrow> string \<Rightarrow> string option" where
  "dsl_capture f v = (case call f (EVar v) of Inr (DExpr e) \<Rightarrow> Some (to_gql e) | _ \<Rightarrow> None)"

section \<open>Source texts\<close>

text \<open>The text after \<open>lambda\<close>: the parameter and the body, at the first colon.\<close>

definition lambda_parts :: "string \<Rightarrow> (string \<times> string) option" where
  "lambda_parts s = (case split_first ''lambda'' s of None \<Rightarrow> None
     | Some (_, rest) \<Rightarrow> map_option (\<lambda>(a, b). (py_strip a, py_strip b)) (split_first '':'' rest))"

text \<open>Up to the parenthesis that closes the call around the lambda (or, with \<open>commas\<close>, a comma outside
  parentheses): the text before it, \<open>None\<close> when there is none.\<close>

fun until_close :: "bool \<Rightarrow> nat \<Rightarrow> string \<Rightarrow> string option" where
  "until_close commas n [] = None"
| "until_close commas n (c # cs) =
     (if c = CHR ''('' then map_option ((#) c) (until_close commas (Suc n) cs)
      else if c = CHR '')'' then
        (if n = 0 then Some [] else map_option ((#) c) (until_close commas (n - 1) cs))
      else if commas \<and> c = CHR '','' \<and> n = 0 then Some []
      else map_option ((#) c) (until_close commas n cs))"

definition trim_call :: "bool \<Rightarrow> string \<Rightarrow> string" where
  "trim_call commas b = (case until_close commas 0 b of Some a \<Rightarrow> a | None \<Rightarrow> b)"

text \<open>The same where the end index 0 counts as none found.\<close>

definition trim_call_nonempty :: "string \<Rightarrow> string" where
  "trim_call_nonempty b = (case until_close False 0 b of Some (c # cs) \<Rightarrow> c # cs | _ \<Rightarrow> b)"

definition quote_single :: "string \<Rightarrow> string" where
  "quote_single s = py_replace [CHR 34] [CHR 39] s"

definition gql_operators :: "string \<Rightarrow> string" where
  "gql_operators s = py_replace ''=='' ''='' (py_replace '' not '' '' NOT ''
     (py_replace '' or '' '' OR '' (py_replace '' and '' '' AND '' s)))"

text \<open>\<open>_lambda_to_expr_with_alias\<close>.\<close>

definition lambda_to_expr_with_alias :: "lam \<Rightarrow> string \<Rightarrow> string" where
  "lambda_to_expr_with_alias f alias = (case dsl_capture f (dsl_param f) of
       Some g \<Rightarrow> g
     | None \<Rightarrow> (case co_names f of
         [a] \<Rightarrow> (case co_varnames f of [] \<Rightarrow> ''x'' | v # _ \<Rightarrow> v) @ ''.'' @ a
       | _ \<Rightarrow> (case getsource f of Inl _ \<Rightarrow> alias
           | Inr src \<Rightarrow> (case lambda_parts (py_strip src) of None \<Rightarrow> alias
               | Some (_, body) \<Rightarrow> gql_operators (quote_single (py_strip (trim_call True body)))))))"

text \<open>\<open>_extract_property_from_lambda\<close> and \<open>_lambda_dict_mapping\<close> split at every \<open>lambda\<close> and at every
  colon and take the second part.\<close>

definition lambda_fields :: "string \<Rightarrow> (string \<times> string) option" where
  "lambda_fields s = (case py_split ''lambda'' s of
       _ # rest # _ \<Rightarrow> (case py_split '':'' rest of
           a # b # _ \<Rightarrow> Some (py_strip a, py_strip b) | _ \<Rightarrow> None)
     | _ \<Rightarrow> None)"

definition extract_property_from_lambda :: "lam \<Rightarrow> string option \<Rightarrow> string" where
  "extract_property_from_lambda f v = (
     case (case getsource f of Inl _ \<Rightarrow> None | Inr src \<Rightarrow> lambda_fields (py_strip src)) of
       Some (p, b) \<Rightarrow> (let body = trim_call_nonempty b in
         case v of Some x \<Rightarrow> py_replace (p @ ''.'') (x @ ''.'') body | None \<Rightarrow> body)
     | None \<Rightarrow> (case v of Some x \<Rightarrow> (if x = [] then ''id'' else x @ ''.id'') | None \<Rightarrow> ''id''))"

text \<open>\<open>_extract_relation_name\<close>.\<close>

definition extract_relation_name :: "lam \<Rightarrow> string result" where
  "extract_relation_name f = (
     case (case getsource f of Inl _ \<Rightarrow> None | Inr src \<Rightarrow> lambda_parts (py_strip src)) of
       None \<Rightarrow> raise ValueError ''Failed to extract relation name from lambda''
     | Some (_, b) \<Rightarrow> Inr (last (py_split_char CHR ''.'' (py_strip (trim_call False b)))))"

text \<open>\<open>_lambda_dict_mapping\<close>: the items of a dict display, split at its top-level commas.\<close>

fun split_items :: "int \<Rightarrow> string \<Rightarrow> string \<Rightarrow> string list" where
  "split_items n buf [] = (if py_strip buf = [] then [] else [py_strip buf])"
| "split_items n buf (c # cs) = (let m = (if c \<in> set ''({['' then n + 1 else if c \<in> set '')}]'' then n - 1 else n) in
     if c = CHR '','' \<and> m = 0 then py_strip buf # split_items m [] cs else split_items m (buf @ [c]) cs)"

definition strip_chars :: "char list \<Rightarrow> string \<Rightarrow> string" where
  "strip_chars cs s = rev (dropWhile (\<lambda>c. c \<in> set cs) (rev (dropWhile (\<lambda>c. c \<in> set cs) s)))"

definition dict_item :: "string \<Rightarrow> string \<Rightarrow> string \<Rightarrow> (string \<times> string) option" where
  "dict_item p v item = map_option (\<lambda>(k, e). (strip_chars [CHR 34, CHR 39] (py_strip k),
     quote_single (py_replace (p @ ''.'') (v @ ''.'') (py_strip e)))) (split_first '':'' item)"

text \<open>A label's variable: its first letter in lower case; an empty label raises.\<close>

definition base_var :: "entity \<Rightarrow> string result" where
  "base_var c = (case get_label c of [] \<Rightarrow> raise IndexError ''string index out of range''
     | l # _ \<Rightarrow> Inr [lower_char l])"

definition lambda_dict_mapping :: "entity \<Rightarrow> lam \<Rightarrow> (string \<times> string) list" where
  "lambda_dict_mapping c f = (
     case (case getsource f of Inl _ \<Rightarrow> None | Inr src \<Rightarrow> lambda_fields (py_strip src)) of
       None \<Rightarrow> []
     | Some (p, body) \<Rightarrow> (case (split_first ''{'' body, split_last_char CHR ''}'' body) of
         (Some (a, _), Some (b, _)) \<Rightarrow>
           (case base_var c of
              Inl _ \<Rightarrow> []
            | Inr v \<Rightarrow> foldl (\<lambda>m (k, e). AList.update k e m) []
                (List.map_filter (dict_item p v)
                  (split_items 0 [] (py_strip (take (length b - Suc (length a)) (drop (Suc (length a)) body))))))
       | _ \<Rightarrow> []))"

section \<open>Conditions on relations\<close>

text \<open>\<open>_build_exists_for_relation\<close>, for \<open>p.rel.any()\<close>.\<close>

definition target_text :: "relation_desc \<Rightarrow> string" where
  "target_text d = (if rd_target d = [] then [] else '':'' @ rd_target d)"

definition exists_for_relation :: "entity \<Rightarrow> relation_desc \<Rightarrow> string result" where
  "exists_for_relation c d = bind_r (base_var c) (\<lambda>v.
     let outer = ''('' @ v @ '':'' @ get_label c @ '')''; e = ''[:'' @ via d @ depth_spec d @ '']'';
         t = ''('' @ target_text d @ '')''
     in Inr (''EXISTS { MATCH '' @ (if inverse_rel d then outer @ ''<-'' @ e @ ''-'' @ t
         else outer @ ''-'' @ e @ ''->'' @ t) @ '' RETURN '' @ v @ '' }''))"

text \<open>\<open>p.rel.any(lambda t: ...)\<close>: the predicate's own text becomes the condition of the subquery.\<close>

definition exists_with_predicate :: "relation_desc \<Rightarrow> string \<Rightarrow> string \<Rightarrow> string option" where
  "exists_with_predicate d from_var arg = (
     if startswith arg ''lambda'' then
       (case lambda_parts arg of None \<Rightarrow> None
        | Some (p, pred) \<Rightarrow>
            let alias = [lower_char (hd (if rd_target d = [] then ''n'' else rd_target d))];
                body = gql_operators (quote_single (py_replace (p @ ''.'') (alias @ ''.'') pred));
                t = ''('' @ alias @ target_text d @ '')''; e = ''-[:'' @ via d @ depth_spec d @ '']->'';
                u = ''('' @ from_var @ '')''
            in Some (''EXISTS { MATCH '' @ (if inverse_rel d then t @ e @ u else u @ e @ t) @
                 '' WHERE '' @ body @ '' RETURN '' @ from_var @ '' }''))
     else None)"

lemma until_close_length: "until_close k n s = Some a \<Longrightarrow> length a < length s"
  by (induction k n s arbitrary: a rule: until_close.induct) (auto split: if_splits)

function replace_any :: "relation_desc \<Rightarrow> string \<Rightarrow> string \<Rightarrow> string \<Rightarrow> string" where
  "replace_any d from_var pre s = (if pre = [] then s
     else case split_first pre s of None \<Rightarrow> s
     | Some (a, b) \<Rightarrow> (case until_close False 0 b of None \<Rightarrow> s
         | Some arg \<Rightarrow> (case exists_with_predicate d from_var (py_strip arg) of
               Some e \<Rightarrow> a @ ''('' @ e @ '')'' @ replace_any d from_var pre (drop (Suc (length arg)) b)
             | None \<Rightarrow> a @ pre @ replace_any d from_var pre b)))"
  by pat_completeness auto
termination
  by (relation "measure (\<lambda>(d, v, pre, s). length s)") (auto dest!: split_first_shorter)

declare replace_any.simps [simp del]

text \<open>One declared relation: \<open>any()\<close> first, then \<open>any(...)\<close>, for the variable in use and for the entity's.\<close>

definition replace_relation :: "entity \<Rightarrow> string option \<Rightarrow> string \<Rightarrow> (string \<times> relation_desc) \<Rightarrow> string \<Rightarrow> string" where
  "replace_relation c v bv rel body = (let (name, d) = rel;
     vars = (case v of Some x \<Rightarrow> [x, bv] | None \<Rightarrow> [bv]);
     plain = foldl (\<lambda>b x. case exists_for_relation c d of Inl _ \<Rightarrow> b
         | Inr e \<Rightarrow> py_replace (x @ ''.'' @ name @ ''.any()'') (''('' @ e @ '')'') b) body vars
     in foldl (\<lambda>b x. replace_any d (case v of Some y \<Rightarrow> if y = [] then bv else y | None \<Rightarrow> bv)
         (x @ ''.'' @ name @ ''.any('') b) plain vars)"

text \<open>\<open>_lambda_to_gql\<close>.\<close>

definition lambda_to_gql :: "entity \<Rightarrow> lam \<Rightarrow> string option \<Rightarrow> string" where
  "lambda_to_gql c f v = (
     case dsl_capture f (case v of Some x \<Rightarrow> x | None \<Rightarrow> dsl_param f) of
       Some g \<Rightarrow> g
     | None \<Rightarrow> (case (case getsource f of Inl _ \<Rightarrow> None | Inr src \<Rightarrow> lambda_parts (py_strip src)) of
         None \<Rightarrow> []
       | Some (p, b) \<Rightarrow>
           let b1 = trim_call_nonempty b;
               b2 = (case v of Some x \<Rightarrow> py_replace (p @ ''.'') (x @ ''.'') b1 | None \<Rightarrow> b1);
               b3 = quote_single (gql_operators b2)
           in (case base_var c of Inl _ \<Rightarrow> b3
               | Inr bv \<Rightarrow> foldl (\<lambda>b rel. replace_relation c v bv rel b) b3 (relations c))))"

section \<open>Lemmas\<close>

text \<open>Python's \<open>and\<close> between two captured conditions keeps only the second, \<open>or\<close> only the first.\<close>

lemma and_keeps_second: "py_and (DExpr a) (DExpr b) = DExpr b"
  by (simp add: py_and_def dval_bool_def)

lemma or_keeps_first: "py_or_val (DExpr a) (DExpr b) = DExpr a"
  by (simp add: py_or_val_def dval_bool_def)

text \<open>A dict display with its first key before any closing brace gives no projection at all: its body is
  cut at the colon after that key.\<close>

lemma split_last_char_None: "d \<notin> set s \<Longrightarrow> split_last_char d s = None"
proof -
  have "d \<notin> set s \<Longrightarrow> split_first [d] s = None" for s by (induction s) auto
  then show "d \<notin> set s \<Longrightarrow> split_last_char d s = None" by (simp add: split_last_char_def)
qed

lemma set_py_lstrip: "set (py_lstrip s) \<subseteq> set s"
  by (auto simp: py_lstrip_def dest: set_dropWhileD)

lemma set_py_strip: "set (py_strip s) \<subseteq> set s"
  by (auto simp: py_strip_def py_rstrip_def py_lstrip_def dest!: set_dropWhileD)

lemma dict_display_not_read:
  assumes "getsource f = Inr src"
    and "py_split ''lambda'' (py_strip src) = before # rest # others"
    and "py_split '':'' rest = a # b # parts" and "CHR ''}'' \<notin> set b"
  shows "lambda_dict_mapping c f = []"
proof -
  have "CHR ''}'' \<notin> set (py_strip b)" using set_py_strip [of b] assms(4) by blast
  then show ?thesis using assms(1-3)
    by (simp add: lambda_dict_mapping_def lambda_fields_def split_last_char_None split: option.split)
qed

end
