(* ===== verification/SDK_Query.thy ===== *)
theory SDK_Query
  imports SDK_Lambda
begin

text \<open>
  The query builder of the Python SDK (\<open>QueryBuilder\<close> of \<open>src/sdk/python/python/casys_db/query.py\<close>): its
  state, the operations that add to it, the texts it builds, and the operations that run them on a
  branch. An operation acts on the builder and returns a value or an exception; the engine behind the
  branch is an argument.
\<close>

section \<open>State\<close>

record join =
  j_dir :: string
  j_via :: string
  j_target :: "string option"
  j_alias :: string
  j_min :: "int option"
  j_max :: "int option"
  j_with_label :: bool

record builder =
  entity_class :: entity
  where_clause :: "lam option"
  order_by_clauses :: "(lam \<times> bool) list"
  limit_value :: "int option"
  qb_depth_min :: int
  qb_depth_max :: int
  include_relations :: "string list"
  bound_params :: "(string \<times> gval) list"
  with_items :: "(string \<times> string) list"
  return_names :: "string list option"
  exists_clauses :: "string list"
  where_post_with :: "lam option"
  joins :: "join list"

definition QueryBuilder :: "entity \<Rightarrow> builder" where
  "QueryBuilder c = \<lparr>entity_class = c, where_clause = None, order_by_clauses = [], limit_value = None,
     qb_depth_min = 1, qb_depth_max = 3, include_relations = [], bound_params = [], with_items = [],
     return_names = None, exists_clauses = [], where_post_with = None, joins = []\<rparr>"

text \<open>\<open>2**31 - 1\<close>, the upper bound that stands for none.\<close>

definition no_limit :: int where
  "no_limit = 2147483647"

section \<open>Filters, order, bounds, parameters\<close>

definition qb_where :: "lam \<Rightarrow> builder \<Rightarrow> builder" where
  "qb_where p b = (if with_items b \<noteq> [] then b\<lparr>where_post_with := Some p\<rparr> else b\<lparr>where_clause := Some p\<rparr>)"

definition qb_order_by :: "lam \<Rightarrow> builder \<Rightarrow> builder" where
  "qb_order_by k b = b\<lparr>order_by_clauses := order_by_clauses b @ [(k, False)]\<rparr>"

definition qb_order_by_desc :: "lam \<Rightarrow> builder \<Rightarrow> builder" where
  "qb_order_by_desc k b = b\<lparr>order_by_clauses := order_by_clauses b @ [(k, True)]\<rparr>"

definition qb_take :: "int \<Rightarrow> builder \<Rightarrow> builder" where
  "qb_take n b = b\<lparr>limit_value := Some n\<rparr>"

definition qb_limit :: "int \<Rightarrow> builder \<Rightarrow> builder" where
  "qb_limit n b = b\<lparr>limit_value := Some n\<rparr>"

definition dict_update :: "(string \<times> gval) list \<Rightarrow> (string \<times> gval) list \<Rightarrow> (string \<times> gval) list" where
  "dict_update new d = foldl (\<lambda>d (k, v). AList.update k v d) d new"

definition qb_params :: "(string \<times> gval) list \<Rightarrow> builder \<Rightarrow> builder" where
  "qb_params vs b = b\<lparr>bound_params := dict_update vs (bound_params b)\<rparr>"

definition qb_param :: "string \<Rightarrow> gval \<Rightarrow> builder \<Rightarrow> builder" where
  "qb_param k v b = b\<lparr>bound_params := AList.update k v (bound_params b)\<rparr>"

definition qb_include :: "string list \<Rightarrow> builder \<Rightarrow> builder" where
  "qb_include rs b = b\<lparr>include_relations := include_relations b @ rs\<rparr>"

definition qb_return_fields :: "string list \<Rightarrow> builder \<Rightarrow> builder" where
  "qb_return_fields fs b = b\<lparr>return_names := Some fs\<rparr>"

text \<open>\<open>depth(*args, min=, max=)\<close>.\<close>

definition depth_bounds :: "int list \<Rightarrow> int option \<Rightarrow> int option \<Rightarrow> (int \<times> int) result" where
  "depth_bounds args lo hi = (
     if lo \<noteq> None \<or> hi \<noteq> None
     then Inr (case lo of None \<Rightarrow> 1 | Some n \<Rightarrow> n, case hi of None \<Rightarrow> no_limit | Some n \<Rightarrow> n)
     else case args of [] \<Rightarrow> Inr (1, no_limit) | [n] \<Rightarrow> Inr (n, n) | [n, m] \<Rightarrow> Inr (n, m)
       | _ \<Rightarrow> raise ValueError ''depth() takes 0, 1 or 2 positional arguments, optionally min= / max='')"

definition qb_depth :: "int list \<Rightarrow> int option \<Rightarrow> int option \<Rightarrow> (builder, unit) act" where
  "qb_depth args lo hi b = (case depth_bounds args lo hi of Inl e \<Rightarrow> (Inl e, b)
     | Inr (dmin, dmax) \<Rightarrow>
         if dmin < 0 \<or> dmax < 0 then (raise ValueError ''depth() min/max must be non-negative'', b)
         else if dmax < dmin then (raise ValueError ''depth() min must be <= max'', b)
         else (Inr (), b\<lparr>qb_depth_min := dmin, qb_depth_max := dmax\<rparr>))"

section \<open>Projection\<close>

text \<open>\<open>select\<close>: a lambda that returns a dict display, or a lambda per alias.\<close>

definition qb_select :: "lam option \<Rightarrow> (string \<times> lam) list \<Rightarrow> (builder, unit) act" where
  "qb_select selector kwargs b = (
     case selector of
       Some f \<Rightarrow> (let m = lambda_dict_mapping (entity_class b) f in
         (Inr (), b\<lparr>with_items := m, return_names := Some (map fst m)\<rparr>))
     | None \<Rightarrow> if kwargs = []
         then (raise ValueError ''select() requires either a lambda dict or kwargs'', b\<lparr>with_items := []\<rparr>)
         else (Inr (), b\<lparr>with_items := map (\<lambda>(a, f). (a, lambda_to_expr_with_alias f a)) kwargs,
                        return_names := Some (map fst kwargs)\<rparr>))"

section \<open>Joins\<close>

definition join_bounds :: "string \<Rightarrow> int list \<Rightarrow> int option \<Rightarrow> int option \<Rightarrow> (int option \<times> int option) result" where
  "join_bounds op args lo hi = (
     if lo \<noteq> None \<or> hi \<noteq> None
     then Inr (Some (case lo of None \<Rightarrow> 1 | Some n \<Rightarrow> n), Some (case hi of None \<Rightarrow> no_limit | Some n \<Rightarrow> n))
     else case args of [] \<Rightarrow> Inr (None, None) | [n] \<Rightarrow> Inr (Some n, Some n) | [n, m] \<Rightarrow> Inr (Some n, Some m)
       | _ \<Rightarrow> raise ValueError (op @ '' depth takes 0, 1, or 2 positional integers''))"

definition add_join :: "join \<Rightarrow> builder \<Rightarrow> builder" where
  "add_join j b = b\<lparr>joins := joins b @ [j]\<rparr>"

definition join_error :: "string \<Rightarrow> string \<Rightarrow> builder \<Rightarrow> string" where
  "join_error pre k b = pre @ '' '' @ k @ '' not found on '' @ cls_name (entity_class b)"

definition qb_join :: "lam \<Rightarrow> string option \<Rightarrow> int list \<Rightarrow> int option \<Rightarrow> int option \<Rightarrow> bool \<Rightarrow> (builder, unit) act" where
  "qb_join f alias args lo hi lab b = (
     case extract_relation_name f of Inl e \<Rightarrow> (Inl e, b)
     | Inr k \<Rightarrow> (case map_of (relations (entity_class b)) k of
         None \<Rightarrow> (raise ValueError (join_error ''Relation'' k b), b)
       | Some d \<Rightarrow>
           if via d = [] then (raise ValueError (''Relation '' @ k @ '' missing via metadata''), b)
           else (case join_bounds ''join()'' args lo hi of Inl e \<Rightarrow> (Inl e, b)
             | Inr (jmin, jmax) \<Rightarrow> (Inr (), add_join \<lparr>j_dir = (if inverse_rel d then ''in'' else ''out''),
                 j_via = via d, j_target = Some (rd_target d),
                 j_alias = (case alias of Some a \<Rightarrow> a
                   | None \<Rightarrow> (case rd_target d of [] \<Rightarrow> ''n'' | c # _ \<Rightarrow> [lower_char c])),
                 j_min = jmin, j_max = jmax, j_with_label = lab\<rparr> b))))"

definition qb_join_rel :: "string \<Rightarrow> string \<Rightarrow> int list \<Rightarrow> int option \<Rightarrow> int option \<Rightarrow> (builder, unit) act" where
  "qb_join_rel k alias args lo hi b = (
     case map_of (relations (entity_class b)) k of
       None \<Rightarrow> (raise ValueError (join_error ''relation'' k b), b)
     | Some d \<Rightarrow>
         if via d = [] then (raise ValueError (''relation '' @ k @ '' has no via type''), b)
         else (case join_bounds ''join_rel'' args lo hi of Inl e \<Rightarrow> (Inl e, b)
           | Inr (jmin, jmax) \<Rightarrow> (Inr (), add_join \<lparr>j_dir = (if inverse_rel d then ''in'' else ''out''),
               j_via = via d, j_target = Some (rd_target d), j_alias = alias,
               j_min = jmin, j_max = jmax, j_with_label = False\<rparr> b)))"

text \<open>\<open>join_out\<close> and \<open>join_in\<close> take the label as a class, a string, nothing, or anything else.\<close>

datatype join_target = JoinClass entity | JoinLabel string | JoinNone | JoinOther

definition join_label :: "join_target \<Rightarrow> string option" where
  "join_label t = (case t of JoinClass c \<Rightarrow> Some (get_label c) | JoinLabel l \<Rightarrow> Some l | _ \<Rightarrow> None)"

definition qb_join_out :: "string \<Rightarrow> join_target \<Rightarrow> string \<Rightarrow> int list \<Rightarrow> int option \<Rightarrow> int option \<Rightarrow> (builder, unit) act" where
  "qb_join_out v t alias args lo hi b = (case join_bounds ''join_out'' args lo hi of Inl e \<Rightarrow> (Inl e, b)
     | Inr (jmin, jmax) \<Rightarrow> (Inr (), add_join \<lparr>j_dir = ''out'', j_via = v, j_target = join_label t, j_alias = alias,
         j_min = jmin, j_max = jmax, j_with_label = False\<rparr> b))"

definition qb_join_in :: "string \<Rightarrow> join_target \<Rightarrow> string \<Rightarrow> int list \<Rightarrow> int option \<Rightarrow> int option \<Rightarrow> (builder, unit) act" where
  "qb_join_in v t alias args lo hi b = (case join_bounds ''join_in'' args lo hi of Inl e \<Rightarrow> (Inl e, b)
     | Inr (jmin, jmax) \<Rightarrow> (Inr (), add_join \<lparr>j_dir = ''in'', j_via = v, j_target = join_label t, j_alias = alias,
         j_min = jmin, j_max = jmax, j_with_label = False\<rparr> b))"

definition qb_join_from :: "lam \<Rightarrow> (builder, unit) act" where
  "qb_join_from f b = (case extract_relation_name f of Inl e \<Rightarrow> (Inl e, b)
     | Inr _ \<Rightarrow> (raise NotImplementedError ''join_from() requires entity type tracking; use join_out/join_in for now'', b))"

section \<open>Existence conditions\<close>

definition edge_depth :: "int option \<Rightarrow> int option \<Rightarrow> string" where
  "edge_depth lo hi = (if lo = None \<and> hi = None then []
     else depth_text (case lo of None \<Rightarrow> 1 | Some n \<Rightarrow> n) (case hi of None \<Rightarrow> no_limit | Some n \<Rightarrow> n))"

definition exists_edge_text :: "string \<Rightarrow> string \<Rightarrow> string option \<Rightarrow> int option \<Rightarrow> int option \<Rightarrow> bool \<Rightarrow> string" where
  "exists_edge_text v rel t lo hi back = (let e = ''[:'' @ rel @ edge_depth lo hi @ '']'';
       n = (case t of Some (c # cs) \<Rightarrow> ''(:'' @ (c # cs) @ '')'' | _ \<Rightarrow> ''()'') in
     ''EXISTS { MATCH ('' @ v @ '')'' @ (if back then ''<-'' @ e @ ''-'' else ''-'' @ e @ ''->'') @ n @
     '' RETURN '' @ v @ '' }'')"

definition qb_where_exists_edge ::
    "string \<Rightarrow> string option \<Rightarrow> int option \<Rightarrow> int option \<Rightarrow> bool \<Rightarrow> (builder, unit) act" where
  "qb_where_exists_edge rel t lo hi back b = (case base_var (entity_class b) of Inl e \<Rightarrow> (Inl e, b)
     | Inr v \<Rightarrow> (Inr (), b\<lparr>exists_clauses := exists_clauses b @ [exists_edge_text v rel t lo hi back]\<rparr>))"

definition qb_where_not_exists_edge ::
    "string \<Rightarrow> string option \<Rightarrow> int option \<Rightarrow> int option \<Rightarrow> bool \<Rightarrow> (builder, unit) act" where
  "qb_where_not_exists_edge rel t lo hi back b = (
     case qb_where_exists_edge rel t lo hi back (QueryBuilder (entity_class b)) of
       (Inl e, _) \<Rightarrow> (Inl e, b)
     | (Inr _, tmp) \<Rightarrow> (Inr (), b\<lparr>exists_clauses := exists_clauses b @
         [''NOT ('' @ last (exists_clauses tmp) @ '')'']\<rparr>))"

section \<open>Query texts\<close>

text \<open>\<open>while f"{alias}{suffix}" in used_aliases: suffix += 1\<close>: the names with a number are distinct, so
  a finite set of used names leaves one free.\<close>

lemma py_str_nat_inj: "py_str_nat m = py_str_nat n \<Longrightarrow> m = n"
  by (metis digits_value_str option.inject)

definition taken_from :: "string list \<Rightarrow> string \<Rightarrow> nat \<Rightarrow> nat set" where
  "taken_from used a k = {i. k \<le> i \<and> a @ py_str_nat i \<in> set used}"

lemma finite_taken: "finite (taken_from used a k)"
proof (rule finite_imageD)
  show "finite ((\<lambda>i. a @ py_str_nat i) ` taken_from used a k)"
    by (rule finite_subset [of _ "set used"]) (auto simp: taken_from_def)
  show "inj_on (\<lambda>i. a @ py_str_nat i) (taken_from used a k)"
    by (auto simp: inj_on_def dest: py_str_nat_inj)
qed

function free_suffix :: "string list \<Rightarrow> string \<Rightarrow> nat \<Rightarrow> nat" where
  "free_suffix used a k = (if a @ py_str_nat k \<in> set used then free_suffix used a (Suc k) else k)"
  by pat_completeness auto
termination
proof (relation "measure (\<lambda>(used, a, k). card (taken_from used a k))")
  fix used :: "string list" and a k
  assume h: "a @ py_str_nat k \<in> set used"
  have "taken_from used a (Suc k) \<subset> taken_from used a k"
  proof
    show "taken_from used a (Suc k) \<subseteq> taken_from used a k" by (auto simp: taken_from_def)
    have "k \<in> taken_from used a k" "k \<notin> taken_from used a (Suc k)" using h by (simp_all add: taken_from_def)
    then show "taken_from used a (Suc k) \<noteq> taken_from used a k" by blast
  qed
  then show "((used, a, Suc k), used, a, k) \<in> measure (\<lambda>(used, a, k). card (taken_from used a k))"
    by (simp add: psubset_card_mono finite_taken)
qed simp

declare free_suffix.simps [simp del]

definition free_alias :: "string list \<Rightarrow> string \<Rightarrow> string" where
  "free_alias used a = (if a \<in> set used then a @ py_str_nat (free_suffix used a 2) else a)"

text \<open>The pattern of the \<open>MATCH\<close>: an outgoing join goes on at the right end, an incoming one at the left
  end; an alias in use is renamed, also in the builder's join.\<close>

definition node_text :: "string \<Rightarrow> join \<Rightarrow> string" where
  "node_text alias j = ''('' @ alias @ (case j_target j of Some (c # cs) \<Rightarrow>
     if j_with_label j then '':'' @ (c # cs) else [] | _ \<Rightarrow> []) @ '')''"

definition extend_pattern :: "string \<Rightarrow> string \<Rightarrow> join \<Rightarrow> string" where
  "extend_pattern pat alias j = (let e = ''-[:'' @ j_via j @ edge_depth (j_min j) (j_max j) @ '']->'' in
     if j_dir j = ''out'' then pat @ e @ node_text alias j else node_text alias j @ e @ pat)"

fun join_pattern :: "string list \<Rightarrow> string \<Rightarrow> join list \<Rightarrow> string \<times> join list" where
  "join_pattern used pat [] = (pat, [])"
| "join_pattern used pat (j # js) = (let alias = free_alias used (j_alias j);
     (full, js') = join_pattern (alias # used) (extend_pattern pat alias j) js
     in (full, j\<lparr>j_alias := alias\<rparr> # js'))"

definition where_text :: "string list \<Rightarrow> string" where
  "where_text parts = (if parts = [] then [] else '' WHERE '' @ join_with '' AND '' parts)"

definition lambda_part :: "entity \<Rightarrow> lam option \<Rightarrow> string option \<Rightarrow> string list" where
  "lambda_part c f v = (case f of None \<Rightarrow> [] | Some g \<Rightarrow>
     (let t = lambda_to_gql c g v in if t = [] then [] else [t]))"

text \<open>With a projection, a filter set before it replaces the one set after it.\<close>

definition move_where :: "builder \<Rightarrow> builder" where
  "move_where b = (if with_items b \<noteq> [] \<and> where_clause b \<noteq> None
     then b\<lparr>where_post_with := where_clause b, where_clause := None\<rparr> else b)"

definition with_text :: "string \<Rightarrow> builder \<Rightarrow> string" where
  "with_text v b = (if with_items b = [] then []
     else '' WITH '' @ join_with '', '' ((if where_post_with b = None then [] else [v]) @
            map (\<lambda>(a, e). e @ '' AS '' @ a) (with_items b)) @
          where_text (lambda_part (entity_class b) (where_post_with b) None))"

definition return_text :: "string \<Rightarrow> builder \<Rightarrow> string" where
  "return_text v b = '' RETURN '' @ (case return_names b of Some (f # fs) \<Rightarrow> join_with '', '' (f # fs) | _ \<Rightarrow> v)"

definition order_text :: "string \<Rightarrow> builder \<Rightarrow> string" where
  "order_text v b = (if order_by_clauses b = [] then []
     else '' ORDER BY '' @ join_with '', '' (map (\<lambda>(f, down). extract_property_from_lambda f
       (if with_items b \<noteq> [] then None else Some v) @ (if down then '' DESC'' else '' ASC'')) (order_by_clauses b)))"

definition limit_text :: "builder \<Rightarrow> string" where
  "limit_text b = (case limit_value b of Some n \<Rightarrow> if n = 0 then [] else '' LIMIT '' @ py_str_int n | None \<Rightarrow> [])"

definition query_text :: "string \<Rightarrow> string \<Rightarrow> builder \<Rightarrow> string" where
  "query_text v pat b = ''MATCH '' @ pat @
     where_text (lambda_part (entity_class b) (where_clause b) (Some v) @ exists_clauses b) @
     with_text v b @ return_text v b @ order_text v b @ limit_text b"

definition build_gql :: "(builder, string) act" where
  "build_gql b = (case base_var (entity_class b) of Inl e \<Rightarrow> (Inl e, b)
     | Inr v \<Rightarrow> (case join_pattern [v] (''('' @ v @ '':'' @ get_label (entity_class b) @ '')'') (joins b) of
         (pat, js) \<Rightarrow> (let b' = move_where (b\<lparr>joins := js\<rparr>) in (Inr (query_text v pat b'), b'))))"

definition build_count_gql :: "builder \<Rightarrow> string result" where
  "build_count_gql b = bind_r (base_var (entity_class b)) (\<lambda>v. Inr (''MATCH ('' @ v @ '':'' @
     get_label (entity_class b) @ '')'' @ where_text (lambda_part (entity_class b) (where_clause b) (Some v)) @
     '' RETURN COUNT('' @ v @ '')''))"

section \<open>Running a query\<close>

text \<open>The builder and the engine's world together; a query passes its parameters when there are any.\<close>

datatype item = Namespace "(string \<times> gval) list" | EntityItem node

definition run_query :: "'w branch \<Rightarrow> string \<Rightarrow> (string \<times> gval) list \<Rightarrow> ('w, query_result) act" where
  "run_query br gql ps = branch_query br gql (if ps = [] then None else Some ps)"

text \<open>A row of a projection by its names; a row of whole nodes makes an entity without properties.\<close>

definition projected :: "string list \<Rightarrow> row \<Rightarrow> item" where
  "projected names r = Namespace (case r of
       RDict m \<Rightarrow> m
     | RList vs \<Rightarrow> dict_update (zip names (map (cell vs) [0..<length names])) []
     | ROther v \<Rightarrow> [(hd names, v)])"

definition row_to_entity :: "entity \<Rightarrow> row \<Rightarrow> item" where
  "row_to_entity c r = EntityItem (node_init c [])"

definition qb_all :: "'w branch \<Rightarrow> (builder \<times> 'w, item list) act" where
  "qb_all br s = (case build_gql (fst s) of (Inl e, b) \<Rightarrow> (Inl e, b, snd s)
     | (Inr gql, b) \<Rightarrow> (case run_query br gql (bound_params b) (snd s) of (Inl e, w) \<Rightarrow> (Inl e, b, w)
        | (Inr res, w) \<Rightarrow> (Inr (map (case return_names b of Some (f # fs) \<Rightarrow> projected (f # fs)
             | _ \<Rightarrow> row_to_entity (entity_class b)) (rows res)), b, w)))"

definition qb_first :: "'w branch \<Rightarrow> (builder \<times> 'w, item option) act" where
  "qb_first br s = bind (qb_all br) (\<lambda>items. ret (case items of [] \<Rightarrow> None | i # _ \<Rightarrow> Some i))
     (qb_take 1 (fst s), snd s)"

text \<open>\<open>result['rows'][0][0]\<close>, 0 without rows.\<close>

definition first_cell :: "query_result \<Rightarrow> gval result" where
  "first_cell res = (case rows res of [] \<Rightarrow> Inr (GLit (PInt 0))
     | RList (v # _) # _ \<Rightarrow> Inr v
     | RList [] # _ \<Rightarrow> raise IndexError ''list index out of range''
     | RDict _ # _ \<Rightarrow> raise KeyError ''0''
     | ROther (GLit (PStr (c # _))) # _ \<Rightarrow> Inr (GLit (PStr [c]))
     | ROther _ # _ \<Rightarrow> raise TypeError ''object is not subscriptable'')"

definition qb_count :: "'w branch \<Rightarrow> (builder \<times> 'w, gval) act" where
  "qb_count br s = (case build_count_gql (fst s) of Inl e \<Rightarrow> (Inl e, s)
     | Inr gql \<Rightarrow> (case run_query br gql (bound_params (fst s)) (snd s) of (Inl e, w) \<Rightarrow> (Inl e, fst s, w)
        | (Inr res, w) \<Rightarrow> (first_cell res, fst s, w)))"

text \<open>\<open>update(**fields)\<close>: every value goes through a parameter.\<close>

definition update_gql :: "builder \<Rightarrow> string \<Rightarrow> string list \<Rightarrow> string" where
  "update_gql b v ks = ''MATCH ('' @ v @ '':'' @ get_label (entity_class b) @ '')'' @
     where_text (lambda_part (entity_class b) (where_clause b) (Some v)) @
     '' SET '' @ join_with '', '' (map (\<lambda>k. v @ ''.'' @ k @ '' = $u_'' @ k) ks) @
     '' RETURN COUNT('' @ v @ '')''"

definition update_params :: "builder \<Rightarrow> (string \<times> gval) list \<Rightarrow> (string \<times> gval) list" where
  "update_params b sets = dict_update (map (\<lambda>(k, v). (''u_'' @ k, v)) sets) (bound_params b)"

definition qb_update :: "'w branch \<Rightarrow> (string \<times> gval) list \<Rightarrow> (builder \<times> 'w, gval) act" where
  "qb_update br sets s = (case base_var (entity_class (fst s)) of Inl e \<Rightarrow> (Inl e, s)
     | Inr v \<Rightarrow> if sets = [] then (raise ValueError ''update() requires at least one field=value to set'', s)
         else (case run_query br (update_gql (fst s) v (map fst sets)) (update_params (fst s) sets) (snd s) of
             (Inl e, w) \<Rightarrow> (Inl e, fst s, w)
           | (Inr res, w) \<Rightarrow> (first_cell res, fst s, w)))"

section \<open>Lemmas\<close>

text \<open>Aliases.\<close>

lemma free_suffix_free: "a @ py_str_nat (free_suffix used a k) \<notin> set used"
  by (induction used a k rule: free_suffix.induct) (subst free_suffix.simps, simp)

lemma free_alias_free: "free_alias used a \<notin> set used"
  using free_suffix_free by (simp add: free_alias_def)

lemma free_alias_id: "a \<notin> set used \<Longrightarrow> free_alias used a = a"
  by (simp add: free_alias_def)

lemma join_pattern_aliases:
  "join_pattern used pat js = (full, js') \<Longrightarrow>
    distinct (map j_alias js') \<and> set (map j_alias js') \<inter> set used = {} \<and>
    map (\<lambda>j. j\<lparr>j_alias := []\<rparr>) js' = map (\<lambda>j. j\<lparr>j_alias := []\<rparr>) js"
proof (induction js arbitrary: used pat full js')
  case (Cons j js)
  let ?a = "free_alias used (j_alias j)"
  obtain f t where r: "join_pattern (?a # used) (extend_pattern pat ?a j) js = (f, t)" by fastforce
  with Cons.prems have js': "js' = j\<lparr>j_alias := ?a\<rparr> # t" by (simp add: Let_def)
  from Cons.IH [OF r] show ?case using free_alias_free [of used "j_alias j"] by (auto simp: js')
qed simp

text \<open>Building again finds the aliases free already.\<close>

lemma join_pattern_again:
  "join_pattern used pat js = (full, js') \<Longrightarrow> join_pattern used pat js' = (full, js')"
proof (induction js arbitrary: used pat full js')
  case (Cons j js)
  let ?a = "free_alias used (j_alias j)"
  obtain f t where r: "join_pattern (?a # used) (extend_pattern pat ?a j) js = (f, t)" by fastforce
  with Cons.prems have js': "js' = j\<lparr>j_alias := ?a\<rparr> # t" "full = f" by (simp_all add: Let_def)
  have n: "extend_pattern pat ?a (j\<lparr>j_alias := ?a\<rparr>) = extend_pattern pat ?a j"
    by (simp add: extend_pattern_def node_text_def Let_def split: option.split list.split)
  from Cons.IH [OF r] free_alias_id [OF free_alias_free, of used "j_alias j"] show ?case
    by (simp add: js' n Let_def)
qed simp

text \<open>Dictionaries.\<close>

lemma map_of_dict_update: "map_of (dict_update new d) = map_of d ++ map_of (rev new)"
proof (induction new rule: rev_induct)
  case (snoc x xs)
  then show ?case by (cases x) (auto simp: dict_update_def update_conv' fun_eq_iff map_add_def)
qed (simp add: dict_update_def)

lemma map_of_rev: "distinct (map fst xs) \<Longrightarrow> map_of (rev xs) = map_of xs"
  by (subst map_of_inject_set) (simp_all add: rev_map [symmetric])

lemma map_of_prefixed: "map_of (map (\<lambda>(k, v). (p @ k, v)) xs) (p @ k) = map_of xs k"
  by (induction xs) auto

lemma update_params_lookup:
  assumes "distinct (map fst sets)"
  shows "map_of (update_params b sets) (''u_'' @ k) =
      (case map_of sets k of Some v \<Rightarrow> Some v | None \<Rightarrow> map_of (bound_params b) (''u_'' @ k))"
    and "(\<And>k. k \<in> fst ` set sets \<Longrightarrow> q \<noteq> ''u_'' @ k) \<Longrightarrow> map_of (update_params b sets) q = map_of (bound_params b) q"
proof -
  let ?new = "map (\<lambda>(k, v). (''u_'' @ k, v)) sets"
  have "map fst ?new = map ((@) ''u_'') (map fst sets)" by (induction sets) auto
  with assms have d: "distinct (map fst ?new)" by (simp add: distinct_map inj_on_def del: map_map)
  have m: "map_of (update_params b sets) = map_of (bound_params b) ++ map_of ?new"
    unfolding update_params_def map_of_dict_update map_of_rev [OF d] ..
  show "map_of (update_params b sets) (''u_'' @ k) =
      (case map_of sets k of Some v \<Rightarrow> Some v | None \<Rightarrow> map_of (bound_params b) (''u_'' @ k))"
    unfolding m map_add_def map_of_prefixed ..
  show "map_of (update_params b sets) q = map_of (bound_params b) q" if q: "\<And>k. k \<in> fst ` set sets \<Longrightarrow> q \<noteq> ''u_'' @ k"
  proof -
    have "map_of ?new q = None" unfolding map_of_eq_None_iff using q by force
    then show ?thesis unfolding m map_add_def by simp
  qed
qed

text \<open>What a run of \<open>build_gql\<close> leaves.\<close>

lemma base_var_ok: "base_var c = Inr v \<longleftrightarrow> get_label c \<noteq> [] \<and> v = [lower_char (hd (get_label c))]"
  by (auto simp: base_var_def split: list.splits)

lemma build_gql_run:
  assumes "base_var (entity_class b) = Inr v"
    "join_pattern [v] (''('' @ v @ '':'' @ get_label (entity_class b) @ '')'') (joins b) = (pat, js)"
  shows "build_gql b = (Inr (query_text v pat (move_where (b\<lparr>joins := js\<rparr>))), move_where (b\<lparr>joins := js\<rparr>))"
  unfolding build_gql_def assms sum.case prod.case Let_def ..

lemma build_gql_state:
  assumes "build_gql b = (Inr g, b')"
  obtains v pat js where "base_var (entity_class b) = Inr v"
    "join_pattern [v] (''('' @ v @ '':'' @ get_label (entity_class b) @ '')'') (joins b) = (pat, js)"
    "b' = move_where (b\<lparr>joins := js\<rparr>)" "g = query_text v pat b'"
  using assms by (auto simp: build_gql_def Let_def split: sum.splits prod.splits)

lemma move_where_simps [simp]:
  "joins (move_where b) = joins b" "entity_class (move_where b) = entity_class b"
  "bound_params (move_where b) = bound_params b" "return_names (move_where b) = return_names b"
  "limit_value (move_where b) = limit_value b" "move_where (move_where b) = move_where b"
  "move_where b\<lparr>joins := joins b\<rparr> = move_where b"
  by (simp_all add: move_where_def)

section \<open>The property theorems\<close>

text \<open>C38: Building a query always ends with aliases that tell the joined nodes apart: they are pairwise
  distinct and differ from the entity's variable, every join keeps the rest of its data, and building
  again from the state the first build left gives the same text and changes nothing more.\<close>

theorem built_aliases_distinct:
  assumes "build_gql b = (Inr g, b')"
  shows "distinct (map j_alias (joins b')) \<and>
    (\<forall>v. base_var (entity_class b) = Inr v \<longrightarrow> v \<notin> set (map j_alias (joins b'))) \<and>
    map (\<lambda>j. j\<lparr>j_alias := []\<rparr>) (joins b') = map (\<lambda>j. j\<lparr>j_alias := []\<rparr>) (joins b) \<and>
    build_gql b' = (Inr g, b')"
proof -
  obtain v pat js where r: "base_var (entity_class b) = Inr v"
    "join_pattern [v] (''('' @ v @ '':'' @ get_label (entity_class b) @ '')'') (joins b) = (pat, js)"
    "b' = move_where (b\<lparr>joins := js\<rparr>)" "g = query_text v pat b'"
    using build_gql_state [OF assms] by blast
  have e: "entity_class b' = entity_class b" "joins b' = js" "move_where (b'\<lparr>joins := js\<rparr>) = b'"
    by (simp_all add: r(3) move_where_def)
  have "build_gql b' = (Inr g, b')"
    using build_gql_run [of b' v pat js] join_pattern_again [OF r(2)] r(1,4) e by simp
  then show ?thesis using join_pattern_aliases [OF r(2)] r(1) e by auto
qed

text \<open>Two joins whose derived alias is the entity's own variable.\<close>

definition demo_query :: builder where
  "demo_query = (let j = \<lparr>j_dir = ''out'', j_via = ''Knows'', j_target = Some ''Person'', j_alias = ''p'',
     j_min = None, j_max = None, j_with_label = False\<rparr>
   in add_join j (add_join j (QueryBuilder demo_person)))"

lemma demo_base_var [simp]: "base_var demo_person = Inr ''p''"
proof -
  have "lower_char CHR ''P'' = CHR ''p''" by code_simp
  then show ?thesis by (simp add: base_var_def)
qed

lemma demo_query_simps [simp]: "entity_class demo_query = demo_person"
  by (simp add: demo_query_def Let_def add_join_def QueryBuilder_def)

lemma built_aliases_distinct_witness:
  "\<exists>g b'. build_gql demo_query = (Inr g, b') \<and> ''p'' \<notin> set (map j_alias (joins b')) \<and>
    distinct (map j_alias (joins b')) \<and> build_gql b' = (Inr g, b')"
proof -
  obtain g b' where r: "build_gql demo_query = (Inr g, b')"
    using build_gql_run [of demo_query "''p''"] by (auto simp: prod_eq_iff)
  from built_aliases_distinct [OF r] r show ?thesis by auto
qed

text \<open>\<open>depth\<close> accepts exactly the bounds with \<open>0 \<le> min \<le> max\<close>, stores them, and otherwise raises
  \<open>ValueError\<close> and leaves the builder; the text of the query does not depend on them.\<close>

lemma depth_keeps_bounds:
  shows "(case qb_depth args lo hi b of
      (Inr _, b') \<Rightarrow> 0 \<le> qb_depth_min b' \<and> qb_depth_min b' \<le> qb_depth_max b' \<and>
        depth_bounds args lo hi = Inr (qb_depth_min b', qb_depth_max b')
    | (Inl e, b') \<Rightarrow> kind_of e = ValueError \<and> b' = b \<and>
        (\<nexists>m n. depth_bounds args lo hi = Inr (m, n) \<and> 0 \<le> m \<and> m \<le> n)) \<and>
    fst (build_gql (snd (qb_depth args lo hi b))) = fst (build_gql b)"
proof -
  have t: "fst (build_gql (b\<lparr>qb_depth_min := m, qb_depth_max := n\<rparr>)) = fst (build_gql b)" for m n
    by (auto simp: build_gql_def Let_def query_text_def move_where_def with_text_def return_text_def order_text_def limit_text_def
        split: sum.split prod.split)
  have "depth_bounds args lo hi = Inl e \<Longrightarrow> kind_of e = ValueError" for e
    by (auto simp: depth_bounds_def split: if_splits list.splits)
  then show ?thesis
    by (auto simp: qb_depth_def t split: sum.splits prod.splits)
qed

text \<open>The count query asks for the matches of the entity under the plain filter: its pattern and
  condition are those of the query with nothing else set. Joins, existence conditions, a projection and
  the filter after it, and the limit, do not enter it.\<close>

lemma count_asks_for_plain_matches:
  assumes "get_label (entity_class b) \<noteq> []"
  shows "\<exists>v pre. base_var (entity_class b) = Inr v \<and>
    build_gql ((QueryBuilder (entity_class b))\<lparr>where_clause := where_clause b\<rparr>) =
      (Inr (pre @ '' RETURN '' @ v), (QueryBuilder (entity_class b))\<lparr>where_clause := where_clause b\<rparr>) \<and>
    build_count_gql b = Inr (pre @ '' RETURN COUNT('' @ v @ '')'')"
proof -
  let ?q = "(QueryBuilder (entity_class b))\<lparr>where_clause := where_clause b\<rparr>"
  let ?pat = "\<lambda>v. ''('' @ v @ '':'' @ get_label (entity_class b) @ '')''"
  obtain v where v: "base_var (entity_class b) = Inr v" using assms by (simp add: base_var_ok)
  let ?w = "where_text (lambda_part (entity_class b) (where_clause b) (Some v))"
  have q: "entity_class ?q = entity_class b" "move_where (?q\<lparr>joins := []\<rparr>) = ?q" "joins ?q = []"
    "where_clause ?q = where_clause b"
    "exists_clauses ?q = []" "with_items ?q = []" "return_names ?q = None" "order_by_clauses ?q = []" "limit_value ?q = None"
    by (simp_all add: QueryBuilder_def move_where_def)
  have "query_text v (?pat v) ?q = (''MATCH '' @ ?pat v @ ?w) @ '' RETURN '' @ v"
    unfolding query_text_def with_text_def return_text_def order_text_def limit_text_def q by simp
  moreover have "build_gql ?q = (Inr (query_text v (?pat v) ?q), ?q)"
    using build_gql_run [of ?q v "?pat v" "[]"] v by (simp only: q join_pattern.simps)
  moreover have "build_count_gql b = Inr ((''MATCH '' @ ?pat v @ ?w) @ '' RETURN COUNT('' @ v @ '')'')"
    by (simp add: build_count_gql_def v)
  ultimately show ?thesis using v by metis
qed



text \<open>A filter set after a projection is lost when one was set before it.\<close>

lemma filter_after_select_lost:
  assumes "where_clause b = Some f" "with_items b \<noteq> []"
  shows "fst (build_gql (qb_where g b)) = fst (build_gql b)"
  using assms by (auto simp: qb_where_def build_gql_def Let_def move_where_def split: sum.split prod.split)

text \<open>A limit of 0 sets none.\<close>

lemma take_zero_no_limit: "limit_text (qb_take 0 b) = []"
  by (simp add: limit_text_def qb_take_def)

end
