(* ===== verification/Files.thy ===== *)
theory Files
  imports Effects PyString "HOL-Library.Sublist"
begin

text \<open>
  The local files the backend moves databases through: a file system as a list of paths with their
  nodes, the operations of \<open>pathlib\<close>, \<open>os\<close> and \<open>shutil\<close> that the use cases apply to it, and the
  \<open>DatabasePathFactory\<close> of \<open>domain/database_management/database_path_factory.py\<close> on top of them.
  Contents are a type \<open>'b\<close>. Operations fail for the logical reasons they check; a full disk, permissions
  and links are left out.
\<close>

section \<open>Paths and trees\<close>

type_synonym path = "string list"

datatype 'b node = Dir | File 'b

type_synonym 'b files = "(path \<times> 'b node) list"

definition path_of :: "string \<Rightarrow> path" where
  "path_of s = filter (\<lambda>c. c \<noteq> [] \<and> c \<noteq> ''.'') (py_split_char CHR ''/'' s)"

text \<open>The part below a path with the paths made relative, the rest, and a tree put in a place.\<close>

definition subtree :: "path \<Rightarrow> 'b files \<Rightarrow> 'b files" where
  "subtree p v = map (\<lambda>(q, n). (drop (length p) q, n)) (filter (\<lambda>(q, n). prefix p q) v)"

definition cut :: "path \<Rightarrow> 'b files \<Rightarrow> 'b files" where
  "cut p v = filter (\<lambda>(q, n). \<not> prefix p q) v"

definition graft :: "path \<Rightarrow> 'b files \<Rightarrow> 'b files \<Rightarrow> 'b files" where
  "graft p t v = map (\<lambda>(r, n). (p @ r, n)) t @ cut p v"

lemma map_of_subtree [simp]: "map_of (subtree p v) r = map_of v (p @ r)"
proof (induction v)
  case (Cons x v)
  obtain q n where x: "x = (q, n)" by force
  show ?case
  proof (cases "prefix p q")
    case True
    then obtain s where "q = p @ s" by (auto elim: prefixE)
    with Cons show ?thesis by (simp add: subtree_def x)
  next
    case False
    then have "q \<noteq> p @ r" by (auto simp: prefix_def)
    with Cons False show ?thesis by (simp add: subtree_def x)
  qed
qed (simp add: subtree_def)

lemma map_of_cut [simp]: "map_of (cut p v) q = (if prefix p q then None else map_of v q)"
  by (induction v) (auto simp: cut_def)

lemma map_of_reroot: "map_of (map (\<lambda>(r, n). (p @ r, n)) t) q =
    (if prefix p q then map_of t (drop (length p) q) else None)"
  by (induction t) (auto simp: prefix_def)

lemma map_of_graft [simp]:
  "map_of (graft p t v) q = (if prefix p q then map_of t (drop (length p) q) else map_of v q)"
  by (auto simp: graft_def map_add_def map_of_reroot split: option.splits)

section \<open>Operations\<close>

definition fs_exists :: "'b files \<Rightarrow> path \<Rightarrow> bool" where
  "fs_exists v p \<longleftrightarrow> map_of v p \<noteq> None"

definition is_dir :: "'b files \<Rightarrow> path \<Rightarrow> bool" where
  "is_dir v p \<longleftrightarrow> (case map_of v p of Some Dir \<Rightarrow> True | _ \<Rightarrow> False)"

definition is_file :: "'b files \<Rightarrow> path \<Rightarrow> bool" where
  "is_file v p \<longleftrightarrow> (case map_of v p of Some (File _) \<Rightarrow> True | _ \<Rightarrow> False)"

text \<open>\<open>p.iterdir()\<close>.\<close>

definition iterdir :: "'b files \<Rightarrow> path \<Rightarrow> path list" where
  "iterdir v p = remdups (filter (\<lambda>q. prefix p q \<and> length q = Suc (length p)) (map fst v))"

text \<open>\<open>p.mkdir(parents=True, exist_ok=True)\<close>.\<close>

definition mkdirs :: "path \<Rightarrow> ('b files, unit) act" where
  "mkdirs p v = (if list_ex (is_file v) (prefixes p) then (raise FileExistsError ''File exists'', v)
     else (Inr (), map (\<lambda>q. (q, Dir)) (filter (\<lambda>q. \<not> fs_exists v q) (prefixes p)) @ v))"

text \<open>\<open>p.write_bytes(b)\<close>.\<close>

definition write_bytes :: "path \<Rightarrow> 'b \<Rightarrow> ('b files, unit) act" where
  "write_bytes p b v = (if \<not> is_dir v (butlast p) then (raise FileNotFoundError ''No such file or directory'', v)
     else if is_dir v p then (raise OSError ''Is a directory'', v)
     else (Inr (), (p, File b) # v))"

text \<open>\<open>shutil.rmtree(p)\<close>.\<close>

definition rmtree :: "path \<Rightarrow> ('b files, unit) act" where
  "rmtree p v = (if \<not> fs_exists v p then (raise FileNotFoundError ''No such file or directory'', v)
     else if is_file v p then (raise OSError ''Not a directory'', v) else (Inr (), cut p v))"

text \<open>\<open>shutil.copytree(a, b)\<close>, with the directories above the destination.\<close>

definition copytree :: "path \<Rightarrow> path \<Rightarrow> ('b files, unit) act" where
  "copytree a b v = (if \<not> is_dir v a then (raise FileNotFoundError ''No such file or directory'', v)
     else if fs_exists v b then (raise FileExistsError ''File exists'', v)
     else andthen (mkdirs (butlast b)) (\<lambda>v1. (Inr (), graft b (subtree a v) v1)) v)"

text \<open>\<open>shutil.copy2(a, b)\<close>: into \<open>b\<close> when that is a directory.\<close>

definition copy2 :: "path \<Rightarrow> path \<Rightarrow> ('b files, unit) act" where
  "copy2 a b v = (case map_of v a of
       Some (File c) \<Rightarrow> write_bytes (if is_dir v b then b @ [last a] else b) c v
     | _ \<Rightarrow> (raise FileNotFoundError ''No such file or directory'', v))"

text \<open>\<open>os.replace(a, b)\<close>: a directory replaces only an empty one, a file only a file.\<close>

definition os_replace :: "path \<Rightarrow> path \<Rightarrow> ('b files, unit) act" where
  "os_replace a b v = (if \<not> fs_exists v a \<or> \<not> is_dir v (butlast b) then (raise FileNotFoundError ''No such file or directory'', v)
     else if prefix a b \<and> a \<noteq> b then (raise OSError ''Invalid argument'', v)
     else if is_dir v a \<and> is_file v b then (raise OSError ''Not a directory'', v)
     else if is_file v a \<and> is_dir v b then (raise OSError ''Is a directory'', v)
     else if is_dir v a \<and> iterdir v b \<noteq> [] \<and> a \<noteq> b then (raise OSError ''Directory not empty'', v)
     else (Inr (), graft b (subtree a v) (cut a v)))"

text \<open>\<open>os.path.getsize\<close> summed over the files below: \<open>rglob\<close>.\<close>

definition tree_size :: "('b \<Rightarrow> nat) \<Rightarrow> path \<Rightarrow> 'b files \<Rightarrow> nat" where
  "tree_size nbytes p v = sum_list (map (\<lambda>q. case map_of v q of Some (File c) \<Rightarrow> nbytes c | _ \<Rightarrow> 0)
     (remdups (filter (\<lambda>q. strict_prefix p q) (map fst v))))"

text \<open>\<open>tempfile.mkdtemp(dir=...)\<close> once it has found an unused name.\<close>

definition mkdtemp :: "path \<Rightarrow> ('b files, unit) act" where
  "mkdtemp p v = (if \<not> is_dir v (butlast p) then (raise FileNotFoundError ''No such file or directory'', v)
     else if fs_exists v p then (raise FileExistsError ''File exists'', v)
     else (Inr (), (p, Dir) # v))"

section \<open>Archives\<close>

text \<open>What the object storage holds: a compressed tar archive, as the tree it holds, or other bytes.
  \<open>tar.add(dir, arcname=name)\<close> and \<open>tar.extractall(dir)\<close>; a member for the directory itself changes nothing.\<close>

datatype 'b blob = TarGz "'b files" | Bytes 'b

definition tar_add :: "path \<Rightarrow> string \<Rightarrow> 'b files \<Rightarrow> 'b blob" where
  "tar_add dir name v = TarGz (map (\<lambda>(r, n). (name # r, n)) (subtree dir v))"

definition tar_extract :: "'b blob \<Rightarrow> path \<Rightarrow> ('b files, unit) act" where
  "tar_extract data dir v = (case data of Bytes _ \<Rightarrow> (raise OtherError ''not a gzip file'', v)
     | TarGz t \<Rightarrow> (Inr (), map (\<lambda>(r, n). (dir @ r, n)) (filter (\<lambda>(r, n). r \<noteq> []) t) @ v))"

section \<open>The path factory\<close>

definition data_kuzu :: string where
  "data_kuzu = ''data.kuzu''"

definition resolve_database_path :: "string \<Rightarrow> ('b files, path) act" where
  "resolve_database_path file_path v = (if fs_exists v (path_of file_path) then (Inr (path_of file_path), v)
     else (raise FileNotFoundError (''Database path does not exist: '' @ file_path), v))"

definition copy_database_to_archive :: "path \<Rightarrow> path \<Rightarrow> ('b files, path) act" where
  "copy_database_to_archive source dest = andthen (mkdirs dest) (\<lambda>v.
     andthen (if is_dir v source then copytree source (dest @ [data_kuzu]) else copy2 source (dest @ [data_kuzu]))
       (ret (dest @ [data_kuzu])) v)"

definition extract_database_from_archive :: "path \<Rightarrow> path \<Rightarrow> ('b files, path) act" where
  "extract_database_from_archive content dest v = (let source = content @ [data_kuzu] in
     if \<not> fs_exists v source then (raise FileNotFoundError ''Database not found in archive'', v)
     else andthen (mkdirs (butlast dest)) (\<lambda>v1.
       andthen (if is_dir v1 source
           then (\<lambda>v2. andthen (guard_do (fs_exists v2 dest) (rmtree dest)) (copytree source dest) v2)
           else copy2 source dest) (ret dest) v1) v)"

definition validate_database_structure :: "path \<Rightarrow> 'b files \<Rightarrow> string" where
  "validate_database_structure p v = (if \<not> fs_exists v p then ''invalid''
     else if is_dir v p then ''directory'' else if is_file v p then ''file'' else ''invalid'')"

definition get_database_size :: "('b \<Rightarrow> nat) \<Rightarrow> path \<Rightarrow> 'b files \<Rightarrow> nat" where
  "get_database_size nbytes p v = (case map_of v p of
       Some Dir \<Rightarrow> tree_size nbytes p v | Some (File c) \<Rightarrow> nbytes c | None \<Rightarrow> 0)"

section \<open>Lemmas\<close>

lemma fs_simps: "fs_exists v p \<longleftrightarrow> map_of v p \<noteq> None" "is_dir v p \<longleftrightarrow> map_of v p = Some Dir"
  "is_file v p \<longleftrightarrow> (\<exists>c. map_of v p = Some (File c))"
  by (auto simp: fs_exists_def is_dir_def is_file_def split: option.splits node.splits)

lemma map_of_new_dirs:
  "map_of (map (\<lambda>q. (q, Dir)) ps @ v) q = (if q \<in> set ps then Some Dir else map_of v q)"
  by (induction ps) auto

text \<open>\<open>mkdir\<close> with parents: what is there stays, what is missing on the way becomes a directory.\<close>

definition no_file_above :: "'b files \<Rightarrow> path \<Rightarrow> bool" where
  "no_file_above v p \<longleftrightarrow> (\<forall>q. prefix q p \<longrightarrow> \<not> is_file v q)"

lemma mkdirs_run:
  assumes "no_file_above v p"
  obtains v' where "mkdirs p v = (Inr (), v')"
    "\<And>q. map_of v' q = (if prefix q p \<and> map_of v q = None then Some Dir else map_of v q)"
proof -
  let ?v = "map (\<lambda>q. (q, Dir)) (filter (\<lambda>q. \<not> fs_exists v q) (prefixes p)) @ v"
  have "\<not> list_ex (is_file v) (prefixes p)" using assms by (auto simp: list_ex_iff no_file_above_def)
  then have "mkdirs p v = (Inr (), ?v)" by (simp add: mkdirs_def)
  moreover have "map_of ?v q = (if prefix q p \<and> map_of v q = None then Some Dir else map_of v q)" for q
    by (simp only: map_of_new_dirs set_filter in_set_prefixes fs_simps mem_Collect_eq not_not simp_thms)
  ultimately show thesis using that by blast
qed

lemma mkdirs_there:
  assumes "\<And>q. prefix q p \<Longrightarrow> is_dir v q"
  shows "mkdirs p v = (Inr (), v)"
  using assms by (auto simp: mkdirs_def list_ex_iff fs_simps filter_empty_conv)

text \<open>Copying a directory to a fresh place.\<close>

definition fresh_path :: "'b files \<Rightarrow> path \<Rightarrow> bool" where
  "fresh_path v p \<longleftrightarrow> (\<forall>q. prefix p q \<longrightarrow> map_of v q = None)"

lemma copytree_run:
  assumes "is_dir v a" "\<not> fs_exists v b" "no_file_above v (butlast b)"
  obtains v' where "copytree a b v = (Inr (), v')"
    "\<And>q. map_of v' q = (if prefix b q then map_of v (a @ drop (length b) q)
       else if prefix q (butlast b) \<and> map_of v q = None then Some Dir else map_of v q)"
proof -
  obtain v1 where v1: "mkdirs (butlast b) v = (Inr (), v1)"
    "\<And>q. map_of v1 q = (if prefix q (butlast b) \<and> map_of v q = None then Some Dir else map_of v q)"
    using mkdirs_run [OF assms(3)] by blast
  have "copytree a b v = (Inr (), graft b (subtree a v) v1)"
    using assms(1,2) by (simp add: copytree_def andthen_def bind_def v1(1))
  then show thesis using that by (simp add: v1(2))
qed

text \<open>The entries of a directory.\<close>

lemma in_keys_iff: "q \<in> set (map fst v) \<longleftrightarrow> map_of v q \<noteq> None"
  by (simp add: map_of_eq_None_iff)

lemma iterdir_single:
  assumes "\<And>q. map_of v q \<noteq> None \<and> prefix p q \<and> length q = Suc (length p) \<longleftrightarrow> q = e"
  shows "iterdir v p = [e]"
proof -
  have "set (iterdir v p) = {e}" using assms unfolding iterdir_def set_remdups set_filter in_keys_iff by blast
  moreover have "distinct (iterdir v p)" by (simp add: iterdir_def)
  ultimately show ?thesis by (metis distinct.simps(2) distinct_singleton list.exhaust list.set_intros(1) set_ConsD singletonD singletonI insertI1 list.simps(15) insert_eq_iff empty_set)
qed

end
