(* ===== verification/Database_Tables.thy ===== *)
theory Database_Tables
  imports Ports Nearest_Snapshot Value_Objects
begin

text \<open>
  The catalog of databases, snapshots and bookmarks: the tables \<open>kuzu_databases\<close>,
  \<open>kuzu_db_snapshots\<close> and \<open>pitr_bookmarks\<close> with the statements the repositories of
  \<open>infrastructure/database\<close> run on them. A table is its rows in insertion order; a statement acts on
  it and returns its result or the error of a violated constraint. Times are aware, in UTC: the columns
  keep time zones, and a naive time is taken as UTC.
\<close>

section \<open>Statements\<close>

definition sql_insert :: "('r \<Rightarrow> 'k) \<Rightarrow> ('r \<Rightarrow> 'u) \<Rightarrow> 'r \<Rightarrow> ('r list, unit) act" where
  "sql_insert pk uniq r rows = (if list_ex (\<lambda>x. pk x = pk r \<or> uniq x = uniq r) rows
     then (raise IntegrityError ''duplicate key value violates unique constraint'', rows)
     else (Inr (), rows @ [r]))"

definition sql_delete :: "('r \<Rightarrow> bool) \<Rightarrow> ('r list, bool) act" where
  "sql_delete p rows = (Inr (list_ex p rows), filter (\<lambda>r. \<not> p r) rows)"

definition sql_fetchone :: "('r \<Rightarrow> bool) \<Rightarrow> ('r list, 'r option) act" where
  "sql_fetchone p rows = (Inr (List.find p rows), rows)"

section \<open>Databases\<close>

record db_row =
  d_id :: uuid
  d_tenant :: uuid
  d_name :: string
  d_path :: string
  d_created :: dt

abbreviation d_unique :: "db_row \<Rightarrow> uuid \<times> string" where
  "d_unique r \<equiv> (d_tenant r, d_name r)"

text \<open>\<open>PostgresDatabaseMetadataRepository\<close>: names are checked again when they are read.\<close>

definition metadata_save :: "db_row \<Rightarrow> (db_row list, uuid) act" where
  "metadata_save m = andthen (sql_insert d_id d_unique m) (ret (d_id m))"

definition checked_row :: "db_row \<Rightarrow> db_row result" where
  "checked_row r = bind_r (DatabaseName (d_name r)) (\<lambda>n. Inr (r\<lparr>d_name := n\<rparr>))"

definition metadata_find_by_tenant :: "uuid \<Rightarrow> (db_row list, db_row list) act" where
  "metadata_find_by_tenant t rows =
     (map_r checked_row (sort_key d_created (filter (\<lambda>r. d_tenant r = t) rows)), rows)"

definition metadata_find_by_name :: "uuid \<Rightarrow> string \<Rightarrow> (db_row list, db_row option) act" where
  "metadata_find_by_name t n = bind (sql_fetchone (\<lambda>r. d_unique r = (t, n))) (\<lambda>r.
     case r of None \<Rightarrow> ret None | Some row \<Rightarrow> of_result (bind_r (checked_row row) (\<lambda>x. Inr (Some x))))"

text \<open>\<open>PostgresKuzuDatabaseRepository\<close>: an insertion that meets the tenant's name does nothing and the
  id is returned all the same. \<open>fresh\<close> is the value of \<open>uuid4()\<close>, \<open>given\<close> the optional \<open>metadata["id"]\<close>.\<close>

definition save_database_metadata :: "uuid option \<Rightarrow> uuid \<Rightarrow> dt \<Rightarrow> uuid \<Rightarrow> string \<Rightarrow> string \<Rightarrow> (db_row list, uuid) act" where
  "save_database_metadata given fresh created t n p rows = (let i = (case given of Some i \<Rightarrow> i | None \<Rightarrow> fresh) in
     if list_ex (\<lambda>x. d_unique x = (t, n)) rows then (Inr i, rows)
     else andthen (sql_insert d_id d_unique \<lparr>d_id = i, d_tenant = t, d_name = n, d_path = p, d_created = created\<rparr>)
            (ret i) rows)"

definition db_find_by_id :: "uuid \<Rightarrow> (db_row list, db_row option) act" where
  "db_find_by_id i = sql_fetchone (\<lambda>r. d_id r = i)"

definition db_find_by_tenant :: "uuid \<Rightarrow> (db_row list, db_row list) act" where
  "db_find_by_tenant t rows = (Inr (sort_key d_created (filter (\<lambda>r. d_tenant r = t) rows)), rows)"

definition db_delete :: "uuid \<Rightarrow> (db_row list, bool) act" where
  "db_delete i = sql_delete (\<lambda>r. d_id r = i)"

section \<open>Snapshots\<close>

record snap_row =
  s_id :: uuid
  s_tenant :: uuid
  s_database :: uuid
  s_key :: string
  s_checksum :: string
  s_size :: nat
  s_created :: dt

abbreviation s_unique :: "snap_row \<Rightarrow> uuid \<times> string" where
  "s_unique r \<equiv> (s_database r, s_key r)"

text \<open>A \<open>created_at\<close> that is no string goes to the database as it is, which refuses it.\<close>

definition stored_time :: "iso_field \<Rightarrow> dt result" where
  "stored_time f = (case f of IsoAware d \<Rightarrow> Inr d | IsoNaive d \<Rightarrow> Inr d
     | BadIso \<Rightarrow> raise ValueError ''Invalid isoformat string''
     | NotStr \<Rightarrow> raise IntegrityError ''null value in column violates not-null constraint'')"

definition snapshot_save :: "uuid \<Rightarrow> uuid \<Rightarrow> uuid \<Rightarrow> string \<Rightarrow> string \<Rightarrow> nat \<Rightarrow> iso_field \<Rightarrow> (snap_row list, uuid) act" where
  "snapshot_save fresh t d k c n created = bind (of_result (stored_time created)) (\<lambda>tm.
     andthen (sql_insert s_id s_unique \<lparr>s_id = fresh, s_tenant = t, s_database = d, s_key = k,
         s_checksum = c, s_size = n, s_created = tm\<rparr>) (ret fresh))"

definition snapshot_list :: "uuid \<Rightarrow> uuid option \<Rightarrow> (snap_row list, snap_row list) act" where
  "snapshot_list d t rows = (Inr (rev (sort_key s_created
     (filter (\<lambda>r. s_database r = d \<and> (case t of Some u \<Rightarrow> s_tenant r = u | None \<Rightarrow> True)) rows))), rows)"

definition snapshot_find_by_id :: "uuid \<Rightarrow> (snap_row list, snap_row option) act" where
  "snapshot_find_by_id i = sql_fetchone (\<lambda>r. s_id r = i)"

definition snapshot_delete :: "uuid \<Rightarrow> (snap_row list, bool) act" where
  "snapshot_delete i = sql_delete (\<lambda>r. s_id r = i)"

text \<open>The dictionary a row is returned as, with the fields the searches by time read.\<close>

definition snapshot_dict :: "snap_row \<Rightarrow> snapshot" where
  "snapshot_dict r = \<lparr>snap_id = s_id r, snap_object_key = s_key r, snap_checksum = s_checksum r,
     snap_size = s_size r, snap_created = IsoAware (s_created r)\<rparr>"

section \<open>Bookmarks\<close>

record bookmark_row =
  b_id :: uuid
  b_tenant :: uuid
  b_database :: uuid
  b_name :: string
  b_ts :: dt

abbreviation b_unique :: "bookmark_row \<Rightarrow> uuid \<times> uuid \<times> string" where
  "b_unique r \<equiv> (b_tenant r, b_database r, b_name r)"

text \<open>An insertion that meets the name sets the time of the row there, and the new id is returned.\<close>

definition bookmark_add :: "uuid \<Rightarrow> uuid \<Rightarrow> uuid \<Rightarrow> string \<Rightarrow> iso_field \<Rightarrow> (bookmark_row list, uuid) act" where
  "bookmark_add fresh t d n tm = bind (of_result (stored_time tm)) (\<lambda>ts rows.
     if list_ex (\<lambda>r. b_unique r = (t, d, n)) rows
     then (Inr fresh, map (\<lambda>r. if b_unique r = (t, d, n) then r\<lparr>b_ts := ts\<rparr> else r) rows)
     else andthen (sql_insert b_id b_unique \<lparr>b_id = fresh, b_tenant = t, b_database = d, b_name = n, b_ts = ts\<rparr>)
       (ret fresh) rows)"

definition bookmark_list :: "uuid \<Rightarrow> uuid \<Rightarrow> (bookmark_row list, bookmark_row list) act" where
  "bookmark_list t d rows = (Inr (sort_key b_ts (filter (\<lambda>r. b_tenant r = t \<and> b_database r = d) rows)), rows)"

definition bookmark_delete :: "uuid \<Rightarrow> uuid \<Rightarrow> string \<Rightarrow> (bookmark_row list, bool) act" where
  "bookmark_delete t d n = sql_delete (\<lambda>r. b_unique r = (t, d, n))"

section \<open>Tables as maps\<close>

text \<open>A table with a primary and a secondary key is a map from the primary key; \<open>spec_insert\<close>,
  \<open>spec_delete\<close> and \<open>spec_find\<close> are what the statements do to the map.\<close>

definition table_ok :: "('r \<Rightarrow> 'k) \<Rightarrow> ('r \<Rightarrow> 'u) \<Rightarrow> 'r list \<Rightarrow> bool" where
  "table_ok pk uniq rows \<longleftrightarrow> distinct (map pk rows) \<and> distinct (map uniq rows)"

definition table_map :: "('r \<Rightarrow> 'k) \<Rightarrow> 'r list \<Rightarrow> ('k \<rightharpoonup> 'r)" where
  "table_map pk rows = map_of (map (\<lambda>r. (pk r, r)) rows)"

definition spec_insert :: "('r \<Rightarrow> 'k) \<Rightarrow> ('r \<Rightarrow> 'u) \<Rightarrow> 'r \<Rightarrow> ('k \<rightharpoonup> 'r) \<Rightarrow> bool \<times> ('k \<rightharpoonup> 'r)" where
  "spec_insert pk uniq r m = (if pk r \<in> dom m \<or> (\<exists>x \<in> ran m. uniq x = uniq r) then (False, m)
     else (True, m(pk r \<mapsto> r)))"

definition spec_delete :: "'k \<Rightarrow> ('k \<rightharpoonup> 'r) \<Rightarrow> bool \<times> ('k \<rightharpoonup> 'r)" where
  "spec_delete k m = (k \<in> dom m, m(k := None))"

lemma table_map_Some:
  assumes "distinct (map pk rows)"
  shows "table_map pk rows k = Some r \<longleftrightarrow> r \<in> set rows \<and> pk r = k"
proof -
  have "distinct (map fst (map (\<lambda>r. (pk r, r)) rows))" using assms by (simp add: comp_def)
  then show ?thesis unfolding table_map_def by (subst map_of_eq_Some_iff) auto
qed

lemma table_map_dom: "dom (table_map pk rows) = pk ` set rows"
  by (force simp: table_map_def dom_map_of_conv_image_fst)

lemma table_map_ran:
  assumes "distinct (map pk rows)"
  shows "ran (table_map pk rows) = set rows"
  using table_map_Some [OF assms] by (auto simp: ran_def)

lemma find_key: "List.find (\<lambda>r. pk r = k) rows = table_map pk rows k"
  by (induction rows) (auto simp: table_map_def)

lemma sql_insert_refines:
  assumes "table_ok pk uniq rows"
  obtains res rows' where "sql_insert pk uniq r rows = (res, rows')" "table_ok pk uniq rows'"
    "(is_ok res, table_map pk rows') = spec_insert pk uniq r (table_map pk rows)"
    "\<And>e. res = Inl e \<Longrightarrow> kind_of e = IntegrityError"
proof (cases "list_ex (\<lambda>x. pk x = pk r \<or> uniq x = uniq r) rows")
  case True
  have d: "distinct (map pk rows)" using assms by (simp add: table_ok_def)
  have "spec_insert pk uniq r (table_map pk rows) = (False, table_map pk rows)"
    using True by (auto simp: spec_insert_def table_map_dom table_map_ran [OF d] list_ex_iff image_iff) metis
  with that [of "raise IntegrityError ''duplicate key value violates unique constraint''" rows] assms True
  show thesis by (simp add: sql_insert_def)
next
  case False
  have d: "distinct (map pk rows)" using assms by (simp add: table_ok_def)
  have n: "pk r \<notin> pk ` set rows" "uniq r \<notin> uniq ` set rows" using False by (auto simp: list_ex_iff)
  have "table_map pk (rows @ [r]) = (table_map pk rows)(pk r \<mapsto> r)"
    using n(1) by (auto simp: table_map_def map_add_def fun_eq_iff split: option.split dest!: map_of_SomeD)
  then have "(True, table_map pk (rows @ [r])) = spec_insert pk uniq r (table_map pk rows)"
    using n by (simp add: spec_insert_def table_map_dom table_map_ran [OF d]) (metis imageI)
  with that [of "Inr ()" "rows @ [r]"] assms n False show thesis by (simp add: sql_insert_def table_ok_def)
qed

lemma table_ok_filter: "table_ok pk uniq rows \<Longrightarrow> table_ok pk uniq (filter p rows)"
  by (simp add: table_ok_def distinct_map_filter)

lemma sql_delete_refines:
  assumes "table_ok pk uniq rows"
  shows "table_ok pk uniq (snd (sql_delete (\<lambda>r. pk r = k) rows)) \<and>
    fst (sql_delete (\<lambda>r. pk r = k) rows) = Inr (fst (spec_delete k (table_map pk rows))) \<and>
    table_map pk (snd (sql_delete (\<lambda>r. pk r = k) rows)) = snd (spec_delete k (table_map pk rows))"
proof -
  have "table_map pk (filter (\<lambda>r. pk r \<noteq> k) rows) = (table_map pk rows)(k := None)"
    by (induction rows) (auto simp: table_map_def fun_eq_iff)
  then show ?thesis using assms
    by (auto simp: sql_delete_def spec_delete_def table_ok_filter table_map_dom list_ex_iff)
qed

section \<open>The catalog refines two maps\<close>

text \<open>The operations on the catalog, with what they answer: whether the statement took effect, and the row
  a lookup finds.\<close>

datatype catalog_op = SaveDatabase db_row | DeleteDatabase uuid | FindDatabase uuid
  | SaveSnapshot snap_row | DeleteSnapshot uuid | FindSnapshot uuid

datatype answer = Done bool | FoundDatabase "db_row option" | FoundSnapshot "snap_row option"

definition done_of :: "bool result \<Rightarrow> answer" where
  "done_of r = Done (case r of Inr b \<Rightarrow> b | Inl _ \<Rightarrow> False)"

fun catalog_step :: "catalog_op \<Rightarrow> db_row list \<times> snap_row list \<Rightarrow> answer \<times> db_row list \<times> snap_row list" where
  "catalog_step (SaveDatabase m) (ds, ss) = (case metadata_save m ds of (r, ds') \<Rightarrow> (Done (is_ok r), ds', ss))"
| "catalog_step (DeleteDatabase i) (ds, ss) = (case db_delete i ds of (r, ds') \<Rightarrow> (done_of r, ds', ss))"
| "catalog_step (FindDatabase i) (ds, ss) = (case db_find_by_id i ds of (r, ds') \<Rightarrow>
     (FoundDatabase (case r of Inr x \<Rightarrow> x | Inl _ \<Rightarrow> None), ds', ss))"
| "catalog_step (SaveSnapshot s) (ds, ss) = (case snapshot_save (s_id s) (s_tenant s) (s_database s) (s_key s)
     (s_checksum s) (s_size s) (IsoAware (s_created s)) ss of (r, ss') \<Rightarrow> (Done (is_ok r), ds, ss'))"
| "catalog_step (DeleteSnapshot i) (ds, ss) = (case snapshot_delete i ss of (r, ss') \<Rightarrow> (done_of r, ds, ss'))"
| "catalog_step (FindSnapshot i) (ds, ss) = (case snapshot_find_by_id i ss of (r, ss') \<Rightarrow>
     (FoundSnapshot (case r of Inr x \<Rightarrow> x | Inl _ \<Rightarrow> None), ds, ss'))"

fun spec_step :: "catalog_op \<Rightarrow> (uuid \<rightharpoonup> db_row) \<times> (uuid \<rightharpoonup> snap_row) \<Rightarrow>
    answer \<times> (uuid \<rightharpoonup> db_row) \<times> (uuid \<rightharpoonup> snap_row)" where
  "spec_step (SaveDatabase m) (D, S) = (case spec_insert d_id d_unique m D of (b, D') \<Rightarrow> (Done b, D', S))"
| "spec_step (DeleteDatabase i) (D, S) = (case spec_delete i D of (b, D') \<Rightarrow> (Done b, D', S))"
| "spec_step (FindDatabase i) (D, S) = (FoundDatabase (D i), D, S)"
| "spec_step (SaveSnapshot s) (D, S) = (case spec_insert s_id s_unique s S of (b, S') \<Rightarrow> (Done b, D, S'))"
| "spec_step (DeleteSnapshot i) (D, S) = (case spec_delete i S of (b, S') \<Rightarrow> (Done b, D, S'))"
| "spec_step (FindSnapshot i) (D, S) = (FoundSnapshot (S i), D, S)"

fun run_steps :: "('o \<Rightarrow> 's \<Rightarrow> 'a \<times> 's) \<Rightarrow> 'o list \<Rightarrow> 's \<Rightarrow> 'a list \<times> 's" where
  "run_steps f [] s = ([], s)"
| "run_steps f (x # xs) s = (case f x s of (a, s') \<Rightarrow> case run_steps f xs s' of (as, t) \<Rightarrow> (a # as, t))"

definition catalog_ok :: "db_row list \<times> snap_row list \<Rightarrow> bool" where
  "catalog_ok c \<longleftrightarrow> table_ok d_id d_unique (fst c) \<and> table_ok s_id s_unique (snd c)"

definition catalog_map :: "db_row list \<times> snap_row list \<Rightarrow> (uuid \<rightharpoonup> db_row) \<times> (uuid \<rightharpoonup> snap_row)" where
  "catalog_map c = (table_map d_id (fst c), table_map s_id (snd c))"

text \<open>What the repositories' operations are in terms of the statements.\<close>

lemma db_find_by_id_run: "db_find_by_id i ds = (Inr (table_map d_id ds i), ds)"
  by (simp add: db_find_by_id_def sql_fetchone_def find_key)

lemma snapshot_find_by_id_run: "snapshot_find_by_id i ss = (Inr (table_map s_id ss i), ss)"
  by (simp add: snapshot_find_by_id_def sql_fetchone_def find_key)

lemma metadata_save_run:
  assumes "sql_insert d_id d_unique m ds = (r, ds')"
  shows "metadata_save m ds = (case r of Inl e \<Rightarrow> Inl e | Inr _ \<Rightarrow> Inr (d_id m), ds')"
  using assms by (cases r) (simp_all add: metadata_save_def exec_simps)

lemma snapshot_save_run:
  assumes "sql_insert s_id s_unique \<lparr>s_id = i, s_tenant = t, s_database = d, s_key = k,
      s_checksum = c, s_size = n, s_created = tm\<rparr> ss = (r, ss')"
  shows "snapshot_save i t d k c n (IsoAware tm) ss = (case r of Inl e \<Rightarrow> Inl e | Inr _ \<Rightarrow> Inr i, ss')"
  using assms by (cases r) (simp_all add: snapshot_save_def stored_time_def bind_def of_result_def exec_simps)

lemma catalog_step_refines:
  assumes "catalog_ok c" "catalog_step x c = (a, c')"
  shows "catalog_ok c' \<and> spec_step x (catalog_map c) = (a, catalog_map c')"
proof -
  have ok: "table_ok d_id d_unique (fst c)" "table_ok s_id s_unique (snd c)"
    using assms(1) by (simp_all add: catalog_ok_def)
  show ?thesis
proof (cases x)
  case (SaveDatabase m)
  obtain r ds' where i: "sql_insert d_id d_unique m (fst c) = (r, ds')" "table_ok d_id d_unique ds'"
    "(is_ok r, table_map d_id ds') = spec_insert d_id d_unique m (table_map d_id (fst c))"
    by (rule sql_insert_refines [OF ok(1), of m]) (rule that)
  have "is_ok (case r of Inl e \<Rightarrow> Inl e | Inr _ \<Rightarrow> Inr (d_id m)) = is_ok r" by (cases r) simp_all
  then have "a = Done (is_ok r)" "c' = (ds', snd c)"
    using assms(2) SaveDatabase metadata_save_run [OF i(1)] by (cases c, simp)+
  with i assms(1) SaveDatabase show ?thesis by (simp add: catalog_ok_def catalog_map_def i(3) [symmetric])
next
  case (SaveSnapshot s)
  have s: "\<lparr>s_id = s_id s, s_tenant = s_tenant s, s_database = s_database s, s_key = s_key s,
      s_checksum = s_checksum s, s_size = s_size s, s_created = s_created s\<rparr> = s" by simp
  obtain r ss' where i: "sql_insert s_id s_unique s (snd c) = (r, ss')" "table_ok s_id s_unique ss'"
    "(is_ok r, table_map s_id ss') = spec_insert s_id s_unique s (table_map s_id (snd c))"
    by (rule sql_insert_refines [OF ok(2), of s]) (rule that)
  have "is_ok (case r of Inl e \<Rightarrow> Inl e | Inr _ \<Rightarrow> Inr (s_id s)) = is_ok r" by (cases r) simp_all
  moreover have "snapshot_save (s_id s) (s_tenant s) (s_database s) (s_key s) (s_checksum s) (s_size s)
      (IsoAware (s_created s)) (snd c) = (case r of Inl e \<Rightarrow> Inl e | Inr _ \<Rightarrow> Inr (s_id s), ss')"
    using i(1) by (intro snapshot_save_run) (simp only: s)
  ultimately have "a = Done (is_ok r)" "c' = (fst c, ss')" using assms(2) SaveSnapshot by (cases c, simp)+
  with i assms(1) SaveSnapshot show ?thesis by (simp add: catalog_ok_def catalog_map_def i(3) [symmetric])
next
  case (DeleteDatabase i)
  note del = sql_delete_refines [OF ok(1), of i]
  from assms(2) DeleteDatabase del have "a = Done (fst (spec_delete i (table_map d_id (fst c))))"
    "c' = (snd (db_delete i (fst c)), snd c)"
    by (cases c; cases "db_delete i (fst c)"; auto simp: db_delete_def done_of_def)+
  with del assms(1) DeleteDatabase show ?thesis
    by (simp add: catalog_ok_def catalog_map_def db_delete_def split: prod.split)
next
  case (DeleteSnapshot i)
  note del = sql_delete_refines [OF ok(2), of i]
  from assms(2) DeleteSnapshot del have "a = Done (fst (spec_delete i (table_map s_id (snd c))))"
    "c' = (fst c, snd (snapshot_delete i (snd c)))"
    by (cases c; cases "snapshot_delete i (snd c)"; auto simp: snapshot_delete_def done_of_def)+
  with del assms(1) DeleteSnapshot show ?thesis
    by (simp add: catalog_ok_def catalog_map_def snapshot_delete_def split: prod.split)
qed (use assms in \<open>cases c; auto simp: db_find_by_id_run snapshot_find_by_id_run catalog_map_def\<close>)+
qed

lemma catalog_run_refines:
  "catalog_ok c \<Longrightarrow> run_steps catalog_step xs c = (as, c') \<Longrightarrow>
    catalog_ok c' \<and> run_steps spec_step xs (catalog_map c) = (as, catalog_map c')"
proof (induction xs arbitrary: c as c')
  case (Cons x xs)
  obtain a c1 where s: "catalog_step x c = (a, c1)" by (metis surj_pair)
  obtain bs c2 where r: "run_steps catalog_step xs c1 = (bs, c2)" by (metis surj_pair)
  from catalog_step_refines [OF Cons.prems(1) s] Cons.IH [OF _ r] Cons.prems(2) s r show ?case by auto
qed simp


end
