(* ===== verification/Site.thy ===== *)
theory Site
  imports Files Database_Tables Redis_Locks Minio_Storage
begin

text \<open>
  What the database use cases act on: the catalog tables, the local disk, and the world \<open>'x\<close> of the
  services behind ports (locks, object storage, cache, events), together with the operations lifted to
  it and what the use cases rely on in the services.
\<close>

section \<open>The site\<close>

record ('x, 'b) site =
  dbs_tab :: "db_row list"
  snaps_tab :: "snap_row list"
  disk :: "'b files"
  ext :: 'x

definition on_dbs :: "(db_row list, 'a) act \<Rightarrow> (('x, 'b) site, 'a) act" where
  "on_dbs m s = (case m (dbs_tab s) of (r, t) \<Rightarrow> (r, s\<lparr>dbs_tab := t\<rparr>))"

definition on_snaps :: "(snap_row list, 'a) act \<Rightarrow> (('x, 'b) site, 'a) act" where
  "on_snaps m s = (case m (snaps_tab s) of (r, t) \<Rightarrow> (r, s\<lparr>snaps_tab := t\<rparr>))"

definition on_disk :: "('b files, 'a) act \<Rightarrow> (('x, 'b) site, 'a) act" where
  "on_disk m s = (case m (disk s) of (r, t) \<Rightarrow> (r, s\<lparr>disk := t\<rparr>))"

definition on_ext :: "('x, 'a) act \<Rightarrow> (('x, 'b) site, 'a) act" where
  "on_ext m s = (case m (ext s) of (r, t) \<Rightarrow> (r, s\<lparr>ext := t\<rparr>))"

lemma on_run [exec_simps]:
  "m (dbs_tab s) = (r, t) \<Longrightarrow> on_dbs m s = (r, s\<lparr>dbs_tab := t\<rparr>)"
  "q (snaps_tab s) = (r', u) \<Longrightarrow> on_snaps q s = (r', s\<lparr>snaps_tab := u\<rparr>)"
  "f (disk s) = (r'', v) \<Longrightarrow> on_disk f s = (r'', s\<lparr>disk := v\<rparr>)"
  "g (ext s) = (r''', x) \<Longrightarrow> on_ext g s = (r''', s\<lparr>ext := x\<rparr>)"
  by (simp_all add: on_dbs_def on_snaps_def on_disk_def on_ext_def)

text \<open>The services, with the digest and the length of a stored content and the engine's constructor,
  which creates a database at a path.\<close>

record ('x, 'b, 'v) backend =
  bk_authz :: "'x authz_port"
  bk_locks :: "'x lock_port"
  bk_storage :: "('x, 'b blob) storage_port"
  bk_cache :: "('x, 'v) cache_port"
  bk_events :: "'x event_port option"
  bk_digest :: "'b blob \<Rightarrow> string"
  bk_size :: "'b blob \<Rightarrow> nat"
  bk_kuzu :: "path \<Rightarrow> ('b files, unit) act"

definition site_locks :: "('x, 'b, 'v) backend \<Rightarrow> ('x, 'b) site lock_port" where
  "site_locks V = \<lparr>acquire_lock = \<lambda>r n. on_ext (acquire_lock (bk_locks V) r n),
     release_lock = \<lambda>r t. on_ext (release_lock (bk_locks V) r t)\<rparr>"

definition authorize :: "('x, 'b, 'v) backend \<Rightarrow> uuid \<Rightarrow> string \<Rightarrow> string \<Rightarrow> (('x, 'b) site, unit) act" where
  "authorize V t action msg = on_ext (require (bk_authz V) t ''database'' action msg)"

definition drop_info :: "('x, 'b, 'v) backend \<Rightarrow> uuid \<Rightarrow> (('x, 'b) site, unit) act" where
  "drop_info V d = andthen (on_ext (cache_delete (bk_cache V) (''db_info:'' @ d))) (ret ())"

text \<open>An event of a use case that may have no event service; a failure is ignored.\<close>

definition best_effort_event ::
  "('x, 'b, 'v) backend \<Rightarrow> uuid \<Rightarrow> string \<Rightarrow> string \<Rightarrow> string \<Rightarrow> fields \<Rightarrow> (('x, 'b) site, unit) act" where
  "best_effort_event V t event title msg meta = (case bk_events V of None \<Rightarrow> ret ()
     | Some E \<Rightarrow> catch (on_ext (emit E t event title msg meta)) (\<lambda>_. ret ()))"

section \<open>What the use cases rely on\<close>

text \<open>\<open>objs x k\<close> is what downloading \<open>k\<close> gives, \<open>holder\<close> who holds a lock, \<open>quiet\<close> an operation that
  keeps both. Uploading returns a key that ends in the file name and gives the content, and
  changes no key that ends otherwise.\<close>

definition quiet :: "('x \<Rightarrow> bool) \<Rightarrow> ('x \<Rightarrow> 'h) \<Rightarrow> ('x \<Rightarrow> 'o) \<Rightarrow> ('x, 'a) act \<Rightarrow> bool" where
  "quiet ok holder objs m \<longleftrightarrow> (\<forall>x. ok x \<longrightarrow> ok (snd (m x)) \<and> holder (snd (m x)) = holder x \<and> objs (snd (m x)) = objs x)"

lemma quiet_run:
  assumes "quiet ok holder objs m" "ok x"
  obtains r x' where "m x = (r, x')" "ok x'" "holder x' = holder x" "objs x' = objs x"
  using assms that by (cases "m x") (force simp: quiet_def)

locale site_services = lock_service "bk_locks V" holder ok
  for V :: "('x, 'b, 'v) backend" and holder :: "'x \<Rightarrow> string \<Rightarrow> string option" and ok :: "'x \<Rightarrow> bool" +
  fixes objs :: "'x \<Rightarrow> string \<Rightarrow> 'b blob option"
  assumes allowed: "ok x \<Longrightarrow> \<exists>x'. check_permission (bk_authz V) t res a x = (Inr True, x') \<and> ok x' \<and>
      holder x' = holder x \<and> objs x' = objs x"
    and lock_objs: "ok x \<Longrightarrow> objs (snd (acquire_lock (bk_locks V) res n x)) = objs x"
      "ok x \<Longrightarrow> objs (snd (release_lock (bk_locks V) res tok x)) = objs x"
    and uploading: "ok x \<Longrightarrow> \<exists>pre x'. upload_database (bk_storage V) t d c f x = (Inr (pre @ f), x') \<and> ok x' \<and>
      holder x' = holder x \<and> objs x' (pre @ f) = Some c \<and> (\<forall>k. \<not> endswith k f \<longrightarrow> objs x' k = objs x k)"
    and downloading: "ok x \<Longrightarrow> objs x k = Some c \<Longrightarrow> download_database (bk_storage V) k x = (Inr c, x)"
    and reading: "quiet ok holder objs (download_database (bk_storage V) k)"
      "quiet ok holder objs (list_objects (bk_storage V) p)"
    and tagging: "quiet ok holder objs (set_object_tags (bk_storage V) k ts)"
    and caching: "ok x \<Longrightarrow> \<exists>x'. cache_delete (bk_cache V) k x = (Inr True, x') \<and> ok x' \<and>
      holder x' = holder x \<and> objs x' = objs x"
    and notifying: "bk_events V = Some E \<Longrightarrow> quiet ok holder objs (emit E t ev title msg fs)"
begin

lemma authorize_run:
  assumes "ok (ext s)"
  obtains x where "authorize V t a msg s = (Inr (), s\<lparr>ext := x\<rparr>)" "ok x" "holder x = holder (ext s)" "objs x = objs (ext s)"
proof -
  obtain x where "check_permission (bk_authz V) t ''database'' a (ext s) = (Inr True, x)" "ok x"
    "holder x = holder (ext s)" "objs x = objs (ext s)" using allowed [OF assms] by blast
  then show thesis using that by (simp add: authorize_def require_def exec_simps)
qed

lemma drop_info_run:
  assumes "ok (ext s)"
  obtains x where "drop_info V d s = (Inr (), s\<lparr>ext := x\<rparr>)" "ok x" "holder x = holder (ext s)" "objs x = objs (ext s)"
proof -
  obtain x where x: "cache_delete (bk_cache V) (''db_info:'' @ d) (ext s) = (Inr True, x)" "ok x"
    "holder x = holder (ext s)" "objs x = objs (ext s)" using caching [OF assms] by blast
  have "on_ext (cache_delete (bk_cache V) (''db_info:'' @ d)) s = (Inr True, s\<lparr>ext := x\<rparr>)" by (simp add: on_ext_def x(1) del: append.simps)
  then show thesis using that x(2-4) by (simp add: drop_info_def exec_simps del: append.simps)
qed

lemma best_effort_event_run:
  assumes "ok (ext s)"
  obtains x where "best_effort_event V t ev title msg fs s = (Inr (), s\<lparr>ext := x\<rparr>)" "ok x"
    "holder x = holder (ext s)" "objs x = objs (ext s)"
proof (cases "bk_events V")
  case None
  then show thesis using that [of "ext s"] assms by (simp add: best_effort_event_def exec_simps)
next
  case (Some E)
  obtain r x where x: "emit E t ev title msg fs (ext s) = (r, x)" "ok x" "holder x = holder (ext s)"
    "objs x = objs (ext s)"
    using quiet_run [OF notifying [OF Some] assms] by blast
  then show thesis using that [of x] Some by (cases r) (simp_all add: best_effort_event_def catch_def on_ext_def ret_def)
qed

text \<open>A section under a free lock: the body runs with the same objects and tables, and the lock is free
  again afterwards.\<close>

lemma with_site_lock:
  assumes "ok (ext s)" "holder (ext s) res = None"
    and "\<And>x. ok x \<Longrightarrow> objs x = objs (ext s) \<Longrightarrow> holder x res \<noteq> None \<Longrightarrow>
      (\<forall>k. k \<noteq> res \<longrightarrow> holder x k = holder (ext s) k) \<Longrightarrow>
      \<exists>r s'. body (s\<lparr>ext := x\<rparr>) = (r, s') \<and> ok (ext s') \<and> holder (ext s') = holder x \<and> P r (dbs_tab s') (snaps_tab s') (disk s') (objs (ext s'))"
  shows "\<exists>r s'. with_lock (site_locks V) res n refused body s = (r, s') \<and> ok (ext s') \<and>
    holder (ext s') = holder (ext s) \<and> P r (dbs_tab s') (snaps_tab s') (disk s') (objs (ext s'))"
proof -
  obtain tok x where a: "acquire_lock (bk_locks V) res n (ext s) = (Inr (Some tok), x)" "ok x"
    "holder x = (holder (ext s))(res \<mapsto> tok)"
    using acquire_free [OF assms(1,2)] by blast
  have ao: "objs x = objs (ext s)" using lock_objs(1) [OF assms(1), of res n] a(1) by simp
  obtain r s1 where b: "body (s\<lparr>ext := x\<rparr>) = (r, s1)" "ok (ext s1)" "holder (ext s1) = holder x"
    "P r (dbs_tab s1) (snaps_tab s1) (disk s1) (objs (ext s1))"
    using assms(3) [OF a(2) ao] a(3) by auto
  obtain y where c: "release_lock (bk_locks V) res tok (ext s1) = (Inr True, y)" "ok y"
    "holder y = (holder (ext s1))(res := None)"
    using release_law [OF b(2), of res tok] b(3) a(3) by auto
  have co: "objs y = objs (ext s1)" using lock_objs(2) [OF b(2), of res tok] c(1) by simp
  have "with_lock (site_locks V) res n refused body s = (r, s1\<lparr>ext := y\<rparr>)"
    by (simp add: with_lock_def site_locks_def bind_def on_ext_def a(1) finally_do_def b(1) c(1))
  moreover have "(holder (ext s))(res := None) = holder (ext s)" using assms(2) by (simp add: fun_upd_idem)
  ultimately show ?thesis using b(3,4) c(2,3) co a(3) by simp
qed

end

end
