(* ===== verification/Deployment.thy ===== *)
theory Deployment
  imports Site
begin

text \<open>
  The services as the routes wire them (\<open>get_create_snapshot_uc\<close> and its neighbours of
  \<open>presentation/api/databases/routes.py\<close>): authorization that allows everything, locks and cache in
  Redis, objects in MinIO, no event service. They meet what \<open>site_services\<close> asks for.
\<close>

section \<open>The wiring\<close>

definition redis_minio_backend :: "'r redis \<Rightarrow> ('v \<Rightarrow> string) \<Rightarrow> (string \<Rightarrow> 'v) \<Rightarrow> string \<Rightarrow> ('m, 'b blob) s3 \<Rightarrow> string \<Rightarrow>
    ('b blob \<Rightarrow> string) \<Rightarrow> ('b blob \<Rightarrow> nat) \<Rightarrow> (path \<Rightarrow> ('b files, unit) act) \<Rightarrow> ('r \<times> 'm, 'b, 'v) backend" where
  "redis_minio_backend R dumps loads tok C bucket digest nbytes kuzu = \<lparr>bk_authz = allow_all,
     bk_locks = locks_on_fst (redis_lock_service R tok), bk_storage = storage_on_snd (minio_service C bucket),
     bk_cache = cache_on_fst (redis_cache_service R dumps loads), bk_events = None,
     bk_digest = digest, bk_size = nbytes, bk_kuzu = kuzu\<rparr>"

text \<open>What a key downloads: a path of the service's bucket, or a URL with a bucket of its own.\<close>

definition stored_at :: "('m \<Rightarrow> string \<Rightarrow> string \<Rightarrow> 'b option) \<Rightarrow> string \<Rightarrow> 'm \<Rightarrow> string \<Rightarrow> 'b option" where
  "stored_at view bucket m k = (let (b, o1) = bucket_and_key bucket k in view m b o1)"

lemma stored_at_cong: "view m' = view m \<Longrightarrow> stored_at view bucket m' = stored_at view bucket m"
  by (simp add: stored_at_def [abs_def])

section \<open>The contract\<close>

lemma py_partition_suffix: "snd (py_partition sep k) \<noteq> [] \<Longrightarrow> endswith k (snd (py_partition sep k))"
  by (auto simp: py_partition_def endswith_iff split: option.splits dest!: split_first_SomeD) 

lemma bucket_and_key_suffix: "bucket_and_key bucket k = (b, o1) \<Longrightarrow> o1 \<noteq> [] \<Longrightarrow> endswith k o1"
  using py_partition_suffix [of "''/''" "snd (py_partition ''s3://'' k)"] py_partition_suffix [of "''s3://''" k]
  by (auto simp: bucket_and_key_def endswith_iff split: if_splits)

lemma lock_service_on_fst:
  assumes "lock_service L holder ok"
  shows "lock_service (locks_on_fst L) (\<lambda>x. holder (fst x)) (\<lambda>x. ok (fst x))"
proof
  note laws = lock_service.acquire_free [OF assms] lock_service.acquire_held [OF assms] lock_service.release_law [OF assms]
  fix x res tok n
  assume x: "ok (fst x)"
  show "holder (fst x) res = None \<Longrightarrow> \<exists>tok w'. acquire_lock (locks_on_fst L) res n x = (Inr (Some tok), w') \<and>
      ok (fst w') \<and> holder (fst w') = (holder (fst x))(res \<mapsto> tok)"
    using laws(1) [OF x, of res n] by (auto simp: locks_on_fst_def on_fst_def)
  show "holder (fst x) res \<noteq> None \<Longrightarrow> \<exists>w'. acquire_lock (locks_on_fst L) res n x = (Inr None, w') \<and>
      ok (fst w') \<and> holder (fst w') = holder (fst x)"
    using laws(2) [OF x, of res n] by (auto simp: locks_on_fst_def on_fst_def)
  show "\<exists>w'. release_lock (locks_on_fst L) res tok x = (Inr (holder (fst x) res = Some tok), w') \<and>
      ok (fst w') \<and> holder (fst w') = (if holder (fst x) res = Some tok then (holder (fst x))(res := None) else holder (fst x))"
    using laws(3) [OF x, of res tok] by (auto simp: locks_on_fst_def on_fst_def)
qed

lemma cache_key_not_lock [simp]: "lock_key a \<noteq> cache_key b"
  by (simp add: lock_key_def cache_key_def)

locale deployment = redis_client R rview + s3_client C view nbytes bucket
  for R :: "'r redis" and rview :: "'r \<Rightarrow> keyspace" and C :: "('m, 'b blob) s3" and view and nbytes and bucket +
  assumes bucket_name: "CHR ''/'' \<notin> set bucket"
begin

lemma cache_delete_run:
  assumes "locks_typed rview r"
  obtains r' where "redis_cache_delete R k r = (Inr True, r')" "locks_typed rview r'" "lock_holder rview r' = lock_holder rview r"
proof -
  obtain r' where "redis_del R (cache_key k) r = (Inr (if rview r (cache_key k) = None then 0 else 1), r')"
    "rview r' = (rview r)(cache_key k := None)"
    using del_law by blast
  then have "redis_cache_delete R k r = (Inr True, r')" "locks_typed rview r'" "lock_holder rview r' = lock_holder rview r"
    using assms by (simp_all add: redis_cache_delete_def bind_def ret_def locks_typed_def lock_holder_def fun_eq_iff)
  then show thesis by (rule that)
qed

lemma tagging_view: "view (snd (minio_set_object_tags C bucket k ts m)) = view m"
proof (cases "bucket_and_key bucket k")
  case (Pair b o1)
  then show ?thesis using tags [of b o1 ts m] by (auto simp: minio_set_object_tags_def split: prod.split s3_result.split)
qed

lemma tagging_stored: "stored_at view b (snd (minio_set_object_tags C bucket k ts m)) = stored_at view b m"
  by (rule stored_at_cong) (rule tagging_view)

lemma upload_stored:
  "\<exists>pre m'. minio_upload_database C bucket t d c f m = (Inr (pre @ f), m') \<and> stored_at view bucket m' (pre @ f) = Some c \<and>
     (\<forall>k. \<not> endswith k f \<longrightarrow> stored_at view bucket m' k = stored_at view bucket m k)"
proof -
  obtain m' where m: "minio_upload_database C bucket t d c f m = (Inr (''s3://'' @ bucket @ ''/'' @ object_key t d f), m')"
    "view m' = (view m)(bucket := (view m bucket)(object_key t d f \<mapsto> c))"
    using upload_result by blast
  define pre where "pre = ''s3://'' @ bucket @ ''/tenants/'' @ t @ ''/'' @ d @ ''/''"
  have k: "''s3://'' @ bucket @ ''/'' @ object_key t d f = pre @ f" by (simp add: pre_def object_key_def)
  have "stored_at view bucket m' (pre @ f) = Some c"
    unfolding stored_at_def k [symmetric] bucket_and_key_url [OF bucket_name] by (simp add: m(2))
  moreover have "stored_at view bucket m' k' = stored_at view bucket m k'" if "\<not> endswith k' f" for k'
  proof -
    obtain b o1 where bo: "bucket_and_key bucket k' = (b, o1)" by (metis surj_pair)
    have "o1 \<noteq> object_key t d f"
    proof
      assume "o1 = object_key t d f"
      then have "endswith o1 f" unfolding endswith_iff by (auto simp: object_key_def)
      moreover have "endswith k' o1" if "o1 \<noteq> []" using bucket_and_key_suffix [OF bo] that by blast
      ultimately have "endswith k' f" by (cases "o1 = []") (auto simp: endswith_iff)
      with that show False by simp
    qed
    with bo show ?thesis by (simp add: stored_at_def m(2))
  qed
  ultimately show ?thesis using m(1) k by auto
qed

end

sublocale deployment \<subseteq> site_services "redis_minio_backend R dumps loads tok C bucket digest sizes kuzu"
  "\<lambda>x. lock_holder rview (fst x)" "\<lambda>x. locks_typed rview (fst x)" "\<lambda>x. stored_at view bucket (snd x)"
  for dumps :: "'v \<Rightarrow> string" and loads tok digest sizes kuzu
proof -
  let ?V = "redis_minio_backend R dumps loads tok C bucket digest sizes kuzu"
  let ?holder = "\<lambda>x. lock_holder rview (fst x)" and ?ok = "\<lambda>x. locks_typed rview (fst x)"
    and ?objs = "\<lambda>x. stored_at view bucket (snd x)"
  have L: "bk_locks ?V = locks_on_fst (redis_lock_service R tok)" by (simp add: redis_minio_backend_def)
  have "lock_service (bk_locks ?V) ?holder ?ok"
    unfolding L by (rule lock_service_on_fst) (rule locks.lock_service_axioms)
  moreover have "site_services_axioms ?V ?holder ?ok ?objs"
  proof
    fix x :: "'r \<times> 'm" and t res a k f d n tk c ts
    assume x: "?ok x"
    show "\<exists>x'. check_permission (bk_authz ?V) t res a x = (Inr True, x') \<and> ?ok x' \<and> ?holder x' = ?holder x \<and> ?objs x' = ?objs x"
      using x by (simp add: redis_minio_backend_def allow_all_def ret_def)
    show "?objs (snd (acquire_lock (bk_locks ?V) res n x)) = ?objs x" "?objs (snd (release_lock (bk_locks ?V) res tk x)) = ?objs x"
      unfolding L by (simp_all add: locks_on_fst_def)
    show "\<exists>pre x'. upload_database (bk_storage ?V) t d c f x = (Inr (pre @ f), x') \<and> ?ok x' \<and> ?holder x' = ?holder x \<and> ?objs x' (pre @ f) = Some c \<and>
        (\<forall>k. \<not> endswith k f \<longrightarrow> ?objs x' k = ?objs x k)"
    proof -
      obtain pre m' where "minio_upload_database C bucket t d c f (snd x) = (Inr (pre @ f), m')" "stored_at view bucket m' (pre @ f) = Some c"
        "\<forall>k. \<not> endswith k f \<longrightarrow> stored_at view bucket m' k = stored_at view bucket (snd x) k"
        using upload_stored by blast
      then show ?thesis using x by (auto simp: redis_minio_backend_def storage_on_snd_def minio_service_def on_snd_def)
    qed
    show "?objs x k = Some c \<Longrightarrow> download_database (bk_storage ?V) k x = (Inr c, x)"
      by (auto simp: redis_minio_backend_def storage_on_snd_def minio_service_def on_snd_def minio_download_database_def
          stored_at_def get split: prod.splits)
    show "\<exists>x'. cache_delete (bk_cache ?V) k x = (Inr True, x') \<and> ?ok x' \<and> ?holder x' = ?holder x \<and> ?objs x' = ?objs x"
    proof -
      obtain r' where "redis_cache_delete R k (fst x) = (Inr True, r')" "locks_typed rview r'" "lock_holder rview r' = lock_holder rview (fst x)"
        using cache_delete_run [OF x] by blast
      then show ?thesis by (simp add: redis_minio_backend_def cache_on_fst_def redis_cache_service_def on_fst_def)
    qed
  next
    fix k ts p
    show "quiet ?ok ?holder ?objs (download_database (bk_storage ?V) k)"
      by (simp add: quiet_def redis_minio_backend_def storage_on_snd_def minio_service_def minio_download_database_def
          split: prod.split s3_result.split)
    show "quiet ?ok ?holder ?objs (list_objects (bk_storage ?V) p)"
      by (simp add: quiet_def redis_minio_backend_def storage_on_snd_def minio_service_def minio_list_objects_def
          split: s3_result.split)
    show "quiet ?ok ?holder ?objs (set_object_tags (bk_storage ?V) k ts)"
      by (simp add: tagging_stored quiet_def redis_minio_backend_def storage_on_snd_def minio_service_def)
  qed (simp add: redis_minio_backend_def)
  ultimately show "site_services ?V ?holder ?ok ?objs" by (rule site_services.intro)
qed

interpretation ref_deployment: deployment ref_redis "\<lambda>r. r" "ref_s3 nbytes" ref_view nbytes "''kuzu''" for nbytes :: "'b blob \<Rightarrow> nat"
  by (intro deployment.intro ref.redis_client_axioms ref_client.s3_client_axioms deployment_axioms.intro) simp

end
