(* ===== verification/Snapshots.thy ===== *)
theory Snapshots
  imports Deployment
begin

text \<open>
  Taking a snapshot of a database and restoring one: \<open>create_database_snapshot.py\<close>,
  \<open>restore_database_from_snapshot.py\<close> and \<open>list_database_snapshots.py\<close> of \<open>application/usecases\<close>.
  The values a call gets from clocks, \<open>uuid4\<close> and \<open>mkdtemp\<close> are arguments.
\<close>

section \<open>Creating a snapshot\<close>

record snapshot_response =
  sr_id :: uuid
  sr_key :: string
  sr_checksum :: string
  sr_size :: nat
  sr_created :: dt

record snapshot_call =
  sc_now :: dt
  sc_hex :: string
  sc_tmp :: path
  sc_created :: dt
  sc_id :: uuid
  sc_days :: "nat \<times> nat"

text \<open>The path to copy: a directory that holds \<open>data.kuzu\<close> stands for it; a missing database is created.\<close>

definition source_path :: "string \<Rightarrow> 'b files \<Rightarrow> path" where
  "source_path file_path v = (let p = path_of file_path in
     if is_dir v p \<and> fs_exists v (p @ [data_kuzu]) then p @ [data_kuzu] else p)"

definition locate_source :: "('x, 'b, 'v) backend \<Rightarrow> string \<Rightarrow> ('b files, path) act" where
  "locate_source V file_path v = (let p = source_path file_path v in
     if fs_exists v p then (Inr p, v)
     else andthen (catch (andthen (mkdirs (butlast p)) (bk_kuzu V p))
            (\<lambda>_. throw RuntimeError ''Failed to initialize Kuzu database for snapshot'')) (ret p) v)"

text \<open>The archive \<open><database_id>/data.kuzu\<close>. The clean-up calls \<open>shutil\<close>, which the module does not import;
  the \<open>NameError\<close> is swallowed.\<close>

definition cleanup_shutil :: "('b files, unit) act" where
  "cleanup_shutil = catch (throw NameError ''name shutil is not defined'') (\<lambda>_. ret ())"

definition archive_database :: "uuid \<Rightarrow> path \<Rightarrow> path \<Rightarrow> ('b files, 'b blob) act" where
  "archive_database d tmp p = finally_do
     (andthen (mkdtemp tmp) (andthen (copy_database_to_archive p (tmp @ [d]))
        (\<lambda>v. (Inr (tar_add (tmp @ [d]) d v), v))))
     cleanup_shutil"

definition snapshot_filename :: "bool \<Rightarrow> snapshot_call \<Rightarrow> string" where
  "snapshot_filename archive call = (if archive then ''snapshots/archive'' else ''snapshots'') @ ''/snapshot-'' @
     strftime_compact (sc_now call) @ ''-'' @ sc_hex call @ ''.tar.gz''"

definition tag_snapshot :: "('x, 'b, 'v) backend \<Rightarrow> bool \<Rightarrow> snapshot_call \<Rightarrow> string \<Rightarrow> (('x, 'b) site, unit) act" where
  "tag_snapshot V archive call k = catch (andthen (on_ext (set_object_tags (bk_storage V) k
       [(''retention_days'', py_str_nat (if archive then fst (sc_days call) else snd (sc_days call))),
        (''category'', if archive then ''snapshot-archive'' else ''snapshot'')])) (ret ())) (\<lambda>_. ret ())"

definition snapshot_event :: "('x, 'b, 'v) backend \<Rightarrow> uuid \<Rightarrow> uuid \<Rightarrow> snapshot_response \<Rightarrow> (('x, 'b) site, unit) act" where
  "snapshot_event V t d resp = (case bk_events V of None \<Rightarrow> ret ()
     | Some E \<Rightarrow> catch (bind (on_dbs (db_find_by_id d)) (\<lambda>info. case info of
           None \<Rightarrow> throw AttributeError ''NoneType object has no attribute get''
         | Some r \<Rightarrow> on_ext (emit E t ''snapshot_created'' ''Snapshot Created''
             (''Snapshot for database '' @ [CHR 39] @ d_name r @ [CHR 39] @ '' created successfully'')
             [(''snapshot_id'', sr_id resp), (''database_id'', d), (''object_key'', sr_key resp),
              (''size_bytes'', py_str_nat (sr_size resp))]))) (\<lambda>_. ret ()))"

definition snapshot_body :: "('x, 'b, 'v) backend \<Rightarrow> snapshot_call \<Rightarrow> bool \<Rightarrow> uuid \<Rightarrow> uuid \<Rightarrow> string \<Rightarrow>
    (('x, 'b) site, snapshot_response) act" where
  "snapshot_body V call archive t d file_path =
     bind (on_disk (locate_source V file_path)) (\<lambda>p.
     bind (on_disk (archive_database d (sc_tmp call) p)) (\<lambda>data.
     bind (on_ext (upload_database (bk_storage V) t d data (snapshot_filename archive call))) (\<lambda>k.
     andthen (tag_snapshot V archive call k)
     (bind (on_snaps (snapshot_save (sc_id call) t d k (bk_digest V data) (bk_size V data) (IsoAware (sc_created call)))) (\<lambda>i.
     andthen (drop_info V d)
     (let resp = \<lparr>sr_id = i, sr_key = k, sr_checksum = bk_digest V data, sr_size = bk_size V data,
        sr_created = sc_created call\<rparr>
      in andthen (snapshot_event V t d resp) (ret resp)))))))"

text \<open>Looking up a database for a tenant: the path, or the error the callers share.\<close>

definition database_path :: "uuid \<Rightarrow> uuid \<Rightarrow> (('x, 'b) site, string) act" where
  "database_path t d = bind (on_dbs (db_find_by_id d)) (\<lambda>info. case info of
       None \<Rightarrow> throw FileNotFoundError ''Database not found''
     | Some r \<Rightarrow> if d_tenant r \<noteq> t then throw FileNotFoundError ''Database not found''
         else if d_path r = [] then throw RuntimeError ''Database file path unknown'' else ret (d_path r))"

definition snapshot_lock :: "uuid \<Rightarrow> string" where
  "snapshot_lock d = ''db:'' @ d @ '':snapshot''"

definition create_database_snapshot :: "('x, 'b, 'v) backend \<Rightarrow> snapshot_call \<Rightarrow> bool \<Rightarrow> uuid \<Rightarrow> uuid \<Rightarrow>
    (('x, 'b) site, snapshot_response) act" where
  "create_database_snapshot V call archive t d =
     andthen (authorize V t ''backup'' ''Not authorized to snapshot database'')
     (bind (database_path t d) (\<lambda>file_path.
        with_lock (site_locks V) (snapshot_lock d) 10
          (throw TimeoutError ''Could not acquire snapshot lock'')
          (snapshot_body V call archive t d file_path)))"

section \<open>Restoring a snapshot\<close>

definition find_snapshot_of :: "uuid \<Rightarrow> uuid \<Rightarrow> (('x, 'b) site, snap_row) act" where
  "find_snapshot_of d snapshot_id = bind (on_snaps (snapshot_find_by_id snapshot_id)) (\<lambda>snap. case snap of
       None \<Rightarrow> throw FileNotFoundError ''Snapshot not found''
     | Some r \<Rightarrow> if s_database r \<noteq> d then throw FileNotFoundError ''Snapshot not found'' else ret r)"

text \<open>Unpacking beside the target and copying over it. A snapshot that is no archive replaces the file.\<close>

definition content_root :: "path \<Rightarrow> 'b files \<Rightarrow> path" where
  "content_root tmp v = (case iterdir v tmp of [e] \<Rightarrow> e | _ \<Rightarrow> tmp)"

definition unpack_over :: "'b blob \<Rightarrow> path \<Rightarrow> path \<Rightarrow> ('b files, unit) act" where
  "unpack_over data tmp target = andthen (tar_extract data tmp) (\<lambda>v.
     andthen (extract_database_from_archive (content_root tmp v) target) (ret ()) v)"

definition write_over :: "'b blob \<Rightarrow> path \<Rightarrow> ('b blob \<Rightarrow> 'b) \<Rightarrow> ('b files, unit) act" where
  "write_over data target raw = (let f = butlast target @ [last target @ ''.tmp''] in
     andthen (mkdirs (butlast f)) (andthen (write_bytes f (raw data)) (os_replace f target)))"

definition remove_temp :: "path \<Rightarrow> ('b files, unit) act" where
  "remove_temp tmp v = (Inr (), if is_dir v tmp then cut tmp v else v)"

text \<open>\<open>raw\<close> is the bytes of a stored content.\<close>

definition restore_files :: "('b blob \<Rightarrow> 'b) \<Rightarrow> string \<Rightarrow> 'b blob \<Rightarrow> string \<Rightarrow> path \<Rightarrow> ('b files, unit) act" where
  "restore_files raw k data tmp_name target = (let tmp = butlast target @ [tmp_name] in
     andthen (mkdirs (butlast target)) (andthen (mkdtemp tmp)
       (finally_do (if endswith k ''.tar.gz'' then unpack_over data tmp target else write_over data target raw)
          (remove_temp tmp))))"

definition restore_lock :: "uuid \<Rightarrow> string" where
  "restore_lock d = ''db:'' @ d @ '':restore''"

definition restore_body :: "('x, 'b, 'v) backend \<Rightarrow> ('b blob \<Rightarrow> 'b) \<Rightarrow> string \<Rightarrow> uuid \<Rightarrow> string \<Rightarrow> snap_row \<Rightarrow>
    (('x, 'b) site, bool) act" where
  "restore_body V raw tmp_name d file_path snap =
     bind (on_ext (download_database (bk_storage V) (s_key snap))) (\<lambda>data.
     andthen (on_disk (restore_files raw (s_key snap) data (''restore_'' @ tmp_name) (path_of file_path)))
     (andthen (drop_info V d) (ret True)))"

definition restore_database_from_snapshot :: "('x, 'b, 'v) backend \<Rightarrow> ('b blob \<Rightarrow> 'b) \<Rightarrow> string \<Rightarrow> uuid \<Rightarrow> uuid \<Rightarrow> uuid \<Rightarrow>
    (('x, 'b) site, bool) act" where
  "restore_database_from_snapshot V raw tmp_name t d snapshot_id =
     andthen (authorize V t ''restore'' ''Not authorized to restore database'')
     (bind (database_path t d) (\<lambda>file_path.
      bind (find_snapshot_of d snapshot_id) (\<lambda>snap.
        with_lock (site_locks V) (restore_lock d) 30
          (throw TimeoutError ''Could not acquire restore lock'')
          (restore_body V raw tmp_name d file_path snap))))"

section \<open>Listing snapshots\<close>

text \<open>The repository takes the database first; the use case passes the tenant first.\<close>

definition list_database_snapshots :: "('x, 'b, 'v) backend \<Rightarrow> uuid \<Rightarrow> uuid \<Rightarrow> (('x, 'b) site, snap_row list) act" where
  "list_database_snapshots V t d =
     andthen (authorize V t ''backup'' ''Not authorized to list snapshots'')
       (on_snaps (snapshot_list t (Some d)))"

section \<open>What happens on the disk\<close>

definition dirs_to :: "'b files \<Rightarrow> path \<Rightarrow> bool" where
  "dirs_to v p \<longleftrightarrow> (\<forall>q. prefix q p \<longrightarrow> map_of v q = Some Dir)"

lemma dirs_to_mkdirs: "dirs_to v p \<Longrightarrow> mkdirs p v = (Inr (), v)"
  by (rule mkdirs_there) (simp add: dirs_to_def fs_simps)

lemma dirs_to_no_file: "dirs_to v p \<Longrightarrow> no_file_above v p"
  by (auto simp: dirs_to_def no_file_above_def fs_simps)

lemma prefix_or_butlast: "prefix q p \<Longrightarrow> q = p \<or> prefix q (butlast p)"
  by (auto simp: prefix_def butlast_append)

lemma dirs_to_mono: "dirs_to v p \<Longrightarrow> (\<And>q. prefix q p \<Longrightarrow> map_of v' q = map_of v q) \<Longrightarrow> dirs_to v' p"
  by (simp add: dirs_to_def)

text \<open>A tree under one root directory of a given name that holds \<open>data.kuzu\<close> with the contents \<open>T\<close>.\<close>

definition archive_of :: "uuid \<Rightarrow> (path \<Rightarrow> 'b node option) \<Rightarrow> 'b files \<Rightarrow> bool" where
  "archive_of d T t \<longleftrightarrow> (\<forall>q. map_of t q = (case q of [] \<Rightarrow> None | [x] \<Rightarrow> if x = d then Some Dir else None
     | x # y # r \<Rightarrow> if x = d \<and> y = data_kuzu then T r else None))"

lemma archive_ofD:
  assumes "archive_of d T t"
  shows "map_of t [] = None" "map_of t [x] = (if x = d then Some Dir else None)"
    "map_of t (d # data_kuzu # r) = T r"
  using assms by (simp_all add: archive_of_def)

lemma cleanup_shutil_run [simp]: "cleanup_shutil v = (Inr (), v)"
  by (simp add: cleanup_shutil_def catch_def throw_def ret_def)

lemma mkdtemp_run: "map_of v (butlast p) = Some Dir \<Longrightarrow> map_of v p = None \<Longrightarrow> mkdtemp p v = (Inr (), (p, Dir) # v)"
  by (simp add: mkdtemp_def fs_simps)

lemma copy_to_archive_run:
  assumes "dirs_to v dir" "map_of v (dir @ [d]) = None" "\<And>r. map_of v (dir @ d # r) = None"
    and "map_of v p = Some Dir" "\<not> prefix p dir"
  obtains v' where "copy_database_to_archive p (dir @ [d]) v = (Inr (dir @ [d, data_kuzu]), v')"
    "\<And>r. map_of v' (dir @ d # data_kuzu # r) = map_of v (p @ r)"
    "map_of v' (dir @ [d]) = Some Dir" "\<And>x r. x \<noteq> data_kuzu \<Longrightarrow> map_of v' (dir @ d # x # r) = None"
    "\<And>q. \<not> prefix (dir @ [d]) q \<Longrightarrow> map_of v' q = map_of v q"
proof -
  let ?root = "dir @ [d]" and ?b = "dir @ [d, data_kuzu]"
  have nf: "no_file_above v ?root"
    using assms(1,2) unfolding no_file_above_def dirs_to_def fs_simps by (auto simp: prefix_append prefix_Cons)
  obtain v1 where v1: "mkdirs ?root v = (Inr (), v1)"
    "\<And>q. map_of v1 q = (if prefix q ?root \<and> map_of v q = None then Some Dir else map_of v q)"
    using mkdirs_run [OF nf] by blast
  have v1q: "map_of v1 q = (if q = ?root then Some Dir else map_of v q)" for q
    using v1(2) [of q] assms(1,2) by (auto simp: dirs_to_def prefix_append prefix_Cons)
  have pr: "p @ r \<noteq> ?root" for r
  proof
    assume "p @ r = ?root"
    with assms(5) have "p = ?root" by (metis append.right_neutral append_butlast_last_id butlast_append butlast_snoc prefixI)
    with assms(2,4) show False by simp
  qed
  have b: "is_dir v1 p" "\<not> fs_exists v1 ?b" "no_file_above v1 (butlast ?b)"
    using assms(1,3,4) pr [of "[]"] unfolding fs_simps no_file_above_def dirs_to_def v1q
    by (auto simp: butlast_append prefix_append prefix_Cons)
  obtain v2 where v2: "copytree p ?b v1 = (Inr (), v2)"
    "\<And>q. map_of v2 q = (if prefix ?b q then map_of v1 (p @ drop (length ?b) q)
       else if prefix q (butlast ?b) \<and> map_of v1 q = None then Some Dir else map_of v1 q)"
    using copytree_run [OF b] by blast
  have "copy_database_to_archive p ?root v = (Inr ?b, v2)"
    using b(1) by (simp add: copy_database_to_archive_def andthen_def bind_def v1(1) v2(1) ret_def)
  moreover have "map_of v2 (dir @ d # data_kuzu # r) = map_of v (p @ r)" for r
    using pr [of r] by (simp add: v2(2) v1q)
  moreover have "map_of v2 ?root = Some Dir" by (simp add: v2(2) v1q)
  moreover have "x \<noteq> data_kuzu \<Longrightarrow> map_of v2 (dir @ d # x # r) = None" for x r
    using assms(3) by (simp add: v2(2) v1q butlast_append)
  moreover have "map_of v2 q = map_of v q" if "\<not> prefix ?root q" for q
  proof -
    have "\<not> prefix ?b q" "q \<noteq> ?root" using that by (auto simp: prefix_def)
    then show ?thesis using assms(1) that by (auto simp: v2(2) v1q butlast_append dirs_to_def prefix_append prefix_Cons)
  qed
  ultimately show thesis using that by blast
qed

lemma map_of_Cons_root: "map_of (map (\<lambda>(r, n). (x # r, n)) t) q = (case q of [] \<Rightarrow> None | y # r \<Rightarrow> if y = x then map_of t r else None)"
  by (induction t) (auto split: list.splits)

lemma archive_run:
  assumes "tmp \<noteq> []" "dirs_to v (butlast tmp)" "fresh_path v tmp" "map_of v p = Some Dir" "\<not> prefix p tmp"
  obtains t v' where "archive_database d tmp p v = (Inr (TarGz t), v')" "archive_of d (\<lambda>r. map_of v (p @ r)) t"
    "\<And>q. \<not> prefix tmp q \<Longrightarrow> map_of v' q = map_of v q"
proof -
  let ?v = "(tmp, Dir) # v"
  have f: "map_of v (tmp @ r) = None" for r using assms(3) by (simp add: fresh_path_def)
  have td: "dirs_to ?v tmp"
    using assms(2) unfolding dirs_to_def by (auto dest: prefix_or_butlast)
  have "mkdtemp tmp v = (Inr (), ?v)" using assms(2) f [of "[]"] by (intro mkdtemp_run) (simp_all add: dirs_to_def)
  moreover have fresh: "map_of ?v (tmp @ [d]) = None" "\<And>r. map_of ?v (tmp @ d # r) = None" using f by auto
  moreover have pv: "map_of ?v p = Some Dir" using assms(4,5) by auto
  moreover obtain v' where c: "copy_database_to_archive p (tmp @ [d]) ?v = (Inr (tmp @ [d, data_kuzu]), v')"
    "\<And>r. map_of v' (tmp @ d # data_kuzu # r) = map_of ?v (p @ r)"
    "map_of v' (tmp @ [d]) = Some Dir" "\<And>x r. x \<noteq> data_kuzu \<Longrightarrow> map_of v' (tmp @ d # x # r) = None"
    "\<And>q. \<not> prefix (tmp @ [d]) q \<Longrightarrow> map_of v' q = map_of ?v q"
    using copy_to_archive_run [OF td fresh pv assms(5)] by blast
  ultimately have "archive_database d tmp p v = (Inr (TarGz (map (\<lambda>(r, n). (d # r, n)) (subtree (tmp @ [d]) v'))), v')"
    by (simp add: archive_database_def finally_do_def andthen_def bind_def tar_add_def)
  moreover let ?t = "map (\<lambda>(r, n). (d # r, n)) (subtree (tmp @ [d]) v')"
  have "archive_of d (\<lambda>r. map_of v (p @ r)) ?t"
    unfolding archive_of_def
  proof
    fix q
    have "p @ r \<noteq> tmp" for r using assms(5) by (auto simp: prefix_def)
    then show "map_of ?t q = (case q of [] \<Rightarrow> None | [x] \<Rightarrow> if x = d then Some Dir else None
        | x # y # r \<Rightarrow> if x = d \<and> y = data_kuzu then map_of v (p @ r) else None)"
      using c(2-4) by (auto simp: map_of_Cons_root split: list.split)
  qed
  moreover have "map_of v' q = map_of v q" if "\<not> prefix tmp q" for q
  proof -
    have "\<not> prefix (tmp @ [d]) q" "q \<noteq> tmp" using that by (auto simp: prefix_def)
    then show ?thesis using c(5) by simp
  qed
  ultimately show thesis using that by blast
qed

text \<open>Unpacking an archive of a directory over a target.\<close>

lemma extract_run:
  assumes "dirs_to v (butlast target)" "map_of v (c @ [data_kuzu]) = Some Dir"
    and "map_of v target = None \<or> map_of v target = Some Dir" "target \<noteq> []"
    and "\<And>r. \<not> prefix target (c @ data_kuzu # r)"
  obtains v' where "extract_database_from_archive c target v = (Inr target, v')"
    "\<And>q. map_of v' q = (if prefix target q then map_of v (c @ data_kuzu # drop (length target) q) else map_of v q)"
proof -
  let ?src = "c @ [data_kuzu]"
  obtain w where w: "guard_do (fs_exists v target) (rmtree target) v = (Inr (), w)"
    "\<And>q. map_of w q = (if prefix target q \<and> fs_exists v target then None else map_of v q)"
  proof (cases "fs_exists v target")
    case True
    then have "\<not> is_file v target" using assms(3) by (auto simp: fs_simps)
    with True that [of "cut target v"] show thesis by (simp add: rmtree_def guard_do_def)
  next
    case False
    with that [of v] show thesis by (simp add: guard_do_def ret_def)
  qed
  have nt: "\<not> prefix target q" if "prefix q (butlast target)" for q
    using that assms(4) by (auto simp: prefix_def) (metis append_butlast_last_id append_self_conv length_append length_butlast
        le_add1 diff_less length_greater_0_conv less_numeral_extra(1) leD)
  have g: "is_dir w ?src" "\<not> fs_exists w target" "no_file_above w (butlast target)"
    using assms(1,2) assms(5) [of "[]"] nt by (auto simp: fs_simps w(2) no_file_above_def dirs_to_def)
  obtain v' where v': "copytree ?src target w = (Inr (), v')"
    "\<And>q. map_of v' q = (if prefix target q then map_of w (?src @ drop (length target) q)
       else if prefix q (butlast target) \<and> map_of w q = None then Some Dir else map_of w q)"
    using copytree_run [OF g] by blast
  have "fs_exists v ?src" "is_dir v ?src" using assms(2) by (simp_all add: fs_simps)
  then have "extract_database_from_archive c target v = (Inr target, v')"
    by (simp add: extract_database_from_archive_def andthen_def bind_def
        dirs_to_mkdirs [OF assms(1)] w(1) v'(1) ret_def)
  moreover have "map_of v' q = (if prefix target q then map_of v (c @ data_kuzu # drop (length target) q) else map_of v q)" for q
    using assms(1) nt by (auto simp: v'(2) w(2) dirs_to_def assms(5))
  ultimately show thesis using that by blast
qed

lemma tar_extract_run:
  assumes "archive_of d T t" "fresh_path v tmp"
  obtains w where "tar_extract (TarGz t) tmp ((tmp, Dir) # v) = (Inr (), w)"
    "\<And>q. map_of w q = (if prefix tmp q then (if q = tmp then Some Dir else map_of t (drop (length tmp) q)) else map_of v q)"
proof -
  let ?w = "map (\<lambda>(r, n). (tmp @ r, n)) t @ (tmp, Dir) # v"
  have "map_of ?w q = (if prefix tmp q then (if q = tmp then Some Dir else map_of t (drop (length tmp) q)) else map_of v q)" for q
  proof (cases "prefix tmp q")
    case True
    then obtain r where q: "q = tmp @ r" by (auto elim: prefixE)
    have "map_of v (tmp @ r) = None" using assms(2) by (simp add: fresh_path_def)
    with archive_ofD(1) [OF assms(1)] show ?thesis
      unfolding q map_of_append map_add_def map_of_reroot by (cases r) (simp_all split: option.split)
  next
    case False
    then show ?thesis unfolding map_of_append map_add_def map_of_reroot by auto
  qed
  moreover have "filter (\<lambda>(r, n). r \<noteq> []) t = t"
    using archive_ofD(1) [OF assms(1)] by (intro filter_True) (auto simp: map_of_eq_None_iff rev_image_eqI)
  then have "tar_extract (TarGz t) tmp ((tmp, Dir) # v) = (Inr (), ?w)" by (simp add: tar_extract_def)
  ultimately show thesis using that by blast
qed

lemma restore_files_run:
  assumes "archive_of d T t" "T [] = Some Dir" "endswith k ''.tar.gz''"
    and "dirs_to v (butlast target)" "target \<noteq> []" "fresh_path v (butlast target @ [n])" "n \<noteq> last target"
    and "map_of v target = None \<or> map_of v target = Some Dir"
  obtains v' where "restore_files raw k (TarGz t) n target v = (Inr (), v')"
    "\<And>q. map_of v' q = (if prefix target q then T (drop (length target) q)
       else if prefix (butlast target @ [n]) q then None else map_of v q)"
proof -
  define dir where "dir = butlast target"
  define tmp where "tmp = dir @ [n]"
  have target: "target = dir @ [last target]" using assms(5) by (simp add: dir_def)
  have f: "fresh_path v tmp" using assms(6) by (simp add: tmp_def dir_def)
  have dirs: "dirs_to v dir" using assms(4) by (simp add: dir_def)
  have sib: "\<not> prefix target (tmp @ r)" "\<not> prefix tmp (target @ r)" for r
  proof -
    have "\<not> prefix (dir @ [last target]) (tmp @ r)" "\<not> prefix tmp ((dir @ [last target]) @ r)"
      using assms(7) by (simp_all add: tmp_def)
    then show "\<not> prefix target (tmp @ r)" "\<not> prefix tmp (target @ r)" using target by simp_all
  qed
  have mt: "mkdtemp tmp v = (Inr (), (tmp, Dir) # v)"
  proof (rule mkdtemp_run)
    show "map_of v (butlast tmp) = Some Dir" using dirs by (simp add: tmp_def dirs_to_def)
    show "map_of v tmp = None" using f by (simp add: fresh_path_def)
  qed
  obtain w where tx: "tar_extract (TarGz t) tmp ((tmp, Dir) # v) = (Inr (), w)"
    and wq: "\<And>q. map_of w q = (if prefix tmp q then (if q = tmp then Some Dir else map_of t (drop (length tmp) q)) else map_of v q)"
    using tar_extract_run [OF assms(1) f] by blast
  have "iterdir w tmp = [tmp @ [d]]"
  proof (rule iterdir_single)
    fix q
    have "map_of w (tmp @ [x]) = (if x = d then Some Dir else None)" for x
      using archive_ofD(2) [OF assms(1), of x] by (simp add: wq)
    moreover have "prefix tmp q \<and> length q = Suc (length tmp) \<longleftrightarrow> (\<exists>x. q = tmp @ [x])"
      by (auto simp: prefix_def length_Suc_conv [of _ 0])
    ultimately show "map_of w q \<noteq> None \<and> prefix tmp q \<and> length q = Suc (length tmp) \<longleftrightarrow> q = tmp @ [d]"
      by (auto split: if_splits)
  qed
  then have root: "content_root tmp w = tmp @ [d]" by (simp add: content_root_def)
  have src: "map_of w ((tmp @ [d]) @ data_kuzu # r) = T r" for r
    using archive_ofD(3) [OF assms(1), of r] by (simp add: wq)
  have nt: "\<not> prefix tmp q" if "prefix q dir" for q
    using that prefix_length_le [of q dir] prefix_length_le [of tmp q] by (auto simp: tmp_def)
  have e: "dirs_to w (butlast target)" "map_of w ((tmp @ [d]) @ [data_kuzu]) = Some Dir"
    "map_of w target = None \<or> map_of w target = Some Dir"
    using assms(2,8) dirs nt src [of "[]"] sib(2) [of "[]"] by (auto simp: dirs_to_def wq dir_def [symmetric])
  have ns: "\<not> prefix target ((tmp @ [d]) @ data_kuzu # r)" for r using sib(1) [of "d # data_kuzu # r"] by simp
  obtain v3 where v3: "extract_database_from_archive (tmp @ [d]) target w = (Inr target, v3)"
    "\<And>q. map_of v3 q = (if prefix target q then map_of w ((tmp @ [d]) @ data_kuzu # drop (length target) q)
       else map_of w q)"
    using extract_run [OF e assms(5) ns] by blast
  have v3q: "map_of v3 q = (if prefix target q then T (drop (length target) q) else map_of w q)" for q
    unfolding v3(2) src ..
  have up: "unpack_over (TarGz t) tmp target ((tmp, Dir) # v) = (Inr (), v3)"
    by (simp add: unpack_over_def andthen_def bind_def tx root v3(1) ret_def)
  have "is_dir v3 tmp" using sib(1) [of "[]"] by (simp add: fs_simps v3q wq)
  then have rm: "remove_temp tmp v3 = (Inr (), cut tmp v3)" by (simp add: remove_temp_def)
  have "restore_files raw k (TarGz t) n target v = (Inr (), cut tmp v3)"
    using assms(3) by (simp add: restore_files_def Let_def andthen_def bind_def dir_def [symmetric] tmp_def [symmetric]
        dirs_to_mkdirs [OF dirs] mt finally_do_def up rm)
  moreover have "map_of (cut tmp v3) q = (if prefix target q then T (drop (length target) q)
       else if prefix (butlast target @ [n]) q then None else map_of v q)" for q
  proof (cases "prefix target q")
    case True
    then obtain r where "q = target @ r" by (auto elim: prefixE)
    with sib(2) [of r] show ?thesis by (simp add: v3q)
  next
    case False
    then show ?thesis by (simp add: v3q wq dir_def [symmetric] tmp_def [symmetric])
  qed
  ultimately show thesis using that by blast
qed

section \<open>Running the use cases\<close>

lemma database_path_run:
  assumes "table_map d_id (dbs_tab s) d = Some r" "d_tenant r = t" "d_path r \<noteq> []"
  shows "database_path t d s = (Inr (d_path r), s)"
  using assms by (simp add: database_path_def bind_def on_dbs_def db_find_by_id_run ret_def)

lemma database_path_missing:
  assumes "\<And>r. table_map d_id (dbs_tab s) d = Some r \<Longrightarrow> d_tenant r \<noteq> t"
  shows "database_path t d s = (raise FileNotFoundError ''Database not found'', s)"
  using assms by (simp add: database_path_def bind_def on_dbs_def db_find_by_id_run throw_def split: option.split)

lemma find_snapshot_run:
  "find_snapshot_of d i s = (case table_map s_id (snaps_tab s) i of
     Some r \<Rightarrow> if s_database r = d then Inr r else raise FileNotFoundError ''Snapshot not found''
   | None \<Rightarrow> raise FileNotFoundError ''Snapshot not found'', s)"
  by (simp add: find_snapshot_of_def bind_def on_snaps_def snapshot_find_by_id_run ret_def throw_def split: option.split)

lemma snapshot_filename_targz: "endswith (pre @ snapshot_filename archive call) ''.tar.gz''"
  unfolding snapshot_filename_def by (intro endswith_suffix) (simp add: endswith_def)

definition fresh_snapshot :: "snapshot_call \<Rightarrow> bool \<Rightarrow> uuid \<Rightarrow> snap_row list \<Rightarrow> bool" where
  "fresh_snapshot call archive d rows \<longleftrightarrow> (\<forall>x \<in> set rows. s_id x \<noteq> sc_id call \<and>
     (s_database x = d \<longrightarrow> \<not> endswith (s_key x) (snapshot_filename archive call)))"

definition snapshot_row :: "uuid \<Rightarrow> uuid \<Rightarrow> snapshot_response \<Rightarrow> snap_row" where
  "snapshot_row t d resp = \<lparr>s_id = sr_id resp, s_tenant = t, s_database = d, s_key = sr_key resp,
     s_checksum = sr_checksum resp, s_size = sr_size resp, s_created = sr_created resp\<rparr>"

lemma snapshot_insert_fresh:
  assumes "fresh_snapshot call archive d rows" "endswith k (snapshot_filename archive call)"
  shows "snapshot_save (sc_id call) t d k c n (IsoAware tm) rows = (Inr (sc_id call), rows @
    [\<lparr>s_id = sc_id call, s_tenant = t, s_database = d, s_key = k, s_checksum = c, s_size = n, s_created = tm\<rparr>])"
proof -
  let ?r = "\<lparr>s_id = sc_id call, s_tenant = t, s_database = d, s_key = k, s_checksum = c, s_size = n, s_created = tm\<rparr>"
  have "\<not> list_ex (\<lambda>x. s_id x = s_id ?r \<or> s_unique x = s_unique ?r) rows"
    using assms by (auto simp: list_ex_iff fresh_snapshot_def)
  then have "sql_insert s_id s_unique ?r rows = (Inr (), rows @ [?r])" unfolding sql_insert_def by simp
  from snapshot_save_run [OF this] show ?thesis by simp
qed

text \<open>What a snapshot can be taken of, and what it leaves.\<close>

definition can_snapshot :: "('x \<Rightarrow> string \<Rightarrow> string option) \<Rightarrow> ('x \<Rightarrow> bool) \<Rightarrow> snapshot_call \<Rightarrow> bool \<Rightarrow> uuid \<Rightarrow> uuid \<Rightarrow> ('x, 'b) site \<Rightarrow> path \<Rightarrow> bool" where
  "can_snapshot holder ok call archive t d s p \<longleftrightarrow> (\<exists>r. table_map d_id (dbs_tab s) d = Some r \<and> d_tenant r = t \<and> d_path r \<noteq> [] \<and>
      p = source_path (d_path r) (disk s)) \<and> map_of (disk s) p = Some Dir \<and>
     sc_tmp call \<noteq> [] \<and> dirs_to (disk s) (butlast (sc_tmp call)) \<and> fresh_path (disk s) (sc_tmp call) \<and>
     \<not> prefix p (sc_tmp call) \<and> fresh_snapshot call archive d (snaps_tab s) \<and>
     ok (ext s) \<and> holder (ext s) (snapshot_lock d) = None"

text \<open>Restoring a snapshot that is there.\<close>

definition can_restore :: "('x \<Rightarrow> string \<Rightarrow> string option) \<Rightarrow> ('x \<Rightarrow> bool) \<Rightarrow> string \<Rightarrow> uuid \<Rightarrow> uuid \<Rightarrow> uuid \<Rightarrow> ('x, 'b) site \<Rightarrow> path \<Rightarrow> snap_row \<Rightarrow> bool" where
  "can_restore holder ok tmp_name t d i s target row \<longleftrightarrow> (\<exists>r. table_map d_id (dbs_tab s) d = Some r \<and> d_tenant r = t \<and> d_path r \<noteq> [] \<and>
      target = path_of (d_path r)) \<and> table_map s_id (snaps_tab s) i = Some row \<and> s_database row = d \<and>
     target \<noteq> [] \<and> dirs_to (disk s) (butlast target) \<and> fresh_path (disk s) (butlast target @ [''restore_'' @ tmp_name]) \<and>
     ''restore_'' @ tmp_name \<noteq> last target \<and> (map_of (disk s) target = None \<or> map_of (disk s) target = Some Dir) \<and>
     ok (ext s) \<and> holder (ext s) (restore_lock d) = None"

context site_services
begin

lemma tag_snapshot_run:
  assumes "ok (ext s)"
  obtains x where "tag_snapshot V archive call k s = (Inr (), s\<lparr>ext := x\<rparr>)" "ok x"
    "holder x = holder (ext s)" "objs x = objs (ext s)"
proof -
  let ?ts = "[(''retention_days'', py_str_nat (if archive then fst (sc_days call) else snd (sc_days call))),
        (''category'', if archive then ''snapshot-archive'' else ''snapshot'')]"
  obtain r x where x: "set_object_tags (bk_storage V) k ?ts (ext s) = (r, x)" "ok x" "holder x = holder (ext s)"
    "objs x = objs (ext s)"
    using quiet_run [OF tagging assms] by blast
  have "on_ext (set_object_tags (bk_storage V) k ?ts) s = (r, s\<lparr>ext := x\<rparr>)" unfolding on_ext_def x(1) by simp
  then have "tag_snapshot V archive call k s = (Inr (), s\<lparr>ext := x\<rparr>)"
    unfolding tag_snapshot_def by (cases r) (simp_all only: catch_def andthen_def bind_def prod.case sum.case ret_def)
  with that x(2-4) show thesis by blast
qed

lemma snapshot_event_run:
  assumes "ok (ext s)"
  obtains x where "snapshot_event V t d resp s = (Inr (), s\<lparr>ext := x\<rparr>)" "ok x"
    "holder x = holder (ext s)" "objs x = objs (ext s)"
proof (cases "bk_events V")
  case None
  then show thesis using that [of "ext s"] assms by (simp add: snapshot_event_def ret_def)
next
  case (Some E)
  show thesis
  proof (cases "table_map d_id (dbs_tab s) d")
    case None
    then show thesis using that [of "ext s"] assms Some
      by (simp add: snapshot_event_def catch_def bind_def on_dbs_def db_find_by_id_run throw_def ret_def)
  next
    case row: (Some r)
    let ?m = "''Snapshot for database '' @ [CHR 39] @ d_name r @ [CHR 39] @ '' created successfully''"
    let ?fs = "[(''snapshot_id'', sr_id resp), (''database_id'', d), (''object_key'', sr_key resp),
              (''size_bytes'', py_str_nat (sr_size resp))]"
    obtain q x where x: "emit E t ''snapshot_created'' ''Snapshot Created'' ?m ?fs (ext s) = (q, x)" "ok x"
      "holder x = holder (ext s)" "objs x = objs (ext s)"
      using quiet_run [OF notifying [OF Some] assms] by blast
    have "on_ext (emit E t ''snapshot_created'' ''Snapshot Created'' ?m ?fs) s = (q, s\<lparr>ext := x\<rparr>)"
      unfolding on_ext_def x(1) by simp
    then have "snapshot_event V t d resp s = (Inr (), s\<lparr>ext := x\<rparr>)"
      unfolding snapshot_event_def Some option.case catch_def bind_def on_dbs_def db_find_by_id_run prod.case sum.case row
      by (cases q) (simp_all add: ret_def)
    with that x(2-4) show thesis by blast
  qed
qed

lemma snapshot_body_run:
  assumes "ok (ext s)" "map_of (disk s) (source_path fp (disk s)) = Some Dir"
    and "sc_tmp call \<noteq> []" "dirs_to (disk s) (butlast (sc_tmp call))" "fresh_path (disk s) (sc_tmp call)"
    and "\<not> prefix (source_path fp (disk s)) (sc_tmp call)" "fresh_snapshot call archive d (snaps_tab s)"
  obtains resp tree s' where "snapshot_body V call archive t d fp s = (Inr resp, s')"
    "ok (ext s')" "holder (ext s') = holder (ext s)" "dbs_tab s' = dbs_tab s"
    "snaps_tab s' = snaps_tab s @ [snapshot_row t d resp]"
    "archive_of d (\<lambda>r. map_of (disk s) (source_path fp (disk s) @ r)) tree"
    "objs (ext s') (sr_key resp) = Some (TarGz tree)" "endswith (sr_key resp) ''.tar.gz''"
    "sr_id resp = sc_id call" "sr_created resp = sc_created call"
    "\<And>q. \<not> prefix (sc_tmp call) q \<Longrightarrow> map_of (disk s') q = map_of (disk s) q"
    "\<And>k. \<not> endswith k (snapshot_filename archive call) \<Longrightarrow> objs (ext s') k = objs (ext s) k"
    "endswith (sr_key resp) (snapshot_filename archive call)"
proof -
  let ?p = "source_path fp (disk s)" and ?f = "snapshot_filename archive call"
  have l: "locate_source V fp (disk s) = (Inr ?p, disk s)"
    using assms(2) by (simp add: locate_source_def Let_def fs_simps)
  obtain tree v where a: "archive_database d (sc_tmp call) ?p (disk s) = (Inr (TarGz tree), v)"
    "archive_of d (\<lambda>r. map_of (disk s) (?p @ r)) tree"
    "\<And>q. \<not> prefix (sc_tmp call) q \<Longrightarrow> map_of v q = map_of (disk s) q"
    using archive_run [OF assms(3-5,2,6)] by blast
  let ?data = "TarGz tree" and ?s1 = "s\<lparr>disk := v\<rparr>"
  obtain pre x where u: "upload_database (bk_storage V) t d ?data ?f (ext s) = (Inr (pre @ ?f), x)" "ok x"
    "holder x = holder (ext s)" "objs x (pre @ ?f) = Some ?data" "\<forall>k. \<not> endswith k ?f \<longrightarrow> objs x k = objs (ext s) k"
    using uploading [OF assms(1)] by blast
  let ?k = "pre @ ?f" and ?s2 = "?s1\<lparr>ext := x\<rparr>"
  obtain x2 where t2: "tag_snapshot V archive call ?k ?s2 = (Inr (), ?s2\<lparr>ext := x2\<rparr>)" "ok x2" "holder x2 = holder x" "objs x2 = objs x"
    using tag_snapshot_run [of ?s2 archive call ?k] u(2) by auto
  let ?s3 = "?s2\<lparr>ext := x2\<rparr>"
  let ?row = "\<lparr>s_id = sc_id call, s_tenant = t, s_database = d, s_key = ?k, s_checksum = bk_digest V ?data,
    s_size = bk_size V ?data, s_created = sc_created call\<rparr>"
  have "endswith ?k ?f" by (rule endswith_append)
  with assms(7) have sv: "snapshot_save (sc_id call) t d ?k (bk_digest V ?data) (bk_size V ?data) (IsoAware (sc_created call))
      (snaps_tab ?s3) = (Inr (sc_id call), snaps_tab s @ [?row])"
    by (simp add: snapshot_insert_fresh)
  let ?s4 = "?s3\<lparr>snaps_tab := snaps_tab s @ [?row]\<rparr>"
  obtain x5 where d5: "drop_info V d ?s4 = (Inr (), ?s4\<lparr>ext := x5\<rparr>)" "ok x5" "holder x5 = holder x2" "objs x5 = objs x2"
    using drop_info_run [of ?s4 d] t2(2) by auto
  let ?s5 = "?s4\<lparr>ext := x5\<rparr>"
  let ?resp = "\<lparr>sr_id = sc_id call, sr_key = ?k, sr_checksum = bk_digest V ?data, sr_size = bk_size V ?data,
        sr_created = sc_created call\<rparr>"
  obtain x6 where e6: "snapshot_event V t d ?resp ?s5 = (Inr (), ?s5\<lparr>ext := x6\<rparr>)" "ok x6" "holder x6 = holder x5" "objs x6 = objs x5"
    using snapshot_event_run [of ?s5 t d ?resp] d5(2) by auto
  let ?s6 = "?s5\<lparr>ext := x6\<rparr>"
  have r1: "on_disk (locate_source V fp) s = (Inr ?p, s)" by (simp add: on_disk_def l)
  have r2: "on_disk (archive_database d (sc_tmp call) ?p) s = (Inr ?data, ?s1)" by (simp add: on_disk_def a(1))
  have r3: "on_ext (upload_database (bk_storage V) t d ?data ?f) ?s1 = (Inr ?k, ?s2)" by (simp add: on_ext_def u(1))
  have r5: "on_snaps (snapshot_save (sc_id call) t d ?k (bk_digest V ?data) (bk_size V ?data) (IsoAware (sc_created call))) ?s3 =
    (Inr (sc_id call), ?s4)"
    unfolding on_snaps_def sv by simp
  have "snapshot_body V call archive t d fp s = (Inr ?resp, ?s6)"
    by (simp only: snapshot_body_def bind_step r1 r2 r3 t2(1) r5 d5(1) Let_def e6(1) ret_def)
  moreover have "snaps_tab ?s6 = snaps_tab s @ [snapshot_row t d ?resp]" by (simp add: snapshot_row_def)
  ultimately show thesis
    using that [of ?resp ?s6 tree] a(2,3) u(3-5) t2(3,4) d5(3,4) e6(2-4) snapshot_filename_targz [of pre archive call] by simp
qed

lemma create_snapshot_run:
  assumes "can_snapshot holder ok call archive t d s p"
  obtains resp tree s' where "create_database_snapshot V call archive t d s = (Inr resp, s')"
    "ok (ext s')" "holder (ext s') = holder (ext s)" "dbs_tab s' = dbs_tab s"
    "snaps_tab s' = snaps_tab s @ [snapshot_row t d resp]"
    "archive_of d (\<lambda>r. map_of (disk s) (p @ r)) tree"
    "objs (ext s') (sr_key resp) = Some (TarGz tree)" "endswith (sr_key resp) ''.tar.gz''"
    "sr_id resp = sc_id call" "sr_created resp = sc_created call"
    "\<And>q. \<not> prefix (sc_tmp call) q \<Longrightarrow> map_of (disk s') q = map_of (disk s) q"
    "\<And>k. \<not> endswith k (snapshot_filename archive call) \<Longrightarrow> objs (ext s') k = objs (ext s) k"
    "endswith (sr_key resp) (snapshot_filename archive call)"
proof -
  obtain r where row: "table_map d_id (dbs_tab s) d = Some r" "d_tenant r = t" "d_path r \<noteq> []"
    "p = source_path (d_path r) (disk s)"
    and c: "map_of (disk s) p = Some Dir" "sc_tmp call \<noteq> []" "dirs_to (disk s) (butlast (sc_tmp call))"
      "fresh_path (disk s) (sc_tmp call)" "\<not> prefix p (sc_tmp call)" "fresh_snapshot call archive d (snaps_tab s)"
      "ok (ext s)" "holder (ext s) (snapshot_lock d) = None"
    using assms unfolding can_snapshot_def by blast
  obtain x where a: "authorize V t ''backup'' ''Not authorized to snapshot database'' s = (Inr (), s\<lparr>ext := x\<rparr>)" "ok x"
    "holder x = holder (ext s)" "objs x = objs (ext s)"
    using authorize_run [OF c(7)] by blast
  let ?s = "s\<lparr>ext := x\<rparr>"
  let ?P = "\<lambda>res dt st dk ob. \<exists>resp tree. res = Inr resp \<and> dt = dbs_tab s \<and> st = snaps_tab s @ [snapshot_row t d resp] \<and>
    archive_of d (\<lambda>r. map_of (disk s) (p @ r)) tree \<and> ob (sr_key resp) = Some (TarGz tree) \<and>
    endswith (sr_key resp) ''.tar.gz'' \<and> sr_id resp = sc_id call \<and> sr_created resp = sc_created call \<and>
    (\<forall>q. \<not> prefix (sc_tmp call) q \<longrightarrow> map_of dk q = map_of (disk s) q) \<and>
    (\<forall>k. \<not> endswith k (snapshot_filename archive call) \<longrightarrow> ob k = objs (ext s) k) \<and>
    endswith (sr_key resp) (snapshot_filename archive call)"
  let ?body = "snapshot_body V call archive t d (d_path r)"
  have "\<exists>res s'. with_lock (site_locks V) (snapshot_lock d) 10 (throw TimeoutError ''Could not acquire snapshot lock'') ?body ?s = (res, s') \<and>
    ok (ext s') \<and> holder (ext s') = holder (ext ?s) \<and> ?P res (dbs_tab s') (snaps_tab s') (disk s') (objs (ext s'))"
  proof (rule with_site_lock)
    show "ok (ext ?s)" "holder (ext ?s) (snapshot_lock d) = None" using a c(8) by simp_all
    fix y
    assume y: "ok y" "objs y = objs (ext ?s)"
    let ?t = "?s\<lparr>ext := y\<rparr>"
    have t: "ok (ext ?t)" "map_of (disk ?t) (source_path (d_path r) (disk ?t)) = Some Dir"
      "dirs_to (disk ?t) (butlast (sc_tmp call))" "fresh_path (disk ?t) (sc_tmp call)"
      "\<not> prefix (source_path (d_path r) (disk ?t)) (sc_tmp call)" "fresh_snapshot call archive d (snaps_tab ?t)"
      using y(1) c(1,3-6) row(4) by simp_all
    obtain resp tree s' where b: "?body ?t = (Inr resp, s')"
      "ok (ext s')" "holder (ext s') = holder (ext ?t)" "dbs_tab s' = dbs_tab ?t"
      "snaps_tab s' = snaps_tab ?t @ [snapshot_row t d resp]"
      "archive_of d (\<lambda>q. map_of (disk ?t) (source_path (d_path r) (disk ?t) @ q)) tree"
      "objs (ext s') (sr_key resp) = Some (TarGz tree)" "endswith (sr_key resp) ''.tar.gz''"
      "sr_id resp = sc_id call" "sr_created resp = sc_created call"
      "\<And>q. \<not> prefix (sc_tmp call) q \<Longrightarrow> map_of (disk s') q = map_of (disk ?t) q"
      "\<And>k. \<not> endswith k (snapshot_filename archive call) \<Longrightarrow> objs (ext s') k = objs (ext ?t) k"
      "endswith (sr_key resp) (snapshot_filename archive call)"
      by (rule snapshot_body_run [OF t(1,2) c(2) t(3-6)]) (rule that)
    then show "\<exists>res s'. ?body ?t = (res, s') \<and> ok (ext s') \<and> holder (ext s') = holder y \<and>
        ?P res (dbs_tab s') (snaps_tab s') (disk s') (objs (ext s'))"
      using row(4) y(2) a(4) by (intro exI [of _ "Inr resp"] exI [of _ s']) auto
  qed
  then obtain resp tree s' where w: "with_lock (site_locks V) (snapshot_lock d) 10
      (throw TimeoutError ''Could not acquire snapshot lock'') ?body ?s = (Inr resp, s')"
    "ok (ext s')" "holder (ext s') = holder x" "dbs_tab s' = dbs_tab s"
    "snaps_tab s' = snaps_tab s @ [snapshot_row t d resp]"
    "archive_of d (\<lambda>r. map_of (disk s) (p @ r)) tree"
    "objs (ext s') (sr_key resp) = Some (TarGz tree)" "endswith (sr_key resp) ''.tar.gz''"
    "sr_id resp = sc_id call" "sr_created resp = sc_created call"
    "\<forall>q. \<not> prefix (sc_tmp call) q \<longrightarrow> map_of (disk s') q = map_of (disk s) q"
    "\<forall>k. \<not> endswith k (snapshot_filename archive call) \<longrightarrow> objs (ext s') k = objs (ext s) k"
    "endswith (sr_key resp) (snapshot_filename archive call)"
    by (elim exE conjE, hypsubst) (rule that, assumption, simp_all)
  have dp: "database_path t d ?s = (Inr (d_path r), ?s)" using row(1-3) by (intro database_path_run) simp_all
  have "create_database_snapshot V call archive t d s = (Inr resp, s')"
    by (simp only: create_database_snapshot_def bind_step a(1) dp w(1))
  then show thesis using that w(2-13) a(3) by simp
qed

lemma restore_run:
  assumes "can_restore holder ok tmp_name t d i s target row"
    and "objs (ext s) (s_key row) = Some (TarGz tree)" "archive_of a T tree" "T [] = Some Dir"
    and "endswith (s_key row) ''.tar.gz''"
  obtains s' where "restore_database_from_snapshot V raw tmp_name t d i s = (Inr True, s')"
    "ok (ext s')" "holder (ext s') = holder (ext s)" "objs (ext s') = objs (ext s)"
    "dbs_tab s' = dbs_tab s" "snaps_tab s' = snaps_tab s"
    "\<And>q. map_of (disk s') q = (if prefix target q then T (drop (length target) q)
       else if prefix (butlast target @ [''restore_'' @ tmp_name]) q then None else map_of (disk s) q)"
proof -
  let ?n = "''restore_'' @ tmp_name"
  obtain r where r: "table_map d_id (dbs_tab s) d = Some r" "d_tenant r = t" "d_path r \<noteq> []" "target = path_of (d_path r)"
    and c: "table_map s_id (snaps_tab s) i = Some row" "s_database row = d" "target \<noteq> []" "dirs_to (disk s) (butlast target)"
      "fresh_path (disk s) (butlast target @ [?n])" "?n \<noteq> last target"
      "map_of (disk s) target = None \<or> map_of (disk s) target = Some Dir" "ok (ext s)" "holder (ext s) (restore_lock d) = None"
    using assms(1) unfolding can_restore_def by blast
  obtain x where az: "authorize V t ''restore'' ''Not authorized to restore database'' s = (Inr (), s\<lparr>ext := x\<rparr>)" "ok x"
    "holder x = holder (ext s)" "objs x = objs (ext s)"
    using authorize_run [OF c(8)] by blast
  let ?s = "s\<lparr>ext := x\<rparr>"
  obtain v where v: "restore_files raw (s_key row) (TarGz tree) ?n target (disk s) = (Inr (), v)"
    "\<And>q. map_of v q = (if prefix target q then T (drop (length target) q)
       else if prefix (butlast target @ [?n]) q then None else map_of (disk s) q)"
    using restore_files_run [OF assms(3-5) c(4,3,5-7)] by blast
  let ?P = "\<lambda>res dt st dk ob. res = Inr True \<and> dt = dbs_tab s \<and> st = snaps_tab s \<and> dk = v \<and> ob = objs (ext s)"
  let ?body = "restore_body V raw tmp_name d (d_path r) row"
  have "\<exists>res s'. with_lock (site_locks V) (restore_lock d) 30 (throw TimeoutError ''Could not acquire restore lock'') ?body ?s = (res, s') \<and>
    ok (ext s') \<and> holder (ext s') = holder (ext ?s) \<and> ?P res (dbs_tab s') (snaps_tab s') (disk s') (objs (ext s'))"
  proof (rule with_site_lock)
    show "ok (ext ?s)" "holder (ext ?s) (restore_lock d) = None" using az c(9) by simp_all
    fix y
    assume y: "ok y" "objs y = objs (ext ?s)"
    let ?t = "?s\<lparr>ext := y\<rparr>" and ?u = "?s\<lparr>ext := y, disk := v\<rparr>"
    have "download_database (bk_storage V) (s_key row) y = (Inr (TarGz tree), y)"
      using downloading [OF y(1)] y(2) az(4) assms(2) by simp
    then have b1: "on_ext (download_database (bk_storage V) (s_key row)) ?t = (Inr (TarGz tree), ?t)"
      by (simp add: on_ext_def)
    have b2: "on_disk (restore_files raw (s_key row) (TarGz tree) ?n (path_of (d_path r))) ?t = (Inr (), ?u)"
      using v(1) r(4) by (simp add: on_disk_def)
    obtain z where z: "drop_info V d ?u = (Inr (), ?u\<lparr>ext := z\<rparr>)" "ok z" "holder z = holder y" "objs z = objs y"
      using drop_info_run [of ?u d] y(1) by auto
    have "?body ?t = (Inr True, ?u\<lparr>ext := z\<rparr>)"
      by (simp only: restore_body_def bind_step b1 b2 z(1) ret_def)
    then show "\<exists>res s'. ?body ?t = (res, s') \<and> ok (ext s') \<and> holder (ext s') = holder y \<and>
        ?P res (dbs_tab s') (snaps_tab s') (disk s') (objs (ext s'))"
      using z(2-4) y(2) az(4) by simp
  qed
  then obtain s' where w: "with_lock (site_locks V) (restore_lock d) 30 (throw TimeoutError ''Could not acquire restore lock'') ?body ?s = (Inr True, s')"
    "ok (ext s')" "holder (ext s') = holder x" "dbs_tab s' = dbs_tab s" "snaps_tab s' = snaps_tab s" "disk s' = v"
    "objs (ext s') = objs (ext s)"
    by auto
  have dp: "database_path t d ?s = (Inr (d_path r), ?s)" using r(1-3) by (intro database_path_run) simp_all
  have fs: "find_snapshot_of d i ?s = (Inr row, ?s)" using c(1,2) by (simp add: find_snapshot_run)
  have "restore_database_from_snapshot V raw tmp_name t d i s = (Inr True, s')"
    by (simp only: restore_database_from_snapshot_def bind_step az(1) dp fs w(1))
  then show thesis using that w(2-7) az(3) v(2) by simp
qed

end

section \<open>Properties\<close>

text \<open>C3: Snapshot and restore. A snapshot of a database directory whose lock is free returns, adds its row to the
  table and leaves the other tables, the locks and the disk outside its temporary directory as they were. Whatever
  happens to the database afterwards: as long as the object, the two rows and a free restore lock are there,
  restoring the snapshot succeeds and makes the tree at the database's path the one the snapshot was taken of,
  changing nothing else but the temporary directory it removes.\<close>

theorem snapshot_restores_database:
  assumes "site_services V holder ok objs" "can_snapshot holder ok call archive t d s p"
  shows "\<exists>resp s1. create_database_snapshot V call archive t d s = (Inr resp, s1) \<and>
    snaps_tab s1 = snaps_tab s @ [snapshot_row t d resp] \<and> dbs_tab s1 = dbs_tab s \<and>
    ok (ext s1) \<and> holder (ext s1) = holder (ext s) \<and>
    (\<forall>q. \<not> prefix (sc_tmp call) q \<longrightarrow> map_of (disk s1) q = map_of (disk s) q) \<and>
    (\<forall>raw tmp_name s2 target. objs (ext s2) (sr_key resp) = objs (ext s1) (sr_key resp) \<longrightarrow>
      can_restore holder ok tmp_name t d (sr_id resp) s2 target (snapshot_row t d resp) \<longrightarrow>
      (\<exists>s3. restore_database_from_snapshot V raw tmp_name t d (sr_id resp) s2 = (Inr True, s3) \<and>
        (\<forall>q. map_of (disk s3) (target @ q) = map_of (disk s) (p @ q)) \<and>
        (\<forall>q. \<not> prefix target q \<longrightarrow> map_of (disk s3) q =
          (if prefix (butlast target @ [''restore_'' @ tmp_name]) q then None else map_of (disk s2) q)) \<and>
        dbs_tab s3 = dbs_tab s2 \<and> snaps_tab s3 = snaps_tab s2 \<and> ok (ext s3) \<and> holder (ext s3) = holder (ext s2)))"
proof -
  obtain resp tree s1 where c: "create_database_snapshot V call archive t d s = (Inr resp, s1)"
    "ok (ext s1)" "holder (ext s1) = holder (ext s)" "dbs_tab s1 = dbs_tab s"
    "snaps_tab s1 = snaps_tab s @ [snapshot_row t d resp]"
    "archive_of d (\<lambda>r. map_of (disk s) (p @ r)) tree"
    "objs (ext s1) (sr_key resp) = Some (TarGz tree)" "endswith (sr_key resp) ''.tar.gz''"
    "\<And>q. \<not> prefix (sc_tmp call) q \<Longrightarrow> map_of (disk s1) q = map_of (disk s) q"
    using site_services.create_snapshot_run [OF assms] by metis
  have root: "map_of (disk s) (p @ []) = Some Dir" using assms(2) by (simp add: can_snapshot_def)
  have key: "s_key (snapshot_row t d resp) = sr_key resp" by (simp add: snapshot_row_def)
  have r: "\<exists>s3. restore_database_from_snapshot V raw tmp_name t d (sr_id resp) s2 = (Inr True, s3) \<and>
        (\<forall>q. map_of (disk s3) (target @ q) = map_of (disk s) (p @ q)) \<and>
        (\<forall>q. \<not> prefix target q \<longrightarrow> map_of (disk s3) q =
          (if prefix (butlast target @ [''restore_'' @ tmp_name]) q then None else map_of (disk s2) q)) \<and>
        dbs_tab s3 = dbs_tab s2 \<and> snaps_tab s3 = snaps_tab s2 \<and> ok (ext s3) \<and> holder (ext s3) = holder (ext s2)"
    if "objs (ext s2) (sr_key resp) = objs (ext s1) (sr_key resp)"
      "can_restore holder ok tmp_name t d (sr_id resp) s2 target (snapshot_row t d resp)" for raw tmp_name s2 target
    using site_services.restore_run [OF assms(1) that(2), of tree, unfolded key, OF _ c(6) root c(8)] that(1) c(7)
    by (metis (no_types, lifting) append_eq_conv_conj prefixI)
  show ?thesis using c(1-5,9) r by blast
qed

text \<open>A database whose only file is overwritten between the snapshot and the restore.\<close>

definition demo_site :: "(keyspace \<times> nat blob ref_s3, nat) site" where
  "demo_site = \<lparr>dbs_tab = [\<lparr>d_id = ''d'', d_tenant = ''t'', d_name = ''main'', d_path = ''/db'', d_created = DT 2024 1 1 0 0 0 0\<rparr>],
     snaps_tab = [], disk = [([], Dir), ([''tmp''], Dir), ([''db''], Dir), ([''db'', ''f''], File 1)], ext = (Map.empty, [])\<rparr>"

definition demo_call :: snapshot_call where
  "demo_call = \<lparr>sc_now = DT 2024 1 2 0 0 0 0, sc_hex = ''h'', sc_tmp = [''tmp'', ''x''], sc_created = DT 2024 1 2 0 0 1 0, sc_id = ''i'', sc_days = (30, 7)\<rparr>"

definition demo_backend :: "(keyspace \<times> nat blob ref_s3, nat, string) backend" where
  "demo_backend = redis_minio_backend ref_redis id id ''tok'' (ref_s3 (\<lambda>_. 1)) ''kuzu'' (\<lambda>_. ''sum'') (\<lambda>_. 1) (\<lambda>p. ret ())"

lemma demo_services: "site_services demo_backend (\<lambda>x. lock_holder (\<lambda>r. r) (fst x)) (\<lambda>x. locks_typed (\<lambda>r. r) (fst x))
    (\<lambda>x. stored_at ref_view ''kuzu'' (snd x))"
  unfolding demo_backend_def by (rule ref_deployment.site_services_axioms)

lemma demo_can_snapshot: "can_snapshot (\<lambda>x. lock_holder (\<lambda>r. r) (fst x)) (\<lambda>x. locks_typed (\<lambda>r. r) (fst x))
    demo_call archive ''t'' ''d'' demo_site [''db'']"
proof -
  have "path_of ''/db'' = [''db'']" by (simp add: path_of_def)
  moreover have "dirs_to (disk demo_site) (butlast (sc_tmp demo_call))"
    by (auto simp: dirs_to_def demo_site_def demo_call_def prefix_Cons)
  moreover have "fresh_path (disk demo_site) (sc_tmp demo_call)"
    unfolding fresh_path_def by (auto simp: prefix_def demo_site_def demo_call_def)
  moreover have "fresh_snapshot demo_call archive ''d'' (snaps_tab demo_site)" by (simp add: fresh_snapshot_def demo_site_def)
  ultimately show ?thesis
    unfolding can_snapshot_def
    by (simp add: table_map_def source_path_def fs_simps data_kuzu_def lock_holder_def locks_typed_def demo_site_def demo_call_def)
qed

lemma demo_can_restore:
  assumes "dbs_tab s = dbs_tab demo_site" "snaps_tab s = [snapshot_row ''t'' ''d'' resp]"
    and "\<And>q. \<not> prefix [''tmp'', ''x''] q \<Longrightarrow> map_of (disk s) q = map_of (([''db'', ''f''], File 2) # disk demo_site) q"
    and "locks_typed (\<lambda>r. r) (fst (ext s))" "lock_holder (\<lambda>r. r) (fst (ext s)) = lock_holder (\<lambda>r. r) Map.empty"
  shows "can_restore (\<lambda>x. lock_holder (\<lambda>r. r) (fst x)) (\<lambda>x. locks_typed (\<lambda>r. r) (fst x))
    ''n'' ''t'' ''d'' (sr_id resp) s [''db''] (snapshot_row ''t'' ''d'' resp)"
proof -
  have "path_of ''/db'' = [''db'']" by (simp add: path_of_def)
  moreover have "dirs_to (disk s) (butlast [''db''])" by (simp add: dirs_to_def assms(3) demo_site_def)
  moreover have "fresh_path (disk s) (butlast [''db''] @ [''restore_'' @ ''n''])"
    unfolding fresh_path_def by (auto simp: prefix_def assms(3) demo_site_def)
  moreover have "map_of (disk s) [''db''] = Some Dir" by (simp add: assms(3) demo_site_def)
  moreover have "lock_holder (\<lambda>r. r) (fst (ext s)) (restore_lock ''d'') = None" unfolding assms(5) by (simp add: lock_holder_def)
  ultimately show ?thesis
    unfolding can_restore_def using assms(1,2,4) by (simp add: table_map_def snapshot_row_def demo_site_def)
qed

theorem snapshot_restores_database_witness:
  "\<exists>resp s1 s3. create_database_snapshot demo_backend demo_call False ''t'' ''d'' demo_site = (Inr resp, s1) \<and>
    restore_database_from_snapshot demo_backend (\<lambda>_. 0) ''n'' ''t'' ''d'' (sr_id resp)
      (s1\<lparr>disk := ([''db'', ''f''], File 2) # disk s1\<rparr>) = (Inr True, s3) \<and>
    map_of (disk s3) [''db'', ''f''] = Some (File 1)"
proof -
  note t = snapshot_restores_database [OF demo_services demo_can_snapshot [where archive = False]]
  then obtain resp s1 where c: "create_database_snapshot demo_backend demo_call False ''t'' ''d'' demo_site = (Inr resp, s1)"
    "snaps_tab s1 = snaps_tab demo_site @ [snapshot_row ''t'' ''d'' resp]" "dbs_tab s1 = dbs_tab demo_site"
    "locks_typed (\<lambda>r. r) (fst (ext s1))" "lock_holder (\<lambda>r. r) (fst (ext s1)) = lock_holder (\<lambda>r. r) (fst (ext demo_site))"
    "\<forall>q. \<not> prefix (sc_tmp demo_call) q \<longrightarrow> map_of (disk s1) q = map_of (disk demo_site) q"
    and r: "\<forall>raw tmp_name s2 target. stored_at ref_view ''kuzu'' (snd (ext s2)) (sr_key resp) = stored_at ref_view ''kuzu'' (snd (ext s1)) (sr_key resp) \<longrightarrow>
      can_restore (\<lambda>x. lock_holder (\<lambda>r. r) (fst x)) (\<lambda>x. locks_typed (\<lambda>r. r) (fst x)) tmp_name ''t'' ''d'' (sr_id resp) s2 target (snapshot_row ''t'' ''d'' resp) \<longrightarrow>
      (\<exists>s3. restore_database_from_snapshot demo_backend raw tmp_name ''t'' ''d'' (sr_id resp) s2 = (Inr True, s3) \<and>
        (\<forall>q. map_of (disk s3) (target @ q) = map_of (disk demo_site) ([''db''] @ q)) \<and>
        (\<forall>q. \<not> prefix target q \<longrightarrow> map_of (disk s3) q =
          (if prefix (butlast target @ [''restore_'' @ tmp_name]) q then None else map_of (disk s2) q)) \<and>
        dbs_tab s3 = dbs_tab s2 \<and> snaps_tab s3 = snaps_tab s2 \<and> locks_typed (\<lambda>r. r) (fst (ext s3)) \<and>
        lock_holder (\<lambda>r. r) (fst (ext s3)) = lock_holder (\<lambda>r. r) (fst (ext s2)))"
    by (elim exE conjE) (rule that)
  let ?s2 = "s1\<lparr>disk := ([''db'', ''f''], File 2) # disk s1\<rparr>"
  have "can_restore (\<lambda>x. lock_holder (\<lambda>r. r) (fst x)) (\<lambda>x. locks_typed (\<lambda>r. r) (fst x))
    ''n'' ''t'' ''d'' (sr_id resp) ?s2 [''db''] (snapshot_row ''t'' ''d'' resp)"
    using c by (intro demo_can_restore) (simp_all add: demo_site_def demo_call_def)
  then obtain s3 where "restore_database_from_snapshot demo_backend (\<lambda>_. 0) ''n'' ''t'' ''d'' (sr_id resp) ?s2 = (Inr True, s3)"
    "\<forall>q. map_of (disk s3) ([''db''] @ q) = map_of (disk demo_site) ([''db''] @ q)"
    using r [THEN spec [of _ "\<lambda>_. 0"], THEN spec [of _ "''n''"], THEN spec [of _ ?s2], THEN spec [of _ "[''db'']"]] by auto
  moreover from this(2) have "map_of (disk s3) [''db'', ''f''] = Some (File 1)"
    by (auto simp: demo_site_def dest: spec [of _ "[''f'']"])
  ultimately show ?thesis using c(1) by blast
qed

end
