(* ===== verification/Provisioning.thy ===== *)
theory Provisioning
  imports Snapshots Value_Objects
begin

text \<open>
  How a database comes into being and is managed: \<open>provision_tenant_resources.py\<close>,
  \<open>delete_kuzu_database.py\<close>, \<open>upload_kuzu_database_file.py\<close>, \<open>get_kuzu_database_info.py\<close> and
  \<open>list_kuzu_databases.py\<close> of \<open>application/usecases\<close>, with the provisioning adapters for Kuzu and MinIO
  and the query service. The engine's constructor is a parameter, and the values of \<open>uuid4\<close> and the clock
  are arguments.
\<close>

section \<open>The provisioning adapters\<close>

text \<open>\<open>str(p)\<close> of an absolute path.\<close>

definition str_of_path :: "path \<Rightarrow> string" where
  "str_of_path p = (if p = [] then ''/'' else concat (map (\<lambda>c. CHR ''/'' # c) p))"

definition kuzu_base_dir :: "string option \<Rightarrow> string option \<Rightarrow> ('b files, path) act" where
  "kuzu_base_dir base_dir env_dir = (let chosen = (case base_dir of Some (c # cs) \<Rightarrow> Some (c # cs) | _ \<Rightarrow> env_dir)
     in case chosen of Some (c # cs) \<Rightarrow> andthen (mkdirs (path_of (c # cs))) (ret (path_of (c # cs)))
        | _ \<Rightarrow> throw RuntimeError ''KUZU_DATA_DIR must be set for database provisioning'')"

definition kuzu_db_path :: "path \<Rightarrow> uuid \<Rightarrow> uuid \<Rightarrow> path" where
  "kuzu_db_path base t d = base @ [t, d, data_kuzu]"

text \<open>The adapter keeps the databases it has made under keys of tenant and database; \<open>cached\<close> is those keys.\<close>

definition kuzu_create_database :: "(path \<Rightarrow> ('b files, unit) act) \<Rightarrow> path \<Rightarrow> string list \<Rightarrow> uuid \<Rightarrow> dt \<Rightarrow> uuid \<Rightarrow> string \<Rightarrow>
    ('b files, db_row \<times> string list) act" where
  "kuzu_create_database kuzu base cached fresh now t name =
     (let db_path = kuzu_db_path base t fresh; key = t @ ''_'' @ fresh
      in andthen (mkdirs (butlast db_path)) (\<lambda>v.
           if key \<in> set cached then (raise RuntimeError ''Database already exists (cached)'', v)
           else if fs_exists v db_path then (raise RuntimeError ''Database already exists (filesystem)'', v)
           else andthen (kuzu db_path) (ret (\<lparr>d_id = fresh, d_tenant = t, d_name = name,
               d_path = str_of_path db_path, d_created = now\<rparr>, key # cached)) v))"

text \<open>The tenant's part of the bucket is a prefix; an object is put there to see that it can be written.\<close>

definition tenant_prefix :: "uuid \<Rightarrow> string" where
  "tenant_prefix t = ''tenants/'' @ t @ ''/''"

definition minio_ensure_bucket :: "('m, 'b) s3 \<Rightarrow> string \<Rightarrow> 'b \<Rightarrow> uuid \<Rightarrow> ('m, string) act" where
  "minio_ensure_bucket C bucket sentinel t m =
     (case put_object C bucket (tenant_prefix t @ ''_provisioned'') sentinel (ensure_bucket C bucket m) of
        (S3Ok _, m') \<Rightarrow> (Inr (bucket @ '':'' @ tenant_prefix t), m')
      | (S3Error e, m') \<Rightarrow> (raise RuntimeError (''MinIO bucket provisioning failed: '' @ e), m'))"

section \<open>The query service\<close>

text \<open>\<open>run p q\<close> is the engine executing \<open>q\<close> in the database at \<open>p\<close> until its results are exhausted.\<close>

definition kuzu_validate_query :: "string \<Rightarrow> bool" where
  "kuzu_validate_query q \<longleftrightarrow> q \<noteq> [] \<and> py_strip q \<noteq> []"

definition service_execute_query :: "(path \<Rightarrow> ('b files, unit) act) \<Rightarrow> (path \<Rightarrow> string \<Rightarrow> ('b files, 'row list) act) \<Rightarrow>
    string \<Rightarrow> string \<Rightarrow> ('b files, unit) act" where
  "service_execute_query kuzu run p q = andthen (kuzu (path_of p)) (andthen (run (path_of p) q) (ret ()))"

definition kuzu_create_empty :: "(path \<Rightarrow> ('b files, unit) act) \<Rightarrow> string \<Rightarrow> ('b files, bool) act" where
  "kuzu_create_empty kuzu p = andthen (mkdirs (butlast (path_of p))) (andthen (kuzu (path_of p)) (ret True))"

section \<open>Provisioning\<close>

record 'x provisioner =
  pv_bucket :: "uuid \<Rightarrow> ('x, string) act"
  pv_base :: path
  pv_cached :: "string list"
  pv_snapshots :: bool
  pv_default :: string

record provision_call =
  pc_id :: uuid
  pc_now :: dt
  pc_snapshot :: snapshot_call

record provision_response =
  pr_bucket :: string
  pr_name :: string
  pr_id :: uuid
  pr_path :: string
  pr_created :: dt

definition initial_snapshot :: "('x, 'b, 'v) backend \<Rightarrow> 'x provisioner \<Rightarrow> provision_call \<Rightarrow> uuid \<Rightarrow> uuid \<Rightarrow>
    (('x, 'b) site, unit) act" where
  "initial_snapshot V P call t d = guard_do (pv_snapshots P)
     (catch (andthen (create_database_snapshot V (pc_snapshot call) True t d) (ret ())) (\<lambda>_. ret ()))"

definition database_created_event :: "('x, 'b, 'v) backend \<Rightarrow> uuid \<Rightarrow> db_row \<Rightarrow> (('x, 'b) site, unit) act" where
  "database_created_event V t meta = best_effort_event V t ''database_created'' ''Database Created''
     (''Database '' @ [CHR 39] @ d_name meta @ [CHR 39] @ '' has been created successfully'')
     [(''database_id'', d_id meta), (''database_name'', d_name meta), (''filesystem_path'', d_path meta)]"

definition provision_tenant_resources :: "('x, 'b, 'v) backend \<Rightarrow> 'x provisioner \<Rightarrow> provision_call \<Rightarrow> uuid \<Rightarrow> string option \<Rightarrow>
    (('x, 'b) site, provision_response) act" where
  "provision_tenant_resources V P call t database_name =
     bind (of_result (DatabaseName (case database_name of Some (c # cs) \<Rightarrow> c # cs | _ \<Rightarrow> pv_default P))) (\<lambda>name.
     bind (on_dbs (metadata_find_by_name t name)) (\<lambda>existing.
     if existing \<noteq> None then throw ValueError ''Database already exists for tenant'' else
     bind (on_ext (pv_bucket P t)) (\<lambda>bucket.
     bind (on_disk (kuzu_create_database (bk_kuzu V) (pv_base P) (pv_cached P) (pc_id call) (pc_now call) t name)) (\<lambda>(meta, _).
     andthen (on_dbs (metadata_save meta))
     (andthen (database_created_event V t meta)
     (andthen (initial_snapshot V P call t (d_id meta))
     (ret \<lparr>pr_bucket = bucket, pr_name = name, pr_id = d_id meta, pr_path = d_path meta, pr_created = d_created meta\<rparr>)))))))"

section \<open>Deleting, uploading, describing\<close>

text \<open>The path handed to the object storage is the one on the local disk, which stays.\<close>

definition delete_kuzu_database :: "('x, 'b, 'v) backend \<Rightarrow> 'x event_port \<Rightarrow> uuid \<Rightarrow> uuid \<Rightarrow> (('x, 'b) site, bool) act" where
  "delete_kuzu_database V E t d =
     andthen (authorize V t ''delete'' ''Not authorized to delete databases'')
     (bind (on_dbs (db_find_by_id d)) (\<lambda>info. case info of
        None \<Rightarrow> ret False
      | Some r \<Rightarrow> if d_tenant r \<noteq> t then ret False else
          andthen (guard_do (d_path r \<noteq> []) (catch (andthen (on_ext (delete_object (bk_storage V) (d_path r))) (ret ())) (\<lambda>_. ret ())))
          (bind (on_dbs (db_delete d)) (\<lambda>done.
             andthen (guard_do done (andthen (drop_info V d) (on_ext (emit E t ''database_deleted'' ''Database Deleted''
                 (''Database '' @ [CHR 39] @ d_name r @ [CHR 39] @ '' has been deleted'') [(''database_id'', d)]))))
               (ret done)))))"

record upload_response =
  up_path :: string
  up_size :: nat

definition upload_kuzu_database_file :: "('x, 'b, 'v) backend \<Rightarrow> 'x event_port \<Rightarrow> uuid \<Rightarrow> uuid \<Rightarrow> 'b blob \<Rightarrow> string \<Rightarrow>
    (('x, 'b) site, upload_response) act" where
  "upload_kuzu_database_file V E t d content filename =
     andthen (authorize V t ''write'' ''Not authorized to upload files'')
     (bind (on_dbs (db_find_by_id d)) (\<lambda>info. case info of
        None \<Rightarrow> throw PermissionError ''Database does not belong to tenant''
      | Some r \<Rightarrow> if d_tenant r \<noteq> t then throw PermissionError ''Database does not belong to tenant'' else
          bind (on_ext (upload_database (bk_storage V) t d content filename)) (\<lambda>dest.
          andthen (drop_info V d)
          (andthen (on_ext (emit E t ''file_uploaded'' ''File Uploaded''
              (''File '' @ [CHR 39] @ filename @ [CHR 39] @ '' uploaded to database '' @ [CHR 39] @ d_name r @ [CHR 39])
              [(''database_id'', d), (''file_name'', filename), (''file_size'', py_str_nat (bk_size V content))]))
          (ret \<lparr>up_path = dest, up_size = bk_size V content\<rparr>)))))"

text \<open>What is known of a database: its row, and the schema and statistics (empty placeholders) once added.\<close>

record db_info =
  di_row :: db_row
  di_enriched :: bool

definition info_key :: "uuid \<Rightarrow> string" where
  "info_key d = ''db_info:'' @ d"

definition get_kuzu_database_info :: "('x, 'b, db_info) backend \<Rightarrow> uuid \<Rightarrow> uuid \<Rightarrow> (('x, 'b) site, db_info option) act" where
  "get_kuzu_database_info V t d =
     andthen (authorize V t ''read'' ''Not authorized to read database'')
     (bind (on_ext (cache_get (bk_cache V) (info_key d))) (\<lambda>cached. case cached of
        Some i \<Rightarrow> ret (Some i)
      | None \<Rightarrow> bind (on_dbs (db_find_by_id d)) (\<lambda>info. case info of
            None \<Rightarrow> ret None
          | Some r \<Rightarrow> if d_tenant r \<noteq> t then throw PermissionError ''Database does not belong to tenant'' else
              (let i = \<lparr>di_row = r, di_enriched = (d_path r \<noteq> [])\<rparr> in
               andthen (on_ext (cache_set (bk_cache V) (info_key d) i (Some 1800))) (ret (Some i))))))"

fun enrich :: "('x, 'b, db_info) backend \<Rightarrow> db_row list \<Rightarrow> (('x, 'b) site, db_info list) act" where
  "enrich V [] = ret []"
| "enrich V (r # rs) = bind (on_ext (cache_get (bk_cache V) (info_key (d_id r)))) (\<lambda>cached.
     bind (enrich V rs) (\<lambda>is. ret ((case cached of Some i \<Rightarrow> i | None \<Rightarrow> \<lparr>di_row = r, di_enriched = False\<rparr>) # is)))"

definition list_kuzu_databases :: "('x, 'b, db_info) backend \<Rightarrow> uuid \<Rightarrow> (('x, 'b) site, db_info list) act" where
  "list_kuzu_databases V t =
     andthen (authorize V t ''list'' ''Not authorized to list databases'')
     (bind (on_dbs (db_find_by_tenant t)) (enrich V))"

end
