(* ===== verification/Branching.thy ===== *)
theory Branching
  imports Provisioning Branch_Names Nearest_Snapshot PITR_Replay
begin

text \<open>
  Branches of a database (\<open>application/usecases/branching\<close>): creation from a new snapshot, an existing
  one or a point in time, merging and deletion, composed of the use cases they call. The parser of ISO
  times and the engine's execution of a query are parameters.
\<close>

section \<open>Creating a branch\<close>

record branch_request =
  rq_tenant :: uuid
  rq_source :: uuid
  rq_source_name :: string
  rq_branch :: string
  rq_from :: "string option"

text \<open>What one call gets from clocks, \<open>uuid4\<close> and \<open>mkdtemp\<close>.\<close>

record branch_call =
  bc_snapshot :: snapshot_call
  bc_provision :: provision_call
  bc_copy_id :: uuid
  bc_tmp :: string
  bc_created :: dt

text \<open>The optional services the use case was given.\<close>

record branch_deps =
  bd_snapshots :: bool
  bd_pitr :: bool

record snapshot_meta =
  sm_key :: string
  sm_checksum :: string
  sm_size :: nat
  sm_created :: iso_field

record branch_response =
  rs_full_name :: string
  rs_database :: uuid
  rs_snapshot :: uuid
  rs_origin :: uuid
  rs_created :: dt

text \<open>The snapshot to start from, and for a point in time its own time and the target.\<close>

type_synonym base = "uuid \<times> snapshot_meta \<times> (dt \<times> dt) option"

definition meta_of :: "snapshot \<Rightarrow> snapshot_meta" where
  "meta_of s = \<lparr>sm_key = snap_object_key s, sm_checksum = snap_checksum s, sm_size = snap_size s, sm_created = snap_created s\<rparr>"

definition base_latest :: "('x, 'b, 'v) backend \<Rightarrow> branch_call \<Rightarrow> branch_request \<Rightarrow> (('x, 'b) site, base) act" where
  "base_latest V call rq = bind (create_database_snapshot V (bc_snapshot call) True (rq_tenant rq) (rq_source rq)) (\<lambda>r.
     ret (sr_id r, \<lparr>sm_key = sr_key r, sm_checksum = sr_checksum r, sm_size = sr_size r, sm_created = IsoAware (sr_created r)\<rparr>, None))"

definition base_existing :: "branch_deps \<Rightarrow> uuid \<Rightarrow> (('x, 'b) site, base) act" where
  "base_existing D i = (if \<not> bd_snapshots D then throw ValueError ''Snapshot repository not configured''
     else bind (on_snaps (snapshot_find_by_id i)) (\<lambda>src. case src of
         None \<Rightarrow> throw ValueError ''Snapshot not found''
       | Some r \<Rightarrow> ret (i, meta_of (snapshot_dict r), None)))"

definition target_time :: "iso_field \<Rightarrow> dt result" where
  "target_time f = (case f of IsoAware d \<Rightarrow> Inr d | IsoNaive d \<Rightarrow> Inr d
     | _ \<Rightarrow> raise ValueError ''Invalid from_snapshot format'')"

definition base_in_time :: "branch_deps \<Rightarrow> (string \<Rightarrow> iso_field) \<Rightarrow> branch_request \<Rightarrow> string \<Rightarrow> (('x, 'b) site, base) act" where
  "base_in_time D fromiso rq from1 =
     (if \<not> bd_pitr D then throw ValueError ''Timestamp-based branch creation requires PITR dependencies''
      else bind (of_result (target_time (fromiso from1))) (\<lambda>target.
        bind (on_snaps (snapshot_list (rq_source rq) None)) (\<lambda>rows.
        bind (of_result (branch_nearest (map snapshot_dict rows) target)) (\<lambda>s. case s of
            None \<Rightarrow> throw ValueError ''No snapshot found before target''
          | Some n \<Rightarrow> bind (of_result (UUID (snap_id n))) (\<lambda>i. ret (i, meta_of n, Some (snap_time n, target)))))))"

definition branch_base :: "('x, 'b, 'v) backend \<Rightarrow> branch_deps \<Rightarrow> (string \<Rightarrow> iso_field) \<Rightarrow> branch_call \<Rightarrow> branch_request \<Rightarrow>
    (('x, 'b) site, base) act" where
  "branch_base V D fromiso call rq = (case rq_from rq of
       None \<Rightarrow> base_latest V call rq
     | Some f \<Rightarrow> if f = [] \<or> f = ''latest'' then base_latest V call rq
         else (case UUID f of Inr i \<Rightarrow> base_existing D i | Inl _ \<Rightarrow> base_in_time D fromiso rq f))"

text \<open>The object storage on the site, and the replay of the source's log into the branch.\<close>

definition site_storage :: "('x, 'b, 'v) backend \<Rightarrow> (('x, 'b) site, 'b blob) storage_port" where
  "site_storage V = (let S = bk_storage V in \<lparr>upload_database = \<lambda>t d c f. on_ext (upload_database S t d c f),
     download_database = \<lambda>k. on_ext (download_database S k), delete_object = \<lambda>k. on_ext (delete_object S k),
     file_exists = \<lambda>k. on_ext (file_exists S k), get_file_size = \<lambda>k. on_ext (get_file_size S k),
     list_objects = \<lambda>p. on_ext (list_objects S p), set_object_tags = \<lambda>k ts. on_ext (set_object_tags S k ts)\<rparr>)"

definition branch_catch_up :: "('x, 'b, 'v) backend \<Rightarrow> 'b blob codec \<Rightarrow> (path \<Rightarrow> string \<Rightarrow> ('b files, 'row list) act) \<Rightarrow>
    uuid \<Rightarrow> uuid \<Rightarrow> uuid \<Rightarrow> dt \<Rightarrow> dt \<Rightarrow> (('x, 'b) site, unit) act" where
  "branch_catch_up V J run t source d base target =
     bind (on_dbs (db_find_by_id d)) (\<lambda>info. case info of
         None \<Rightarrow> throw FileNotFoundError ''Branch database not found after provision''
       | Some r \<Rightarrow> if d_tenant r \<noteq> t then throw FileNotFoundError ''Branch database not found after provision''
           else if d_path r = [] then throw RuntimeError ''Branch database file path unknown''
           else bind (branch_wal_files (site_storage V) t source base target) (\<lambda>files.
             andthen (\<lambda>s. (Inr (), snd (branch_replay (site_storage V) J
                 (\<lambda>q. on_disk (service_execute_query (bk_kuzu V) run (d_path r) q)) target files 0 s)))
             (drop_info V d)))"

definition fill_branch :: "('x, 'b, 'v) backend \<Rightarrow> ('b blob \<Rightarrow> 'b) \<Rightarrow> branch_call \<Rightarrow> uuid \<Rightarrow> uuid \<Rightarrow> snapshot_meta \<Rightarrow>
    (('x, 'b) site, uuid) act" where
  "fill_branch V raw call t d m =
     bind (on_snaps (snapshot_save (bc_copy_id call) t d (sm_key m) (sm_checksum m) (sm_size m) (sm_created m))) (\<lambda>i.
       andthen (restore_database_from_snapshot V raw (bc_tmp call) t d i) (ret i))"

definition create_branch :: "('x, 'b, 'v) backend \<Rightarrow> 'x provisioner \<Rightarrow> branch_deps \<Rightarrow> (string \<Rightarrow> iso_field) \<Rightarrow> ('b blob \<Rightarrow> 'b) \<Rightarrow>
    'b blob codec \<Rightarrow> (path \<Rightarrow> string \<Rightarrow> ('b files, 'row list) act) \<Rightarrow> branch_call \<Rightarrow> branch_request \<Rightarrow>
    (('x, 'b) site, branch_response) act" where
  "create_branch V P D fromiso raw J run call rq =
     (let t = rq_tenant rq in
      bind (of_result (BranchName (rq_branch rq))) (\<lambda>branch.
      bind (branch_base V D fromiso call rq) (\<lambda>(origin, m, span).
      let full = to_full_name branch (rq_source_name rq) in
      bind (provision_tenant_resources V P (bc_provision call) t (Some full)) (\<lambda>p.
      if \<not> bd_snapshots D then throw ValueError ''Snapshot repository not available''
      else bind (fill_branch V raw call t (pr_id p) m) (\<lambda>i.
      andthen (case span of None \<Rightarrow> ret ()
         | Some (base, target) \<Rightarrow> branch_catch_up V J run t (rq_source rq) (pr_id p) base target)
      (andthen (best_effort_event V t ''branch_created'' ''Branch Created''
         (''Branch '' @ [CHR 39] @ full @ [CHR 39] @ '' created from '' @ [CHR 39] @ rq_source_name rq @ [CHR 39])
         [(''branch_name'', rq_branch rq), (''full_name'', full), (''parent_database'', rq_source_name rq),
          (''branch_database_id'', pr_id p), (''snapshot_id'', i)])
      (ret \<lparr>rs_full_name = full, rs_database = pr_id p, rs_snapshot = i, rs_origin = origin,
         rs_created = bc_created call\<rparr>)))))))"

section \<open>Merging and deleting\<close>

definition merge_branch :: "('x, 'b, 'v) backend \<Rightarrow> ('b blob \<Rightarrow> 'b) \<Rightarrow> snapshot_call \<Rightarrow> string \<Rightarrow> uuid \<Rightarrow> uuid \<Rightarrow> string \<Rightarrow>
    uuid \<Rightarrow> string \<Rightarrow> (('x, 'b) site, uuid) act" where
  "merge_branch V raw call tmp t branch_id branch1 target_id target_name =
     bind (create_database_snapshot V call True t branch_id) (\<lambda>snap.
     andthen (restore_database_from_snapshot V raw tmp t target_id (sr_id snap))
     (andthen (best_effort_event V t ''branch_merged'' ''Branch Merged''
        (''Branch '' @ [CHR 39] @ branch1 @ [CHR 39] @ '' merged into '' @ [CHR 39] @ target_name @ [CHR 39])
        [(''branch_name'', branch1), (''target_database'', target_name), (''snapshot_id'', sr_id snap)])
     (ret (sr_id snap))))"

definition delete_branch :: "('x, 'b, 'v) backend \<Rightarrow> 'x event_port \<Rightarrow> uuid \<Rightarrow> uuid \<Rightarrow> string \<Rightarrow> (('x, 'b) site, bool) act" where
  "delete_branch V E t d branch1 =
     bind (delete_kuzu_database V E t d) (\<lambda>success.
       if \<not> success then throw RuntimeError ''Failed to delete branch''
       else andthen (best_effort_event V t ''branch_deleted'' ''Branch Deleted''
           (''Branch '' @ [CHR 39] @ branch1 @ [CHR 39] @ '' has been deleted'')
           [(''branch_name'', branch1), (''branch_database_id'', d)])
         (ret True))"

section \<open>A snapshot belongs to its database\<close>

lemma with_lock_okE:
  assumes "with_lock L res n (throw k m) body s = (Inr y, s')"
  obtains s1 s2 tok b where "acquire_lock L res n s = (Inr (Some tok), s1)" "body s1 = (Inr y, s2)" "release_lock L res tok s2 = (Inr b, s')"
  using assms
  by (auto simp: with_lock_def bind_def throw_def finally_do_def split: prod.splits sum.splits option.splits)

lemma on_ext_frame:
  assumes "on_ext m s = (r, s')"
  shows "dbs_tab s' = dbs_tab s" "snaps_tab s' = snaps_tab s" "disk s' = disk s"
  using assms by (auto simp: on_ext_def split: prod.splits)

lemma site_locks_frame:
  "acquire_lock (site_locks V) res n s = (r, s') \<Longrightarrow> dbs_tab s' = dbs_tab s \<and> snaps_tab s' = snaps_tab s \<and> disk s' = disk s"
  "release_lock (site_locks V) res tok s = (r', s') \<Longrightarrow> dbs_tab s' = dbs_tab s \<and> snaps_tab s' = snaps_tab s \<and> disk s' = disk s"
  by (auto simp: site_locks_def dest: on_ext_frame)

lemma authorize_frame:
  "authorize V t a msg s = (r, s') \<Longrightarrow> dbs_tab s' = dbs_tab s \<and> snaps_tab s' = snaps_tab s \<and> disk s' = disk s"
  by (auto simp: authorize_def dest: on_ext_frame)

lemma drop_info_frame:
  "drop_info V d s = (r, s') \<Longrightarrow> dbs_tab s' = dbs_tab s \<and> snaps_tab s' = snaps_tab s \<and> disk s' = disk s"
  by (auto simp: drop_info_def andthen_def bind_def ret_def dest: on_ext_frame split: prod.splits sum.splits)

lemma snapshot_event_frame:
  "snapshot_event V t d resp s = (r, s') \<Longrightarrow> dbs_tab s' = dbs_tab s \<and> snaps_tab s' = snaps_tab s \<and> disk s' = disk s"
  by (auto simp: snapshot_event_def catch_def bind_def ret_def throw_def on_dbs_def db_find_by_id_def sql_fetchone_def
      dest: on_ext_frame split: prod.splits sum.splits option.splits)

lemma table_map_new: "\<forall>x \<in> set rows. pk x \<noteq> pk r \<Longrightarrow> table_map pk (rows @ [r]) (pk r) = Some r"
  by (induction rows) (auto simp: table_map_def)

text \<open>The row a returned snapshot has left is the one its id finds.\<close>

lemma snapshot_body_row:
  assumes "snapshot_body V call archive t d fp s = (Inr resp, s')"
  shows "\<exists>row. table_map s_id (snaps_tab s') (sr_id resp) = Some row \<and> s_database row = d"
proof -
  obtain p s1 data s2 k s3 u s4 i s5 u' s6 u'' s7 where
    "on_disk (locate_source V fp) s = (Inr p, s1)" "on_disk (archive_database d (sc_tmp call) p) s1 = (Inr data, s2)"
    "on_ext (upload_database (bk_storage V) t d data (snapshot_filename archive call)) s2 = (Inr k, s3)"
    "tag_snapshot V archive call k s3 = (Inr u, s4)"
    and b: "on_snaps (snapshot_save (sc_id call) t d k (bk_digest V data) (bk_size V data) (IsoAware (sc_created call))) s4 = (Inr i, s5)"
    "drop_info V d s5 = (Inr u', s6)" "snapshot_event V t d \<lparr>sr_id = i, sr_key = k, sr_checksum = bk_digest V data,
      sr_size = bk_size V data, sr_created = sc_created call\<rparr> s6 = (Inr u'', s7)"
    and r: "ret \<lparr>sr_id = i, sr_key = k, sr_checksum = bk_digest V data, sr_size = bk_size V data, sr_created = sc_created call\<rparr> s7 = (Inr resp, s')"
    using assms unfolding snapshot_body_def Let_def
    by (elim bind_okE andthen_okE) (rule that)
  have s7: "s' = s7" "sr_id resp = i" using r by (auto simp: ret_def)
  have f: "snaps_tab s' = snaps_tab s5"
    using b(3) s7(1) drop_info_frame [OF b(2)] by (auto dest: snapshot_event_frame)
  let ?r = "\<lparr>s_id = sc_id call, s_tenant = t, s_database = d, s_key = k, s_checksum = bk_digest V data,
    s_size = bk_size V data, s_created = sc_created call\<rparr>"
  have "i = sc_id call \<and> snaps_tab s5 = snaps_tab s4 @ [?r] \<and> (\<forall>x \<in> set (snaps_tab s4). s_id x \<noteq> s_id ?r)"
    using b(1) by (auto simp: on_snaps_def snapshot_save_def stored_time_def sql_insert_def andthen_def bind_def
        of_result_def ret_def list_ex_iff split: prod.splits if_splits)
  then show ?thesis using f s7(2)
    using table_map_new [of "snaps_tab s4" s_id ?r] by (intro exI [of _ ?r]) simp
qed

lemma create_snapshot_row:
  assumes "create_database_snapshot V call archive t d s = (Inr resp, s')"
  shows "\<exists>row. table_map s_id (snaps_tab s') (sr_id resp) = Some row \<and> s_database row = d"
proof -
  obtain fp u where "with_lock (site_locks V) (snapshot_lock d) 10 (throw TimeoutError ''Could not acquire snapshot lock'')
      (snapshot_body V call archive t d fp) u = (Inr resp, s')"
    using assms unfolding create_database_snapshot_def by (elim andthen_okE bind_okE)
  then obtain s1 s2 tok b where "snapshot_body V call archive t d fp s1 = (Inr resp, s2)"
    "release_lock (site_locks V) (snapshot_lock d) tok s2 = (Inr b, s')"
    by (elim with_lock_okE)
  then show ?thesis using snapshot_body_row site_locks_frame(2) by metis
qed

text \<open>Another database's snapshot is refused before anything is changed.\<close>

lemma restore_refuses_other:
  assumes "table_map s_id (snaps_tab s) i = Some row" "s_database row \<noteq> d"
  shows "\<exists>e s'. restore_database_from_snapshot V raw tmp t d i s = (Inl e, s') \<and>
    dbs_tab s' = dbs_tab s \<and> snaps_tab s' = snaps_tab s \<and> disk s' = disk s"
proof -
  obtain r s1 where a: "authorize V t ''restore'' ''Not authorized to restore database'' s = (r, s1)" by (metis surj_pair)
  have f: "dbs_tab s1 = dbs_tab s \<and> snaps_tab s1 = snaps_tab s \<and> disk s1 = disk s" by (rule authorize_frame [OF a])
  have n: "find_snapshot_of d i s1 = (raise FileNotFoundError ''Snapshot not found'', s1)"
    using f assms by (simp add: find_snapshot_run)
  obtain q s2 where p: "database_path t d s1 = (q, s2)" by (metis surj_pair)
  then have "s2 = s1"
    by (auto simp: database_path_def bind_def on_dbs_def db_find_by_id_def sql_fetchone_def throw_def ret_def
        split: option.splits if_splits)
  with p have p: "database_path t d s1 = (q, s1)" by simp
  show ?thesis
  proof (cases r)
    case (Inl e)
    with a f show ?thesis by (simp add: restore_database_from_snapshot_def andthen_def bind_def)
  next
    case (Inr u)
    with a f p n show ?thesis
      by (cases q) (simp_all add: restore_database_from_snapshot_def andthen_def bind_def)
  qed
qed

section \<open>Properties\<close>

text \<open>C19: Merging a branch into another database never succeeds, whatever the services do: the snapshot it takes is
  the branch's, and the restore accepts only snapshots of the target. The target's tables and files stay as the
  snapshot left them; when the snapshot was taken, its row and object are what remains of the attempt.\<close>

theorem merge_never_merges:
  assumes "branch_id \<noteq> target_id"
  shows "\<exists>e s'. merge_branch V raw call tmp t branch_id branch1 target_id target_name s = (Inl e, s') \<and>
    (\<forall>snap s1. create_database_snapshot V call True t branch_id s = (Inr snap, s1) \<longrightarrow>
       dbs_tab s' = dbs_tab s1 \<and> snaps_tab s' = snaps_tab s1 \<and> disk s' = disk s1)"
proof -
  obtain r s1 where c: "create_database_snapshot V call True t branch_id s = (r, s1)" by (metis surj_pair)
  show ?thesis
  proof (cases r)
    case (Inl e)
    with c show ?thesis by (simp add: merge_branch_def bind_def)
  next
    case (Inr snap)
    with c obtain row where row: "table_map s_id (snaps_tab s1) (sr_id snap) = Some row" "s_database row = branch_id"
      using create_snapshot_row by blast
    then obtain e s' where "restore_database_from_snapshot V raw tmp t target_id (sr_id snap) s1 = (Inl e, s')"
      "dbs_tab s' = dbs_tab s1 \<and> snaps_tab s' = snaps_tab s1 \<and> disk s' = disk s1"
      using restore_refuses_other [OF row(1), of target_id V raw tmp t] row(2) assms by blast
    with c Inr show ?thesis by (simp add: merge_branch_def andthen_def bind_def)
  qed
qed

text \<open>On a site where the branch can be snapshotted, the merge fails all the same.\<close>

theorem merge_never_merges_witness:
  "\<exists>snap s1 e s'. create_database_snapshot demo_backend demo_call True ''t'' ''d'' demo_site = (Inr snap, s1) \<and>
    merge_branch demo_backend (\<lambda>_. 0) demo_call ''n'' ''t'' ''d'' ''main--branch--x'' ''e'' ''main'' demo_site = (Inl e, s') \<and>
    disk s' = disk s1"
proof -
  obtain snap s1 where c: "create_database_snapshot demo_backend demo_call True ''t'' ''d'' demo_site = (Inr snap, s1)"
    by (rule site_services.create_snapshot_run [OF demo_services demo_can_snapshot])
  have "''d'' \<noteq> ''e''" by simp
  from merge_never_merges [OF this, of demo_backend "\<lambda>_. 0" demo_call "''n''" "''t''" "''main--branch--x''" "''main''" demo_site] c
  show ?thesis by blast
qed

end
