(* ===== verification/PITR_Restore.thy ===== *)
theory PITR_Restore
  imports Branching
begin

text \<open>
  Restoring a database to a point in time (\<open>restore_database_pitr.py\<close>) and previewing it
  (\<open>preview_database_pitr.py\<close>): the nearest snapshot is put in place, then the log is replayed. The
  searches and the replays are those of \<open>Nearest_Snapshot\<close>, \<open>WAL_Files\<close> and \<open>PITR_Replay\<close>.
\<close>

section \<open>Putting the snapshot in place\<close>

text \<open>\<open>p.name\<close>, and \<open>p.with_name(p.name + suffix)\<close>.\<close>

definition name_of :: "path \<Rightarrow> string" where
  "name_of p = (if p = [] then [] else last p)"

definition beside :: "path \<Rightarrow> string \<Rightarrow> path" where
  "beside p sfx = butlast p @ [name_of p @ sfx]"

text \<open>The staged directory takes the place of the database's, which is kept under another name.\<close>

definition swap_directory :: "path \<Rightarrow> path \<Rightarrow> path \<Rightarrow> path \<Rightarrow> ('b files, unit) act" where
  "swap_directory content staged backup target_dir =
     andthen (mkdirs (butlast target_dir)) (andthen (os_replace content staged)
       (andthen (\<lambda>v. guard_do (fs_exists v target_dir) (os_replace target_dir backup) v)
         (os_replace staged target_dir)))"

definition pitr_unpack :: "'b blob \<Rightarrow> path \<Rightarrow> string \<times> string \<Rightarrow> path \<Rightarrow> ('b files, unit) act" where
  "pitr_unpack data tmp stamps target_dir = andthen (tar_extract data tmp) (\<lambda>v.
     case filter (is_dir v) (iterdir v tmp) of
       [content] \<Rightarrow>
         if name_of content \<noteq> name_of target_dir then (raise ValueError ''Invalid snapshot root directory'', v)
         else if \<not> fs_exists v (content @ [data_kuzu]) then (raise ValueError ''Invalid snapshot: data.kuzu not found'', v)
         else swap_directory content (beside target_dir (''.pitr_stage_'' @ snd stamps))
           (beside target_dir (''.pitr_bak_'' @ fst stamps)) target_dir v
     | _ \<Rightarrow> (raise ValueError ''Invalid snapshot layout: expected a single top-level directory'', v))"

definition pitr_restore_files :: "('b blob \<Rightarrow> 'b) \<Rightarrow> string \<Rightarrow> 'b blob \<Rightarrow> string \<Rightarrow> string \<times> string \<Rightarrow> path \<Rightarrow> ('b files, unit) act" where
  "pitr_restore_files raw k data tmp_name stamps target = (let tmp = butlast target @ [tmp_name] in
     andthen (mkdirs (butlast target)) (andthen (mkdtemp tmp)
       (finally_do (if endswith k ''.tar.gz'' then pitr_unpack data tmp stamps (butlast target)
          else andthen (write_bytes (beside target ''.tmp'') (raw data)) (os_replace (beside target ''.tmp'') target))
          (remove_temp tmp))))"

section \<open>The restore\<close>

record pitr_call =
  pi_now :: dt
  pi_tmp :: string
  pi_stamps :: "string \<times> string"
  pi_snapshot :: snapshot_call

record pitr_settings =
  archive_after :: bool
  delete_replayed :: bool

record pitr_response =
  pi_used :: uuid
  pi_replayed :: nat
  pi_archived :: "uuid option"

definition pitr_lock :: "uuid \<Rightarrow> string" where
  "pitr_lock d = ''db:'' @ d @ '':pitr_restore''"

definition pitr_replay :: "('x, 'b, 'v) backend \<Rightarrow> 'b blob codec \<Rightarrow> (path \<Rightarrow> string \<Rightarrow> ('b files, 'row list) act) \<Rightarrow>
    string \<Rightarrow> dt \<Rightarrow> wal_file list \<Rightarrow> (('x, 'b) site, nat) act" where
  "pitr_replay V J run file_path target files s = (case replay_wal_files (site_storage V) J
     (\<lambda>q. on_disk (service_execute_query (bk_kuzu V) run file_path q)) target files 0 s of (n, s') \<Rightarrow> (Inr n, s'))"

definition pitr_archive :: "('x, 'b, 'v) backend \<Rightarrow> pitr_settings \<Rightarrow> pitr_call \<Rightarrow> uuid \<Rightarrow> uuid \<Rightarrow> (('x, 'b) site, uuid option) act" where
  "pitr_archive V cfg call t d = (if \<not> archive_after cfg then ret None
     else catch (bind (create_database_snapshot V (pi_snapshot call) True t d) (\<lambda>r. ret (Some (sr_id r)))) (\<lambda>_. ret None))"

definition delete_wal :: "('x, 'b, 'v) backend \<Rightarrow> wal_file list \<Rightarrow> (('x, 'b) site, unit) act" where
  "delete_wal V = for_each (\<lambda>f. catch (andthen (on_ext (delete_object (bk_storage V) (wf_key f))) (ret ())) (\<lambda>_. ret ()))"

definition pitr_event :: "('x, 'b, 'v) backend \<Rightarrow> uuid \<Rightarrow> uuid \<Rightarrow> dt \<Rightarrow> uuid \<Rightarrow> nat \<Rightarrow> (('x, 'b) site, unit) act" where
  "pitr_event V t d target used n = (case bk_events V of None \<Rightarrow> ret ()
     | Some E \<Rightarrow> catch (bind (on_dbs (db_find_by_id d)) (\<lambda>info. case info of
           None \<Rightarrow> throw AttributeError ''NoneType object has no attribute get''
         | Some r \<Rightarrow> on_ext (emit E t ''database_restored'' ''Database Restored''
             (''Database '' @ [CHR 39] @ d_name r @ [CHR 39] @ '' restored to '' @ strftime_compact target)
             [(''database_id'', d), (''target_timestamp'', strftime_compact target), (''snapshot_used'', used),
              (''wal_files_replayed'', py_str_nat n)]))) (\<lambda>_. ret ()))"

definition pitr_body :: "('x, 'b, 'v) backend \<Rightarrow> ('b blob \<Rightarrow> 'b) \<Rightarrow> 'b blob codec \<Rightarrow>
    (path \<Rightarrow> string \<Rightarrow> ('b files, 'row list) act) \<Rightarrow> pitr_settings \<Rightarrow> pitr_call \<Rightarrow> uuid \<Rightarrow> uuid \<Rightarrow> dt \<Rightarrow> string \<Rightarrow> snapshot \<Rightarrow>
    (('x, 'b) site, pitr_response) act" where
  "pitr_body V raw J run cfg call t d target file_path snap =
     bind (on_ext (download_database (bk_storage V) (snap_object_key snap))) (\<lambda>data.
     andthen (on_disk (pitr_restore_files raw (snap_object_key snap) data (''pitr_restore_'' @ pi_tmp call) (pi_stamps call)
       (path_of file_path)))
     (bind (find_wal_files_in_range (site_storage V) t d (snap_time snap) target) (\<lambda>files.
     bind (if files = [] then ret 0 else pitr_replay V J run file_path target files) (\<lambda>n.
     andthen (drop_info V d)
     (bind (pitr_archive V cfg call t d) (\<lambda>archived.
     andthen (guard_do (archived \<noteq> None \<and> files \<noteq> [] \<and> delete_replayed cfg) (delete_wal V files))
     (andthen (pitr_event V t d target (snap_id snap) n)
     (ret \<lparr>pi_used = snap_id snap, pi_replayed = n, pi_archived = archived\<rparr>))))))))"

definition nearest_for_restore :: "uuid \<Rightarrow> dt \<Rightarrow> (('x, 'b) site, snapshot) act" where
  "nearest_for_restore d target = bind (on_snaps (snapshot_list d None)) (\<lambda>rows.
     bind (of_result (restore_nearest (map snapshot_dict rows) target)) (\<lambda>s. case s of
         None \<Rightarrow> throw FileNotFoundError ''No snapshot found before target'' | Some n \<Rightarrow> ret n))"

definition restore_database_pitr :: "('x, 'b, 'v) backend \<Rightarrow> ('b blob \<Rightarrow> 'b) \<Rightarrow> 'b blob codec \<Rightarrow>
    (path \<Rightarrow> string \<Rightarrow> ('b files, 'row list) act) \<Rightarrow> pitr_settings \<Rightarrow> pitr_call \<Rightarrow> uuid \<Rightarrow> uuid \<Rightarrow> dt \<Rightarrow>
    (('x, 'b) site, pitr_response) act" where
  "restore_database_pitr V raw J run cfg call t d target =
     andthen (authorize V t ''restore'' ''Not authorized to restore database'')
     (if pi_now call < target then throw ValueError ''Cannot restore to future timestamp''
      else bind (database_path t d) (\<lambda>file_path.
        bind (nearest_for_restore d target) (\<lambda>snap.
        with_lock (site_locks V) (pitr_lock d) 60 (throw TimeoutError ''Could not acquire PITR restore lock'')
          (pitr_body V raw J run cfg call t d target file_path snap))))"

section \<open>The preview\<close>

text \<open>\<open>shutil.move(a, b)\<close>: into \<open>b\<close> when that is a directory.\<close>

definition move_into :: "path \<Rightarrow> path \<Rightarrow> ('b files, unit) act" where
  "move_into a b v = (let real = (if is_dir v b then b @ [last a] else b) in
     if is_dir v b \<and> fs_exists v real then (raise OtherError ''Destination path already exists'', v)
     else os_replace a real v)"

definition preview_restore_files :: "('b blob \<Rightarrow> 'b) \<Rightarrow> string \<Rightarrow> 'b blob \<Rightarrow> path \<Rightarrow> ('b files, unit) act" where
  "preview_restore_files raw k data target =
     (if endswith k ''.tar.gz'' then andthen (tar_extract data (butlast target)) (\<lambda>v.
        case List.find (\<lambda>e. is_dir v e \<and> e \<noteq> target \<and> fs_exists v (e @ [data_kuzu])) (iterdir v (butlast target)) of
          None \<Rightarrow> (Inr (), v) | Some e \<Rightarrow> move_into (e @ [data_kuzu]) target v)
      else write_bytes target (raw data))"

record 'row preview_response =
  pw_used :: string
  pw_files :: nat
  pw_query :: string
  pw_rows :: "'row list"

text \<open>The temporary directory is removed whatever happened in it.\<close>

definition preview_body :: "('x, 'b, 'v) backend \<Rightarrow> ('b blob \<Rightarrow> 'b) \<Rightarrow> 'b blob codec \<Rightarrow>
    (path \<Rightarrow> string \<Rightarrow> ('b files, 'row list) act) \<Rightarrow> dt \<Rightarrow> string option \<Rightarrow> path \<Rightarrow> snapshot \<Rightarrow> wal_file list \<Rightarrow>
    (('x, 'b) site, 'row preview_response) act" where
  "preview_body V raw J run target query db_path snap files =
     bind (on_ext (download_database (bk_storage V) (snap_object_key snap))) (\<lambda>data.
     andthen (on_disk (preview_restore_files raw (snap_object_key snap) data db_path))
     (andthen (\<lambda>s. (Inr (), preview_replay (site_storage V) J
         (\<lambda>q. on_disk (andthen (bk_kuzu V db_path) (andthen (run db_path q) (ret ())))) target files s))
     (let q = (case query of Some (c # cs) \<Rightarrow> c # cs | _ \<Rightarrow> ''MATCH (n) RETURN n LIMIT 100'') in
      bind (on_disk (andthen (bk_kuzu V db_path) (run db_path q))) (\<lambda>res.
      ret \<lparr>pw_used = snap_object_key snap, pw_files = length files, pw_query = q, pw_rows = res\<rparr>))))"

definition drop_preview :: "path \<Rightarrow> (('x, 'b) site, unit) act" where
  "drop_preview tmp = catch (on_disk (rmtree tmp)) (\<lambda>_. ret ())"

definition preview_database_pitr :: "('x, 'b, 'v) backend \<Rightarrow> ('b blob \<Rightarrow> 'b) \<Rightarrow> 'b blob codec \<Rightarrow>
    (path \<Rightarrow> string \<Rightarrow> ('b files, 'row list) act) \<Rightarrow> path \<Rightarrow> uuid \<Rightarrow> uuid \<Rightarrow> dt \<Rightarrow> string option \<Rightarrow>
    (('x, 'b) site, 'row preview_response) act" where
  "preview_database_pitr V raw J run tmp t d target query =
     andthen (authorize V t ''read'' ''Not authorized to preview database'')
     (bind (on_snaps (snapshot_list d (Some t))) (\<lambda>rows.
      bind (of_result (preview_nearest (map snapshot_dict rows) target)) (\<lambda>found. case found of
        None \<Rightarrow> throw FileNotFoundError ''No snapshot found before target''
      | Some snap \<Rightarrow> bind (preview_wal_files (site_storage V) t d (snap_time snap) target) (\<lambda>files.
          andthen (on_disk (mkdtemp tmp))
          (finally_do (preview_body V raw J run target query (tmp @ [''preview.kuzu'']) snap files) (drop_preview tmp))))))"

section \<open>What the swap leaves\<close>

lemma iterdir_fresh: "fresh_path v p \<Longrightarrow> iterdir v p = []"
  by (auto simp: iterdir_def fresh_path_def filter_empty_conv map_of_eq_None_iff)

lemma os_replace_move:
  assumes "map_of v a = Some Dir" "map_of v (butlast b) = Some Dir" "\<not> prefix a b" "fresh_path v b"
  shows "os_replace a b v = (Inr (), graft b (subtree a v) (cut a v))"
proof -
  have "map_of v b = None" using assms(4) by (simp add: fresh_path_def)
  then show ?thesis using assms(1-3) iterdir_fresh [OF assms(4)] by (simp add: os_replace_def fs_simps)
qed

text \<open>The directory of a database that holds the archived one, and the one that was there.\<close>

definition restored_dir :: "(path \<Rightarrow> 'b node option) \<Rightarrow> path \<Rightarrow> 'b node option" where
  "restored_dir T r = (case r of [] \<Rightarrow> Some Dir | y # r' \<Rightarrow> if y = data_kuzu then T r' else None)"

definition kept_dir :: "string \<Rightarrow> (path \<Rightarrow> 'b node option) \<Rightarrow> path \<Rightarrow> 'b node option" where
  "kept_dir n U r = (if prefix [n] r then (if r = [n] then Some Dir else None) else U r)"

lemma swap_run:
  fixes v w :: "'b files"
  assumes names: "sn \<noteq> d" "bn \<noteq> d" "sn \<noteq> bn" and dirs: "dirs_to v par" "map_of v (par @ [d]) = Some Dir"
    and fresh: "fresh_path v (par @ [sn])" "fresh_path v (par @ [bn])"
    and w: "\<And>q. map_of w q = (if prefix (par @ [d, n]) q
      then (if q = par @ [d, n] then Some Dir else map_of t (drop (length (par @ [d, n])) q)) else map_of v q)"
    and t: "archive_of d T t"
  obtains v' where "swap_directory (par @ [d, n, d]) (par @ [sn]) (par @ [bn]) (par @ [d]) w = (Inr (), v')"
    "\<And>r. map_of v' (par @ d # r) = restored_dir T r" "\<And>r. map_of v' (par @ bn # r) = kept_dir n (\<lambda>r. map_of v (par @ d # r)) r"
    "\<And>r. map_of v' (par @ sn # r) = None"
    "\<And>q. \<not> prefix (par @ [d]) q \<Longrightarrow> \<not> prefix (par @ [bn]) q \<Longrightarrow> \<not> prefix (par @ [sn]) q \<Longrightarrow> map_of v' q = map_of v q"
proof -
  let ?td = "par @ [d]" and ?st = "par @ [sn]" and ?bk = "par @ [bn]" and ?c = "par @ [d, n, d]"
  define w1 where "w1 = graft ?st (subtree ?c w) (cut ?c w)"
  define w2 where "w2 = graft ?bk (subtree ?td w1) (cut ?td w1)"
  define w3 where "w3 = graft ?td (subtree ?st w2) (cut ?st w2)"
  have par: "\<not> prefix (par @ x # r) par" for x r by (auto dest: prefix_length_le)
  have wc: "map_of w (par @ d # n # d # r) = restored_dir T r" for r
    using archive_ofD [OF t] by (cases r) (auto simp: w restored_dir_def archive_of_def [of d T t, THEN iffD1, OF t, THEN spec])
  have wd: "map_of w (par @ d # r) = (if prefix [n] r then (if r = [n] then Some Dir else map_of t (tl r)) else map_of v (par @ d # r))" for r
    by (cases r) (auto simp: w)
  have wo: "map_of w (par @ x # r) = map_of v (par @ x # r)" if "x \<noteq> d" for x r using that by (simp add: w)
  have dir: "map_of w q = Some Dir" if "prefix q par" for q
    using that dirs(1) par by (auto simp: w dirs_to_def dest: prefix_order.order_trans)
  have m: "mkdirs par w = (Inr (), w)" by (rule dirs_to_mkdirs) (simp add: dirs_to_def dir)
  have fr: "map_of v (par @ sn # r) = None" "map_of v (par @ bn # r) = None" for r
    using fresh by (auto simp: fresh_path_def)
  have o1: "os_replace ?c ?st w = (Inr (), w1)"
    unfolding w1_def
  proof (rule os_replace_move)
    show "map_of w ?c = Some Dir" using wc [of "[]"] by (simp add: restored_dir_def)
    show "map_of w (butlast ?st) = Some Dir" by (simp add: butlast_append dir)
    show "\<not> prefix ?c ?st" by simp
    show "fresh_path w ?st" using names(1) fr(1) by (auto simp: fresh_path_def wo elim!: prefixE)
  qed
  have o2: "os_replace ?td ?bk w1 = (Inr (), w2)"
    unfolding w2_def
  proof (rule os_replace_move)
    show "map_of w1 ?td = Some Dir" using names(1) wd [of "[]"] dirs(2) by (simp add: w1_def)
    show "map_of w1 (butlast ?bk) = Some Dir" using par by (simp add: butlast_append w1_def dir)
    show "\<not> prefix ?td ?bk" using names(2) by simp
    show "fresh_path w1 ?bk" using names fr(2) by (auto simp: fresh_path_def w1_def wo elim!: prefixE)
  qed
  have o3: "os_replace ?st ?td w2 = (Inr (), w3)"
    unfolding w3_def
  proof (rule os_replace_move)
    show "map_of w2 ?st = Some Dir" using names wc [of "[]"] by (simp add: w2_def w1_def restored_dir_def)
    show "map_of w2 (butlast ?td) = Some Dir" using par by (simp add: butlast_append w2_def w1_def dir)
    show "\<not> prefix ?st ?td" using names(1) by simp
    show "fresh_path w2 ?td" using names by (auto simp: fresh_path_def w2_def elim!: prefixE)
  qed
  have ex: "fs_exists w1 ?td" using names(1) wd [of "[]"] dirs(2) by (simp add: w1_def fs_simps)
  have "swap_directory ?c ?st ?bk ?td w = (Inr (), w3)"
    by (simp add: swap_directory_def andthen_def bind_def butlast_append m o1 ex guard_do_def o2 o3)
  moreover have "map_of w3 (par @ d # r) = restored_dir T r" for r
    using names wc [of r] by (simp add: w3_def w2_def w1_def)
  moreover have "map_of w3 (par @ bn # r) = kept_dir n (\<lambda>r. map_of v (par @ d # r)) r" for r
  proof -
    have "map_of w3 (par @ bn # r) = (if prefix [n, d] r then None else map_of w (par @ d # r))"
      using names by (simp add: w3_def w2_def w1_def)
    moreover have "map_of t r' = None" if "\<not> prefix [d] r'" for r'
      using t that by (auto simp: archive_of_def split: list.split)
    ultimately show ?thesis by (cases r) (auto simp: wd kept_dir_def)
  qed
  moreover have "map_of w3 (par @ sn # r) = None" for r
    using names by (simp add: w3_def)
  moreover have "map_of w3 q = map_of v q" if "\<not> prefix ?td q" "\<not> prefix ?bk q" "\<not> prefix ?st q" for q
  proof -
    have "\<not> prefix ?c q" "\<not> prefix (par @ [d, n]) q"
      using that(1) by (auto simp: prefix_def)
    with that show ?thesis by (simp add: w3_def w2_def w1_def w)
  qed
  ultimately show thesis using that by blast
qed

lemma pitr_restore_files_run:
  assumes "archive_of d T t" "T [] \<noteq> None" "endswith k ''.tar.gz''" "dirs_to v (par @ [d])"
    and "fresh_path v (par @ [d, n])" "fresh_path v (par @ [d @ ''.pitr_stage_'' @ snd stamps])"
      "fresh_path v (par @ [d @ ''.pitr_bak_'' @ fst stamps])" "n \<noteq> data_kuzu"
  obtains v' where "pitr_restore_files raw k (TarGz t) n stamps (par @ [d, data_kuzu]) v = (Inr (), v')"
    "\<And>r. map_of v' (par @ d # r) = restored_dir T r"
    "\<And>r. map_of v' (par @ (d @ ''.pitr_bak_'' @ fst stamps) # r) = kept_dir n (\<lambda>r. map_of v (par @ d # r)) r"
    "\<And>q. \<not> prefix (par @ [d]) q \<Longrightarrow> \<not> prefix (par @ [d @ ''.pitr_bak_'' @ fst stamps]) q \<Longrightarrow> map_of v' q = map_of v q"
proof -
  define sn where "sn = d @ ''.pitr_stage_'' @ snd stamps"
  define bn where "bn = d @ ''.pitr_bak_'' @ fst stamps"
  have names: "sn \<noteq> d" "bn \<noteq> d" "sn \<noteq> bn" by (simp_all add: sn_def bn_def)
  let ?td = "par @ [d]" and ?tmp = "par @ [d, n]"
  have b: "butlast (par @ [d, data_kuzu]) = ?td" "butlast ?tmp = ?td" by (simp_all add: butlast_append)
  have td: "map_of v ?td = Some Dir" "dirs_to v par"
    using assms(4) by (auto simp: dirs_to_def)
  have mt: "mkdtemp ?tmp v = (Inr (), (?tmp, Dir) # v)"
    using assms(5) td(1) by (intro mkdtemp_run) (simp_all add: b fresh_path_def)
  obtain w where tx: "tar_extract (TarGz t) ?tmp ((?tmp, Dir) # v) = (Inr (), w)"
    and w: "\<And>q. map_of w q = (if prefix ?tmp q then (if q = ?tmp then Some Dir else map_of t (drop (length ?tmp) q)) else map_of v q)"
    using tar_extract_run [OF assms(1,5)] by blast
  have wt: "map_of w (?tmp @ r) = (if r = [] then Some Dir else map_of t r)" for r by (simp add: w)
  have "iterdir w ?tmp = [?tmp @ [d]]"
  proof (rule iterdir_single)
    fix q
    show "map_of w q \<noteq> None \<and> prefix ?tmp q \<and> length q = Suc (length ?tmp) \<longleftrightarrow> q = ?tmp @ [d]"
    proof
      assume q: "map_of w q \<noteq> None \<and> prefix ?tmp q \<and> length q = Suc (length ?tmp)"
      then obtain x where "q = ?tmp @ [x]" by (auto simp: prefix_def length_Suc_conv [of _ 0])
      with q wt [of "[x]"] archive_ofD(2) [OF assms(1), of x] show "q = ?tmp @ [d]" by (auto split: if_splits)
    qed (use wt [of "[d]"] archive_ofD(2) [OF assms(1), of d] in auto)
  qed
  moreover have "is_dir w (?tmp @ [d])" using wt [of "[d]"] archive_ofD(2) [OF assms(1), of d] by (simp add: fs_simps)
  moreover have "fs_exists w (?tmp @ [d, data_kuzu])"
    using wt [of "[d, data_kuzu]"] archive_ofD(3) [OF assms(1), of "[]"] assms(2) by (simp add: fs_simps)
  moreover have "name_of (?tmp @ [d]) = d" "name_of ?td = d" "beside ?td x = par @ [d @ x]" for x
    by (simp_all add: name_of_def beside_def butlast_append)
  ultimately have u: "pitr_unpack (TarGz t) ?tmp stamps ?td ((?tmp, Dir) # v) = swap_directory (par @ [d, n, d]) (par @ [sn]) (par @ [bn]) ?td w"
    by (simp add: pitr_unpack_def andthen_def bind_def tx sn_def bn_def)
  obtain v' where v': "swap_directory (par @ [d, n, d]) (par @ [sn]) (par @ [bn]) ?td w = (Inr (), v')"
    "\<And>r. map_of v' (par @ d # r) = restored_dir T r" "\<And>r. map_of v' (par @ bn # r) = kept_dir n (\<lambda>r. map_of v (par @ d # r)) r"
    "\<And>r. map_of v' (par @ sn # r) = None"
    "\<And>q. \<not> prefix (par @ [d]) q \<Longrightarrow> \<not> prefix (par @ [bn]) q \<Longrightarrow> \<not> prefix (par @ [sn]) q \<Longrightarrow> map_of v' q = map_of v q"
    using swap_run [OF names td(2,1) assms(6,7) [folded sn_def bn_def] w assms(1)] by blast
  have "\<not> is_dir v' ?tmp" using v'(2) [of "[n]"] assms(8) by (simp add: fs_simps restored_dir_def)
  then have "pitr_restore_files raw k (TarGz t) n stamps (par @ [d, data_kuzu]) v = (Inr (), v')"
    using assms(3) by (simp add: pitr_restore_files_def Let_def b andthen_def bind_def dirs_to_mkdirs [OF assms(4)] mt
        finally_do_def u v'(1) remove_temp_def)
  moreover have "map_of v' q = map_of v q" if "\<not> prefix (par @ [d]) q" "\<not> prefix (par @ [bn]) q" for q
  proof (cases "prefix (par @ [sn]) q")
    case True
    then obtain r where q: "q = par @ sn # r" by (auto elim: prefixE)
    with assms(6) v'(4) [of r] show ?thesis by (simp add: fresh_path_def sn_def)
  qed (use that v'(5) in blast)
  ultimately show thesis using that v'(2,3) by (simp add: bn_def)
qed

section \<open>What stays below a directory\<close>

definition below :: "path \<Rightarrow> 'b files \<Rightarrow> 'b files \<Rightarrow> bool" where
  "below dir v v' \<longleftrightarrow> (\<forall>q. \<not> strict_prefix dir q \<longrightarrow> map_of v' q = map_of v q)"

definition confined :: "path \<Rightarrow> ('b files, 'a) act \<Rightarrow> bool" where
  "confined dir m \<longleftrightarrow> (\<forall>v. below dir v (snd (m v)))"

lemma below_refl [simp]: "below dir v v"
  by (simp add: below_def)

lemma below_trans: "below dir u v \<Longrightarrow> below dir v w \<Longrightarrow> below dir u w"
  by (simp add: below_def)

lemma confined_bind:
  assumes "confined dir m" "\<And>x. confined dir (f x)"
  shows "confined dir (bind m f)"
  unfolding confined_def
proof
  fix v
  obtain r w where m: "m v = (r, w)" by (metis surj_pair)
  have b: "below dir v w" using assms(1) m by (auto simp: confined_def dest: spec [of _ v])
  show "below dir v (snd (bind m f v))"
  proof (cases r)
    case (Inl e)
    with m b show ?thesis by (simp add: bind_def)
  next
    case (Inr x)
    with m b assms(2) [of x] show ?thesis by (auto simp: bind_def confined_def intro: below_trans dest: spec [of _ w])
  qed
qed

lemma confined_andthen: "confined dir m \<Longrightarrow> confined dir k \<Longrightarrow> confined dir (andthen m k)"
  unfolding andthen_def by (rule confined_bind)

lemma confined_ret: "confined dir (ret x)"
  by (simp add: confined_def ret_def)

lemma tar_extract_below: "confined dir (tar_extract data dir)"
proof -
  have "map_of (map (\<lambda>(r, n). (dir @ r, n)) (filter (\<lambda>(r, n). r \<noteq> []) t)) q = None" if "\<not> strict_prefix dir q" for t :: "'b files" and q
    using that by (induction t) (auto simp: strict_prefix_def)
  note none = this
  show ?thesis
    unfolding confined_def below_def
  proof (intro allI impI)
    fix v q
    assume q: "\<not> strict_prefix dir q"
    show "map_of (snd (tar_extract data dir v)) q = map_of v q"
      by (cases data) (simp_all add: tar_extract_def map_add_def none [OF q])
  qed
qed

lemma os_replace_below:
  assumes "strict_prefix dir a" "strict_prefix dir b"
  shows "confined dir (os_replace a b)"
proof -
  have "\<not> prefix a q" "\<not> prefix b q" if "\<not> strict_prefix dir q" for q
    using that assms prefix_order.less_le_trans by blast+
  then show ?thesis by (simp add: confined_def below_def os_replace_def)
qed

lemma strict_prefix_append: "strict_prefix dir p \<Longrightarrow> strict_prefix dir (p @ r)"
  by (metis prefix_order.less_le_trans prefixI)

lemma iterdir_below: "e \<in> set (iterdir v dir) \<Longrightarrow> strict_prefix dir e"
  by (auto simp: iterdir_def strict_prefix_def)

lemma move_into_below: "strict_prefix dir a \<Longrightarrow> strict_prefix dir b \<Longrightarrow> confined dir (move_into a b)"
  unfolding confined_def move_into_def Let_def
  using os_replace_below [of dir a] strict_prefix_append [of dir b "[last a]"] by (auto simp: confined_def)

lemma write_bytes_below: "strict_prefix dir p \<Longrightarrow> confined dir (write_bytes p c)"
  by (auto simp: confined_def write_bytes_def below_def)

lemma preview_restore_below: "confined dir (preview_restore_files (raw :: 'b blob \<Rightarrow> 'b) k data (dir @ [x]))"
proof -
  have "confined dir (\<lambda>v :: 'b files. case List.find (\<lambda>e. is_dir v e \<and> e \<noteq> dir @ [x] \<and> fs_exists v (e @ [data_kuzu])) (iterdir v dir) of
          None \<Rightarrow> (Inr (), v) | Some e \<Rightarrow> move_into (e @ [data_kuzu]) (dir @ [x]) v)"
    unfolding confined_def
  proof
    fix v :: "'b files"
    show "below dir v (snd (case List.find (\<lambda>e. is_dir v e \<and> e \<noteq> dir @ [x] \<and> fs_exists v (e @ [data_kuzu])) (iterdir v dir) of
          None \<Rightarrow> (Inr (), v) | Some e \<Rightarrow> move_into (e @ [data_kuzu]) (dir @ [x]) v))"
    proof (cases "List.find (\<lambda>e. is_dir v e \<and> e \<noteq> dir @ [x] \<and> fs_exists v (e @ [data_kuzu])) (iterdir v dir)")
      case (Some e)
      then have "e \<in> set (iterdir v dir)" by (auto simp: find_Some_iff)
      then have "strict_prefix dir (e @ [data_kuzu])" by (intro strict_prefix_append iterdir_below)
      then have "confined dir (move_into (e @ [data_kuzu]) (dir @ [x]) :: ('b files, unit) act)" by (rule move_into_below) (simp add: strict_prefix_def)
      then show ?thesis unfolding Some by (simp add: confined_def)
    qed simp
  qed
  then show ?thesis
    using tar_extract_below [of dir data] write_bytes_below [of dir "dir @ [x]" "raw data"]
    by (simp add: preview_restore_files_def confined_andthen strict_prefix_def)
qed

section \<open>A preview leaves no trace\<close>

text \<open>The tables, and the disk but for what is below a directory.\<close>

definition untouched :: "path \<Rightarrow> ('x, 'b) site \<Rightarrow> ('x, 'b) site \<Rightarrow> bool" where
  "untouched dir s s' \<longleftrightarrow> dbs_tab s' = dbs_tab s \<and> snaps_tab s' = snaps_tab s \<and> below dir (disk s) (disk s')"

lemma on_disk_untouched: "confined dir m \<Longrightarrow> keeps (untouched dir s) (on_disk m)"
  by (auto simp: keeps_def untouched_def on_disk_def confined_def intro: below_trans split: prod.splits)
    (metis below_trans snd_conv)

lemma on_ext_untouched: "keeps (untouched dir s) (on_ext m)"
  by (auto simp: keeps_def untouched_def dest: on_ext_frame split: prod.splits) (metis on_ext_frame surj_pair snd_conv)+

lemma preview_lines_keeps:
  assumes "\<And>q. keeps P (exec q)"
  shows "P w \<Longrightarrow> P (preview_lines exec target bound ls w)"
proof (induction ls arbitrary: bound w)
  case (Cons l ls)
  have e: "P w \<Longrightarrow> P (snd (exec q w))" for q w using assms [of q] by (simp add: keeps_def)
  show ?case
  proof (cases l)
    case (Entry ts query rs n)
    then show ?thesis using Cons e by (auto split: sum.splits bool.splits)
  qed (use Cons in auto)
qed simp

lemma preview_replay_keeps:
  assumes "\<And>q. keeps P (exec q)" "\<And>k. keeps P (download_database S k)"
  shows "P w \<Longrightarrow> P (preview_replay S J exec target fs w)"
proof (induction fs arbitrary: w)
  case (Cons f fs)
  obtain r w1 where d: "download_database S (wf_key f) w = (r, w1)" "P w1"
    using keeps_run [OF assms(2) Cons.prems] by blast
  then show ?case
    using Cons.IH preview_lines_keeps [of P exec, OF assms(1)] by (cases r) simp_all
qed simp

lemma preview_body_untouched:
  assumes "\<And>p. confined (butlast p) (bk_kuzu V p)" "\<And>p q. confined (butlast p) (run p q)"
  shows "keeps (untouched tmp s) (preview_body V raw J run target query (tmp @ [x]) snap files)"
proof -
  have k: "confined tmp (bk_kuzu V (tmp @ [x]))" "confined tmp (run (tmp @ [x]) q)" for q
    using assms(1) [of "tmp @ [x]"] assms(2) [of "tmp @ [x]" q] by simp_all
  have e: "keeps (untouched tmp s) (on_disk (andthen (bk_kuzu V (tmp @ [x])) (andthen (run (tmp @ [x]) q) (ret ()))))"
    "keeps (untouched tmp s) (on_disk (andthen (bk_kuzu V (tmp @ [x])) (run (tmp @ [x]) q)))" for q
    by (intro on_disk_untouched confined_andthen confined_ret k)+
  have r: "keeps (untouched tmp s) (\<lambda>s. (Inr (), preview_replay (site_storage V) J
      (\<lambda>q. on_disk (andthen (bk_kuzu V (tmp @ [x])) (andthen (run (tmp @ [x]) q) (ret ())))) target files s))"
    unfolding keeps_def
    by (intro allI impI) (simp, rule preview_replay_keeps [OF e(1)], simp_all add: site_storage_def Let_def on_ext_untouched)
  show ?thesis
    unfolding preview_body_def Let_def
    by (intro keeps_bind keeps_andthen keeps_ret e r on_ext_untouched on_disk_untouched preview_restore_below)
qed

lemma drop_preview_run:
  assumes "below tmp ((tmp, Dir) # v) (disk s)"
  shows "\<exists>s'. drop_preview tmp s = (Inr (), s') \<and> dbs_tab s' = dbs_tab s \<and> snaps_tab s' = snaps_tab s \<and>
    disk s' = cut tmp (disk s)"
proof -
  have "map_of (disk s) tmp = Some Dir" using assms by (simp add: below_def)
  then have "rmtree tmp (disk s) = (Inr (), cut tmp (disk s))" by (simp add: rmtree_def fs_simps)
  then show ?thesis by (simp add: drop_preview_def catch_def on_disk_def)
qed

text \<open>The section that works in the temporary directory.\<close>

lemma preview_section:
  assumes "\<And>p. confined (butlast p) (bk_kuzu V p)" "\<And>p q. confined (butlast p) (run p q)" "fresh_path (disk s) tmp"
  shows "\<exists>r s'. andthen (on_disk (mkdtemp tmp)) (finally_do
      (preview_body V raw J run target query (tmp @ [x]) snap files) (drop_preview tmp)) s = (r, s') \<and>
    dbs_tab s' = dbs_tab s \<and> snaps_tab s' = snaps_tab s \<and> (\<forall>q. map_of (disk s') q = map_of (disk s) q)"
proof (cases "is_dir (disk s) (butlast tmp)")
  case False
  then show ?thesis by (simp add: andthen_def bind_def on_disk_def mkdtemp_def)
next
  case True
  have f: "map_of (disk s) q = None" if "prefix tmp q" for q using assms(3) that by (simp add: fresh_path_def)
  let ?s1 = "s\<lparr>disk := (tmp, Dir) # disk s\<rparr>"
  have m: "on_disk (mkdtemp tmp) s = (Inr (), ?s1)"
    using True f [of tmp] by (simp add: on_disk_def mkdtemp_def fs_simps)
  obtain r s2 where b: "preview_body V raw J run target query (tmp @ [x]) snap files ?s1 = (r, s2)" "untouched tmp ?s1 s2"
  proof -
    have "untouched tmp ?s1 ?s1" by (simp add: untouched_def)
    moreover have "keeps (untouched tmp ?s1) (preview_body V raw J run target query (tmp @ [x]) snap files)"
      by (rule preview_body_untouched) (rule assms)+
    ultimately show thesis using that keeps_run [of "untouched tmp ?s1" _ ?s1] by metis
  qed
  obtain s3 where d: "drop_preview tmp s2 = (Inr (), s3)" "dbs_tab s3 = dbs_tab s2" "snaps_tab s3 = snaps_tab s2"
    "disk s3 = cut tmp (disk s2)"
    using drop_preview_run [of tmp "disk s" s2] b(2) by (auto simp: untouched_def)
  have "map_of (disk s3) q = map_of (disk s) q" for q
  proof (cases "prefix tmp q")
    case True
    with f d(4) show ?thesis by simp
  next
    case False
    then have "q \<noteq> tmp" "\<not> strict_prefix tmp q" by (auto simp: strict_prefix_def)
    with False b(2) d(4) show ?thesis by (simp add: untouched_def below_def)
  qed
  with m b d show ?thesis
    by (simp add: andthen_def bind_def finally_do_def untouched_def)
qed

lemma on_ext_same: "keeps (\<lambda>s'. dbs_tab s' = D \<and> snaps_tab s' = S \<and> disk s' = K) (on_ext m)"
  using on_ext_frame unfolding keeps_def by (metis surj_pair snd_conv)

text \<open>A first part that keeps the state, and a second one from there.\<close>

lemma keeps_then:
  assumes "keeps P m" "P w" "\<And>w. P w \<Longrightarrow> Q w" "\<And>x w. P w \<Longrightarrow> Q (snd (f x w))"
  shows "Q (snd (bind m f w))"
proof -
  obtain r w' where "m w = (r, w')" "P w'" using keeps_run [OF assms(1,2)] by blast
  then show ?thesis using assms(3,4) by (cases r) (simp_all add: bind_def)
qed

text \<open>C17: A preview leaves no trace. With an engine whose files stay in the directory of the database, and a temporary
  directory that was not there before, the preview changes neither the tables nor the disk, whether it returned
  or failed, and whatever the archives, the logs and the queries are.\<close>

theorem preview_leaves_no_trace:
  assumes "\<forall>p. confined (butlast p) (bk_kuzu V p)" "\<forall>p q. confined (butlast p) (run p q)"
    and "fresh_path (disk (s :: ('a, 'b) site)) tmp" "preview_database_pitr V raw J run tmp t d target query s = (r, s')"
  shows "dbs_tab s' = dbs_tab s \<and> snaps_tab s' = snaps_tab s \<and> (\<forall>q. map_of (disk s') q = map_of (disk s) q)"
proof -
  define same where "same s' \<longleftrightarrow> dbs_tab s' = dbs_tab s \<and> snaps_tab s' = snaps_tab s \<and> disk s' = disk s"
    for s' :: "('a, 'b) site"
  define kept where "kept s' \<longleftrightarrow> dbs_tab s' = dbs_tab s \<and> snaps_tab s' = snaps_tab s \<and> (\<forall>q. map_of (disk s') q = map_of (disk s) q)"
    for s' :: "('a, 'b) site"
  have in_tmp: "kept (snd (andthen (on_disk (mkdtemp tmp)) (finally_do
      (preview_body V raw J run target query (tmp @ [''preview.kuzu'']) snap files) (drop_preview tmp)) s1))"
    if "same s1" for snap files s1
    using preview_section [of V run s1 tmp raw J target query "''preview.kuzu''" snap files] assms(1-3) that by (auto simp: same_def kept_def)
  have goal: "same w \<Longrightarrow> kept w" for w by (simp add: same_def kept_def)
  have a: "keeps same (authorize V t b msg)" for b msg
    unfolding authorize_def same_def by (rule on_ext_same)
  have l: "keeps same (on_snaps (snapshot_list d u))" for u
    by (simp add: keeps_def on_snaps_def snapshot_list_def same_def)
  have w: "keeps same (preview_wal_files (site_storage V) t d start stop)" for start stop
    unfolding preview_wal_files_def by (intro keeps_bind keeps_ret) (simp add: site_storage_def Let_def on_ext_same same_def [abs_def])
  have found: "kept (snd ((case f of None \<Rightarrow> throw FileNotFoundError ''No snapshot found before target''
      | Some snap \<Rightarrow> bind (preview_wal_files (site_storage V) t d (snap_time snap) target) (\<lambda>files.
          andthen (on_disk (mkdtemp tmp)) (finally_do (preview_body V raw J run target query (tmp @ [''preview.kuzu'']) snap files)
            (drop_preview tmp)))) s1))" if "same s1" for f s1
  proof (cases f)
    case None
    with that goal show ?thesis by (simp add: throw_def)
  next
    case (Some snap)
    show ?thesis unfolding Some option.case by (rule keeps_then [where P = same and Q = kept, OF w that]) (rule goal, assumption, rule in_tmp)
  qed
  have "kept (snd (preview_database_pitr V raw J run tmp t d target query s))"
    unfolding preview_database_pitr_def andthen_def [of "authorize V t b m" for b m]
  proof (rule keeps_then [where P = same and Q = kept, OF a _ goal], simp add: same_def, assumption)
    fix s1
    assume "same s1"
    then show "kept (snd (bind (on_snaps (snapshot_list d (Some t))) (\<lambda>rows.
      bind (of_result (preview_nearest (map snapshot_dict rows) target)) (\<lambda>found. case found of
        None \<Rightarrow> throw FileNotFoundError ''No snapshot found before target''
      | Some snap \<Rightarrow> bind (preview_wal_files (site_storage V) t d (snap_time snap) target) (\<lambda>files.
          andthen (on_disk (mkdtemp tmp))
          (finally_do (preview_body V raw J run target query (tmp @ [''preview.kuzu'']) snap files) (drop_preview tmp))))) s1))"
    proof (rule keeps_then [where P = same and Q = kept, OF l _ goal])
      fix rows s2
      assume "same s2"
      then show "kept (snd (bind (of_result (preview_nearest (map snapshot_dict rows) target)) (\<lambda>found. case found of
        None \<Rightarrow> throw FileNotFoundError ''No snapshot found before target''
      | Some snap \<Rightarrow> bind (preview_wal_files (site_storage V) t d (snap_time snap) target) (\<lambda>files.
          andthen (on_disk (mkdtemp tmp))
          (finally_do (preview_body V raw J run target query (tmp @ [''preview.kuzu'']) snap files) (drop_preview tmp)))) s2))"
        by (rule keeps_then [where P = same and Q = kept, OF keeps_ret(3) _ goal]) (assumption, rule found)
    qed
  qed
  with assms(4) show ?thesis by (simp add: kept_def)
qed

theorem preview_leaves_no_trace_witness:
  "\<exists>r s'. preview_database_pitr demo_backend (\<lambda>_. 0) \<lparr>no_text = Bytes 0, add_line = \<lambda>b _. b, lines_of = \<lambda>_. []\<rparr> (\<lambda>p q. ret [()])
      [''tmp'', ''p''] ''t'' ''d'' (DT 2024 1 3 0 0 0 0) None
      (demo_site\<lparr>snaps_tab := [\<lparr>s_id = uuid_a, s_tenant = ''t'', s_database = ''d'', s_key = ''k.tar.gz'', s_checksum = ''sum'',
        s_size = 1, s_created = DT 2024 1 2 0 0 0 0\<rparr>]\<rparr>) = (r, s') \<and>
    map_of (disk s') [''tmp'', ''p''] = None \<and> map_of (disk s') [''db'', ''f''] = Some (File 1)"
proof -
  let ?s = "demo_site\<lparr>snaps_tab := [\<lparr>s_id = uuid_a, s_tenant = ''t'', s_database = ''d'', s_key = ''k.tar.gz'', s_checksum = ''sum'',
        s_size = 1, s_created = DT 2024 1 2 0 0 0 0\<rparr>]\<rparr>"
  let ?J = "\<lparr>no_text = Bytes 0, add_line = \<lambda>b _. b, lines_of = \<lambda>_. []\<rparr> :: nat blob codec"
  obtain r s' where p: "preview_database_pitr demo_backend (\<lambda>_. 0) ?J (\<lambda>p q. ret [()]) [''tmp'', ''p''] ''t'' ''d''
      (DT 2024 1 3 0 0 0 0) None ?s = (r, s')" by (metis surj_pair)
  have c: "\<forall>p. confined (butlast p) (bk_kuzu demo_backend p)" "\<forall>p q. confined (butlast p) (ret [()] :: (nat files, unit list) act)"
    by (simp_all add: demo_backend_def redis_minio_backend_def confined_ret)
  have f: "fresh_path (disk ?s) [''tmp'', ''p'']" unfolding fresh_path_def by (auto simp: demo_site_def prefix_def)
  have "\<forall>q. map_of (disk s') q = map_of (disk ?s) q" using preview_leaves_no_trace [OF c f p] by simp
  with p show ?thesis by (simp add: demo_site_def)
qed

end
