(* ===== verification/PITR_Run.thy ===== *)
theory PITR_Run
  imports PITR_Restore
begin

text \<open>
  The restore to a point in time as a whole: which snapshot it takes, what the swap of the directories
  leaves on the disk, and that the replay of the log starts from there.
\<close>

section \<open>The site while the log is replayed\<close>

text \<open>Everything but the disk and the state of the services.\<close>

definition frame_of :: "('x \<Rightarrow> string \<Rightarrow> string option) \<Rightarrow> ('x \<Rightarrow> bool) \<Rightarrow> ('x \<Rightarrow> string \<Rightarrow> 'b blob option) \<Rightarrow>
    ('x, 'b) site \<Rightarrow> ('x, 'b) site \<Rightarrow> bool" where
  "frame_of holder ok objs s s' \<longleftrightarrow> ok (ext s') \<and> holder (ext s') = holder (ext s) \<and> objs (ext s') = objs (ext s) \<and>
     dbs_tab s' = dbs_tab s \<and> snaps_tab s' = snaps_tab s"

lemma frame_refl: "ok (ext s) \<Longrightarrow> frame_of holder ok objs s s"
  by (simp add: frame_of_def)

lemma frame_on_disk: "keeps (frame_of holder ok objs s) (on_disk m)"
  by (auto simp: keeps_def frame_of_def on_disk_def split: prod.splits)

lemma frame_on_ext:
  assumes "quiet ok holder objs m"
  shows "keeps (frame_of holder ok objs s) (on_ext m)"
proof (rule keepsI)
  fix w
  assume w: "frame_of holder ok objs s w"
  then have "ok (ext w)" by (simp add: frame_of_def)
  then obtain r x where "m (ext w) = (r, x)" "ok x" "holder x = holder (ext w)" "objs x = objs (ext w)"
    using quiet_run [OF assms] by blast
  with w show "frame_of holder ok objs s (snd (on_ext m w))" by (simp add: frame_of_def on_ext_def)
qed

lemma restore_lines_keeps:
  assumes "\<And>q. keeps P (exec q)"
  shows "P w \<Longrightarrow> P (snd (restore_lines exec target ls n w))"
proof (induction ls arbitrary: n w)
  case (Cons l ls)
  have e: "P w \<Longrightarrow> exec q w = (r, w') \<Longrightarrow> P w'" for q w r w' using keepsD [OF assms] by blast
  show ?case
  proof (cases l)
    case (Entry ts query rs m)
    then show ?thesis using Cons e by (auto split: sum.splits bool.splits prod.splits)
  qed (use Cons in auto)
qed simp

lemma replay_wal_files_keeps:
  assumes "\<And>q. keeps P (exec q)" "\<And>k. keeps P (download_database S k)"
  shows "P w \<Longrightarrow> P (snd (replay_wal_files S J exec target fs n w))"
proof (induction fs arbitrary: n w)
  case (Cons f fs)
  obtain r w1 where d: "download_database S (wf_key f) w = (r, w1)" "P w1"
    using keeps_run [OF assms(2) Cons.prems] by blast
  show ?case
  proof (cases r)
    case (Inl e)
    with d Cons.IH show ?thesis by simp
  next
    case (Inr t)
    obtain m b w2 where r: "restore_lines exec target (lines_of J t) n w1 = ((m, b), w2)" by (metis surj_pair)
    have "P w2" using restore_lines_keeps [of P exec w1 target "lines_of J t" n, OF assms(1) d(2)] r by simp
    with d Inr r Cons.IH show ?thesis by (cases b) simp_all
  qed
qed simp

section \<open>Running the restore\<close>

text \<open>The database's directory holds the archived database, the previous one lies beside it, and nothing else has
  changed.\<close>

definition swapped :: "(path \<Rightarrow> 'b node option) \<Rightarrow> string \<Rightarrow> string \<Rightarrow> path \<Rightarrow> string \<Rightarrow> 'b files \<Rightarrow> 'b files \<Rightarrow> bool" where
  "swapped T tmp bak par d v v' \<longleftrightarrow> (\<forall>r. map_of v' (par @ d # r) = restored_dir T r) \<and>
     (\<forall>r. map_of v' (par @ bak # r) = kept_dir tmp (\<lambda>r. map_of v (par @ d # r)) r) \<and>
     (\<forall>q. \<not> prefix (par @ [d]) q \<longrightarrow> \<not> prefix (par @ [bak]) q \<longrightarrow> map_of v' q = map_of v q)"

definition backup_name :: "pitr_call \<Rightarrow> uuid \<Rightarrow> string" where
  "backup_name call d = d @ ''.pitr_bak_'' @ fst (pi_stamps call)"

definition can_pitr :: "('x \<Rightarrow> string \<Rightarrow> string option) \<Rightarrow> ('x \<Rightarrow> bool) \<Rightarrow> pitr_call \<Rightarrow> uuid \<Rightarrow> uuid \<Rightarrow> dt \<Rightarrow> path \<Rightarrow>
    string \<Rightarrow> ('x, 'b) site \<Rightarrow> bool" where
  "can_pitr holder ok call t d target par fp s \<longleftrightarrow>
     (\<exists>r. table_map d_id (dbs_tab s) d = Some r \<and> d_tenant r = t \<and> d_path r \<noteq> [] \<and> d_path r = fp) \<and>
     path_of fp = par @ [d, data_kuzu] \<and> target \<le> pi_now call \<and> dirs_to (disk s) (par @ [d]) \<and>
     fresh_path (disk s) (par @ [d, ''pitr_restore_'' @ pi_tmp call]) \<and>
     fresh_path (disk s) (par @ [d @ ''.pitr_stage_'' @ snd (pi_stamps call)]) \<and>
     fresh_path (disk s) (par @ [backup_name call d]) \<and>
     ok (ext s) \<and> holder (ext s) (pitr_lock d) = None"

text \<open>The replay of the log on the swapped disk.\<close>

definition replayed :: "('x, 'b, 'v) backend \<Rightarrow> 'b blob codec \<Rightarrow> (path \<Rightarrow> string \<Rightarrow> ('b files, 'row list) act) \<Rightarrow>
    uuid \<Rightarrow> uuid \<Rightarrow> string \<Rightarrow> dt \<Rightarrow> dt \<Rightarrow> ('x, 'b) site \<Rightarrow> nat \<Rightarrow> 'b files \<Rightarrow> bool" where
  "replayed V J run t d fp start target s n v \<longleftrightarrow> (\<exists>files s1 s2.
     find_wal_files_in_range (site_storage V) t d start target s = (Inr files, s1) \<and>
     replay_wal_files (site_storage V) J (\<lambda>q. on_disk (service_execute_query (bk_kuzu V) run fp q)) target files 0 s1 = (n, s2) \<and>
     disk s2 = v)"

lemma nearest_row:
  assumes "row0 \<in> set (snaps_tab s)" "s_database row0 = d" "s_created row0 \<le> target"
  obtains row where "nearest_for_restore d target s = (Inr (snapshot_dict row), s)" "row \<in> set (snaps_tab s)"
    "s_database row = d" "s_created row \<le> target"
    "\<And>r. r \<in> set (snaps_tab s) \<Longrightarrow> s_database r = d \<Longrightarrow> s_created r \<le> target \<Longrightarrow> s_created r \<le> s_created row"
proof -
  define rows where "rows = rev (sort_key s_created (filter (\<lambda>r. s_database r = d) (snaps_tab s)))"
  have l: "on_snaps (snapshot_list d None) s = (Inr rows, s)"
    by (simp add: on_snaps_def snapshot_list_def rows_def)
  have set: "set rows = {r \<in> set (snaps_tab s). s_database r = d}" by (auto simp: rows_def)
  have aware: "all_aware (map snapshot_dict rows)" by (simp add: all_aware_def list_all_iff snapshot_dict_def)
  have tm: "snap_time (snapshot_dict r) = s_created r" for r by (simp add: snap_time_def snapshot_dict_def)
  have "snapshot_dict row0 \<in> set (map snapshot_dict rows)" using assms(1,2) set by simp
  moreover have "snap_time (snapshot_dict row0) \<le> target" using assms(3) by (simp add: tm)
  ultimately obtain n where n: "restore_nearest (map snapshot_dict rows) target = Inr (Some n)"
    using restore.nearest_complete [OF aware] by blast
  note nD = restore.nearest_SomeD [OF aware n]
  from nD(1) obtain row where row: "n = snapshot_dict row" "row \<in> set (snaps_tab s)" "s_database row = d" using set by auto
  have "nearest_for_restore d target s = (Inr (snapshot_dict row), s)"
    using l n row(1) by (simp add: nearest_for_restore_def bind_def of_result_def ret_def)
  moreover have "s_created row \<le> target" using nD(2) by (simp add: row(1) tm)
  moreover have "s_created r \<le> s_created row" if "r \<in> set (snaps_tab s)" "s_database r = d" "s_created r \<le> target" for r
    using nD(3) [of "snapshot_dict r"] that set by (simp add: row(1) tm)
  ultimately show thesis using that row(2,3) by blast
qed

context site_services
begin

lemma find_wal_run:
  assumes "ok (ext s)"
  obtains files x where "find_wal_files_in_range (site_storage V) t d start stop s = (Inr files, s\<lparr>ext := x\<rparr>)"
    "ok x" "holder x = holder (ext s)" "objs x = objs (ext s)"
proof -
  obtain r x where x: "list_objects (bk_storage V) (object_key t d ''wal/'') (ext s) = (r, x)" "ok x"
    "holder x = holder (ext s)" "objs x = objs (ext s)"
    using quiet_run [OF reading(2) assms] by blast
  have l: "list_objects (site_storage V) (object_key t d ''wal/'') s = (r, s\<lparr>ext := x\<rparr>)"
    by (simp add: site_storage_def Let_def on_ext_def x(1))
  have "\<exists>files. find_wal_files_in_range (site_storage V) t d start stop s = (Inr files, s\<lparr>ext := x\<rparr>)"
    unfolding find_wal_files_in_range_def bind_def catch_def l by (cases r) (simp_all add: ret_def)
  with that x(2-4) show thesis by blast
qed

lemma replay_frame:
  assumes "ok (ext s)"
  shows "frame_of holder ok objs s (snd (replay_wal_files (site_storage V) J (\<lambda>q. on_disk (m q)) target files n s))"
proof -
  have "keeps (frame_of holder ok objs s) (download_database (site_storage V) k)" for k
    by (simp add: site_storage_def Let_def frame_on_ext reading(1))
  then show ?thesis by (intro replay_wal_files_keeps [where P = "frame_of holder ok objs s"] frame_on_disk frame_refl assms)
qed

lemma pitr_event_run:
  assumes "ok (ext s)"
  obtains x where "pitr_event V t d target i n s = (Inr (), s\<lparr>ext := x\<rparr>)" "ok x" "holder x = holder (ext s)" "objs x = objs (ext s)"
proof (cases "bk_events V")
  case None
  then show thesis using that [of "ext s"] assms by (simp add: pitr_event_def exec_simps)
next
  case (Some E)
  show thesis
  proof (cases "table_map d_id (dbs_tab s) d")
    case None
    then have "pitr_event V t d target i n s = (Inr (), s\<lparr>ext := ext s\<rparr>)"
      unfolding pitr_event_def Some option.case catch_def bind_def on_dbs_def db_find_by_id_run
      by (simp add: throw_def ret_def)
    with that assms show thesis by blast
  next
    fix r
    assume row: "table_map d_id (dbs_tab s) d = Some r"
    obtain q x where x: "emit E t ''database_restored'' ''Database Restored''
             (''Database '' @ [CHR 39] @ d_name r @ [CHR 39] @ '' restored to '' @ strftime_compact target)
             [(''database_id'', d), (''target_timestamp'', strftime_compact target), (''snapshot_used'', i),
              (''wal_files_replayed'', py_str_nat n)] (ext s) = (q, x)" "ok x" "holder x = holder (ext s)" "objs x = objs (ext s)"
      using quiet_run [OF notifying [OF Some] assms] by blast
    have "on_ext (emit E t ''database_restored'' ''Database Restored''
             (''Database '' @ [CHR 39] @ d_name r @ [CHR 39] @ '' restored to '' @ strftime_compact target)
             [(''database_id'', d), (''target_timestamp'', strftime_compact target), (''snapshot_used'', i),
              (''wal_files_replayed'', py_str_nat n)]) s = (q, s\<lparr>ext := x\<rparr>)"
      unfolding on_ext_def x(1) by simp
    then have "pitr_event V t d target i n s = (Inr (), s\<lparr>ext := x\<rparr>)"
      unfolding pitr_event_def Some option.case catch_def bind_def on_dbs_def db_find_by_id_run prod.case sum.case row
      by (cases q) (simp_all add: ret_def)
    with that x(2-4) show thesis by blast
  qed
qed

lemma pitr_body_run:
  assumes "ok (ext s)" "objs (ext s) (s_key row) = Some (TarGz tree)"
    and "on_disk (pitr_restore_files raw (s_key row) (TarGz tree) (''pitr_restore_'' @ pi_tmp call) (pi_stamps call) (path_of fp)) s =
      (Inr (), s\<lparr>disk := v\<rparr>)"
    and "\<not> archive_after cfg"
  obtains n s' where "pitr_body V raw J run cfg call t d target fp (snapshot_dict row) s =
      (Inr \<lparr>pi_used = s_id row, pi_replayed = n, pi_archived = None\<rparr>, s')" "frame_of holder ok objs s s'"
    "replayed V J run t d fp (s_created row) target (s\<lparr>disk := v\<rparr>) n (disk s')"
proof -
  have k: "snap_object_key (snapshot_dict row) = s_key row" "snap_time (snapshot_dict row) = s_created row"
    "snap_id (snapshot_dict row) = s_id row" by (simp_all add: snapshot_dict_def snap_time_def)
  have r1: "on_ext (download_database (bk_storage V) (s_key row)) s = (Inr (TarGz tree), s)"
    using downloading [OF assms(1,2)] by (simp add: on_ext_def)
  have okv: "ok (ext (s\<lparr>disk := v\<rparr>))" using assms(1) by simp
  obtain files x where f: "find_wal_files_in_range (site_storage V) t d (s_created row) target (s\<lparr>disk := v\<rparr>) =
      (Inr files, s\<lparr>disk := v\<rparr>\<lparr>ext := x\<rparr>)" "ok x" "holder x = holder (ext (s\<lparr>disk := v\<rparr>))" "objs x = objs (ext (s\<lparr>disk := v\<rparr>))"
    by (rule find_wal_run [OF okv])
  let ?s1 = "s\<lparr>disk := v, ext := x\<rparr>"
  obtain n s2 where p: "replay_wal_files (site_storage V) J (\<lambda>q. on_disk (service_execute_query (bk_kuzu V) run fp q)) target files 0 ?s1 = (n, s2)"
    by (metis surj_pair)
  have fr: "frame_of holder ok objs ?s1 s2"
    using replay_frame [of ?s1 J "service_execute_query (bk_kuzu V) run fp" target files 0] f(2) by (simp add: p)
  have r3: "(if files = [] then ret 0 else pitr_replay V J run fp target files) ?s1 = (Inr n, s2)"
    using p by (cases files) (auto simp: ret_def pitr_replay_def)
  obtain y where dr: "drop_info V d s2 = (Inr (), s2\<lparr>ext := y\<rparr>)" "ok y" "holder y = holder (ext s2)" "objs y = objs (ext s2)"
    using drop_info_run [of s2 d] fr by (auto simp: frame_of_def)
  let ?s3 = "s2\<lparr>ext := y\<rparr>"
  have r5: "pitr_archive V cfg call t d ?s3 = (Inr None, ?s3)" using assms(4) by (simp add: pitr_archive_def ret_def)
  have r6: "guard_do (None \<noteq> None \<and> files \<noteq> [] \<and> delete_replayed cfg) (delete_wal V files) ?s3 = (Inr (), ?s3)"
    by (simp add: guard_do_def ret_def)
  obtain z where e: "pitr_event V t d target (s_id row) n ?s3 = (Inr (), ?s3\<lparr>ext := z\<rparr>)" "ok z" "holder z = holder y" "objs z = objs y"
    using pitr_event_run [of ?s3 t d target "s_id row" n] dr(2) by auto
  have "pitr_body V raw J run cfg call t d target fp (snapshot_dict row) s =
      (Inr \<lparr>pi_used = s_id row, pi_replayed = n, pi_archived = None\<rparr>, ?s3\<lparr>ext := z\<rparr>)"
    by (simp only: pitr_body_def k bind_step r1 assms(3) f(1) r3 dr(1) r5 r6 e(1) ret_def)
  moreover have "frame_of holder ok objs s (?s3\<lparr>ext := z\<rparr>)"
    using fr f(2-4) dr(2-4) e(2-4) by (simp add: frame_of_def)
  moreover have "replayed V J run t d fp (s_created row) target (s\<lparr>disk := v\<rparr>) n (disk (?s3\<lparr>ext := z\<rparr>))"
    using f(1) p by (auto simp: replayed_def)
  ultimately show thesis by (rule that)
qed

lemma pitr_run:
  assumes "can_pitr holder ok call t d target par fp s" "\<not> archive_after cfg"
    and "row \<in> set (snaps_tab s)" "nearest_for_restore d target s = (Inr (snapshot_dict row), s)"
    and "objs (ext s) (s_key row) = Some (TarGz tree)" "archive_of d T tree" "T [] \<noteq> None" "endswith (s_key row) ''.tar.gz''"
  obtains v x n s' where "swapped T (''pitr_restore_'' @ pi_tmp call) (backup_name call d) par d (disk s) v" "objs x = objs (ext s)"
    "replayed V J run t d fp (s_created row) target (s\<lparr>disk := v, ext := x\<rparr>) n (disk s')"
    "restore_database_pitr V raw J run cfg call t d target s = (Inr \<lparr>pi_used = s_id row, pi_replayed = n, pi_archived = None\<rparr>, s')"
    "frame_of holder ok objs s s'"
proof -
  obtain r where row: "table_map d_id (dbs_tab s) d = Some r" "d_tenant r = t" "d_path r \<noteq> []" "d_path r = fp"
    and c: "path_of fp = par @ [d, data_kuzu]" "target \<le> pi_now call" "dirs_to (disk s) (par @ [d])"
     "fresh_path (disk s) (par @ [d, ''pitr_restore_'' @ pi_tmp call])"
     "fresh_path (disk s) (par @ [d @ ''.pitr_stage_'' @ snd (pi_stamps call)])"
     "fresh_path (disk s) (par @ [d @ ''.pitr_bak_'' @ fst (pi_stamps call)])"
     "ok (ext s)" "holder (ext s) (pitr_lock d) = None"
    using assms(1) unfolding can_pitr_def backup_name_def by blast
  have nk: "''pitr_restore_'' @ pi_tmp call \<noteq> data_kuzu" by (simp add: data_kuzu_def)
  obtain v where v: "pitr_restore_files raw (s_key row) (TarGz tree) (''pitr_restore_'' @ pi_tmp call) (pi_stamps call) (par @ [d, data_kuzu])
      (disk s) = (Inr (), v)" "swapped T (''pitr_restore_'' @ pi_tmp call) (backup_name call d) par d (disk s) v"
  proof -
    obtain v where h: "pitr_restore_files raw (s_key row) (TarGz tree) (''pitr_restore_'' @ pi_tmp call) (pi_stamps call)
        (par @ [d, data_kuzu]) (disk s) = (Inr (), v)"
      "\<And>r. map_of v (par @ d # r) = restored_dir T r"
      "\<And>r. map_of v (par @ (d @ ''.pitr_bak_'' @ fst (pi_stamps call)) # r) =
         kept_dir (''pitr_restore_'' @ pi_tmp call) (\<lambda>r. map_of (disk s) (par @ d # r)) r"
      "\<And>q. \<not> prefix (par @ [d]) q \<Longrightarrow> \<not> prefix (par @ [d @ ''.pitr_bak_'' @ fst (pi_stamps call)]) q \<Longrightarrow> map_of v q = map_of (disk s) q"
      by (rule pitr_restore_files_run [OF assms(6-8) c(3-6) nk]) (rule that)
    have "swapped T (''pitr_restore_'' @ pi_tmp call) (backup_name call d) par d (disk s) v"
      unfolding swapped_def backup_name_def using h(2-4) by blast
    with h(1) show thesis by (rule that)
  qed
  obtain x where az: "authorize V t ''restore'' ''Not authorized to restore database'' s = (Inr (), s\<lparr>ext := x\<rparr>)" "ok x"
    "holder x = holder (ext s)" "objs x = objs (ext s)"
    using authorize_run [OF c(7)] by blast
  let ?s = "s\<lparr>ext := x\<rparr>"
  let ?P = "\<lambda>res dt st dk ob. \<exists>y n. res = Inr \<lparr>pi_used = s_id row, pi_replayed = n, pi_archived = None\<rparr> \<and> dt = dbs_tab s \<and>
    st = snaps_tab s \<and> ob = objs (ext s) \<and> objs y = objs (ext s) \<and>
    replayed V J run t d fp (s_created row) target (s\<lparr>disk := v, ext := y\<rparr>) n dk"
  let ?body = "pitr_body V raw J run cfg call t d target fp (snapshot_dict row)"
  have "\<exists>res s'. with_lock (site_locks V) (pitr_lock d) 60 (throw TimeoutError ''Could not acquire PITR restore lock'') ?body ?s = (res, s') \<and>
    ok (ext s') \<and> holder (ext s') = holder (ext ?s) \<and> ?P res (dbs_tab s') (snaps_tab s') (disk s') (objs (ext s'))"
  proof (rule with_site_lock)
    show "ok (ext ?s)" "holder (ext ?s) (pitr_lock d) = None" using az c(8) by simp_all
    fix y
    assume y: "ok y" "objs y = objs (ext ?s)"
    let ?t = "?s\<lparr>ext := y\<rparr>"
    have o: "ok (ext ?t)" "objs (ext ?t) (s_key row) = Some (TarGz tree)" using y az(4) assms(5) by simp_all
    have f: "on_disk (pitr_restore_files raw (s_key row) (TarGz tree) (''pitr_restore_'' @ pi_tmp call) (pi_stamps call) (path_of fp)) ?t =
      (Inr (), ?t\<lparr>disk := v\<rparr>)"
      unfolding c(1) on_disk_def using v(1) by simp
    obtain n s' where b: "?body ?t = (Inr \<lparr>pi_used = s_id row, pi_replayed = n, pi_archived = None\<rparr>, s')"
      "frame_of holder ok objs ?t s'" "replayed V J run t d fp (s_created row) target (?t\<lparr>disk := v\<rparr>) n (disk s')"
      by (rule pitr_body_run [OF o f assms(2)])
    have eq: "?t\<lparr>disk := v\<rparr> = s\<lparr>disk := v, ext := y\<rparr>" by simp
    have "replayed V J run t d fp (s_created row) target (s\<lparr>disk := v, ext := y\<rparr>) n (disk s')" using b(3) unfolding eq .
    with y az(4) b(2) have "?P (Inr \<lparr>pi_used = s_id row, pi_replayed = n, pi_archived = None\<rparr>) (dbs_tab s') (snaps_tab s') (disk s') (objs (ext s'))"
      by (intro exI [of _ y] exI [of _ n]) (simp add: frame_of_def)
    with b(1,2) show "\<exists>res s'. ?body ?t = (res, s') \<and> ok (ext s') \<and> holder (ext s') = holder y \<and>
        ?P res (dbs_tab s') (snaps_tab s') (disk s') (objs (ext s'))"
      by (intro exI [of _ "Inr \<lparr>pi_used = s_id row, pi_replayed = n, pi_archived = None\<rparr>"] exI [of _ s'])
        (simp add: frame_of_def)
  qed
  then obtain y n s' where w: "with_lock (site_locks V) (pitr_lock d) 60 (throw TimeoutError ''Could not acquire PITR restore lock'') ?body ?s =
      (Inr \<lparr>pi_used = s_id row, pi_replayed = n, pi_archived = None\<rparr>, s')" "ok (ext s')" "holder (ext s') = holder x"
    "dbs_tab s' = dbs_tab s" "snaps_tab s' = snaps_tab s" "objs (ext s') = objs (ext s)" "objs y = objs (ext s)"
    "replayed V J run t d fp (s_created row) target (s\<lparr>disk := v, ext := y\<rparr>) n (disk s')"
    by auto
  have dp: "database_path t d ?s = (Inr fp, ?s)" using row database_path_run [of ?s d r t] by simp
  have "nearest_for_restore d target ?s = (Inr (snapshot_dict row), ?s)"
    using assms(4) by (auto simp: nearest_for_restore_def bind_def on_snaps_def snapshot_list_def of_result_def ret_def throw_def
        split: sum.splits option.splits)
  then have "restore_database_pitr V raw J run cfg call t d target s = (Inr \<lparr>pi_used = s_id row, pi_replayed = n, pi_archived = None\<rparr>, s')"
    using c(2) by (simp add: restore_database_pitr_def bind_step(1,3) az(1) dp w(1) leD)
  moreover have "frame_of holder ok objs s s'" using w(2-6) az(3) by (simp add: frame_of_def)
  ultimately show thesis using that v(2) w(7,8) by blast
qed

end

section \<open>Properties\<close>


text \<open>A database of one file, a snapshot with another content, no log.\<close>

definition pitr_key :: string where
  "pitr_key = ''s3://kuzu/k.tar.gz''"

definition pitr_demo_site :: "(keyspace \<times> nat blob ref_s3, nat) site" where
  "pitr_demo_site = \<lparr>dbs_tab = [\<lparr>d_id = ''d'', d_tenant = ''t'', d_name = ''main'', d_path = ''/b/d/data.kuzu'', d_created = DT 2024 1 1 0 0 0 0\<rparr>],
     snaps_tab = [\<lparr>s_id = ''i'', s_tenant = ''t'', s_database = ''d'', s_key = pitr_key, s_checksum = ''sum'', s_size = 1, s_created = DT 2024 1 2 0 0 0 0\<rparr>],
     disk = [([], Dir), ([''b''], Dir), ([''b'', ''d''], Dir), ([''b'', ''d'', data_kuzu], File 2)],
     ext = (Map.empty, [((''kuzu'', ''k.tar.gz''), TarGz [([''d''], Dir), ([''d'', data_kuzu], File 1)])])\<rparr>"

definition pitr_demo_call :: pitr_call where
  "pitr_demo_call = \<lparr>pi_now = DT 2024 1 4 0 0 0 0, pi_tmp = ''x'', pi_stamps = (''1'', ''2''), pi_snapshot = demo_call\<rparr>"

definition pitr_demo_tree :: "snap_row \<Rightarrow> path \<Rightarrow> nat node option" where
  "pitr_demo_tree row r = (if r = [] then Some (File 1) else None)"

lemma pitr_demo_ready: "can_pitr (\<lambda>x. lock_holder (\<lambda>r. r) (fst x)) (\<lambda>x. locks_typed (\<lambda>r. r) (fst x))
    pitr_demo_call ''t'' ''d'' (DT 2024 1 3 0 0 0 0) [''b''] ''/b/d/data.kuzu'' pitr_demo_site"
proof -
  have "path_of ''/b/d/data.kuzu'' = [''b'', ''d'', data_kuzu]" by (simp add: path_of_def data_kuzu_def)
  moreover have "dirs_to (disk pitr_demo_site) [''b'', ''d'']" by (auto simp: dirs_to_def pitr_demo_site_def prefix_Cons)
  moreover have "fresh_path (disk pitr_demo_site) [''b'', ''d'', ''pitr_restore_x'']"
    unfolding fresh_path_def by (auto simp: prefix_def pitr_demo_site_def data_kuzu_def)
  moreover have "fresh_path (disk pitr_demo_site) [''b'', ''d.pitr_stage_2'']" "fresh_path (disk pitr_demo_site) [''b'', ''d.pitr_bak_1'']"
    unfolding fresh_path_def by (auto simp: prefix_def pitr_demo_site_def)
  moreover have "DT 2024 1 3 0 0 0 0 \<le> DT 2024 1 4 0 0 0 0" by simp
  ultimately show ?thesis
    unfolding can_pitr_def backup_name_def
    by (simp add: table_map_def pitr_demo_site_def pitr_demo_call_def lock_holder_def locks_typed_def)
qed


end
