(* ===== verification/Branch_Run.thy ===== *)
theory Branch_Run
  imports Branching
begin

text \<open>
  Creating a branch as a whole: the provisioning of its database, the copy of the snapshot's row and the
  restore into it, over services that keep their contracts and an engine that creates a directory.
\<close>

section \<open>Paths as texts\<close>

definition plain_path :: "path \<Rightarrow> bool" where
  "plain_path p \<longleftrightarrow> (\<forall>c \<in> set p. c \<noteq> [] \<and> c \<noteq> ''.'' \<and> CHR ''/'' \<notin> set c)"

lemma py_split_char_word: "d \<notin> set c \<Longrightarrow> py_split_char d c = [c]"
  by (induction c) auto

lemma py_split_char_sep: "d \<notin> set c \<Longrightarrow> py_split_char d (c @ d # r) = c # py_split_char d r"
  by (induction c) auto

lemma py_split_char_path:
  "\<forall>c \<in> set p. d \<notin> set c \<Longrightarrow> py_split_char d (concat (map (\<lambda>c. d # c) p)) = [] # p"
proof (induction p)
  case (Cons c p)
  show ?case
  proof (cases p)
    case Nil
    with Cons.prems show ?thesis by (simp add: py_split_char_word)
  next
    case (Cons c' p')
    have "d \<notin> set c" using Cons.prems by simp
    moreover have "py_split_char d (concat (map (\<lambda>c. d # c) p)) = [] # p" using Cons.IH Cons.prems by simp
    ultimately show ?thesis
      using py_split_char_sep [of d c "c' @ concat (map (\<lambda>c. d # c) p')"] by (simp add: Cons)
  qed
qed simp

lemma path_of_str: "plain_path p \<Longrightarrow> p \<noteq> [] \<Longrightarrow> path_of (str_of_path p) = p"
proof -
  assume p: "plain_path p" "p \<noteq> []"
  then have "py_split_char CHR ''/'' (str_of_path p) = [] # p"
    by (simp add: str_of_path_def py_split_char_path plain_path_def)
  then show ?thesis using p(1) by (simp add: path_of_def plain_path_def filter_id_conv)
qed

section \<open>What a branch relies on\<close>

text \<open>The engine makes a directory that has no \<open>data.kuzu\<close> of its own, and touches nothing else.\<close>

definition creates_dir :: "(path \<Rightarrow> ('b files, unit) act) \<Rightarrow> bool" where
  "creates_dir kuzu \<longleftrightarrow> (\<forall>v p. map_of v (butlast p) = Some Dir \<longrightarrow> fresh_path v p \<longrightarrow>
     (\<exists>v'. kuzu p v = (Inr (), v') \<and> map_of v' p = Some Dir \<and> map_of v' (p @ [data_kuzu]) = None \<and> (\<forall>q. \<not> prefix p q \<longrightarrow> map_of v' q = map_of v q)))"

locale branch_services = site_services V holder ok objs
  for V :: "('x, 'b, 'v) backend" and holder :: "'x \<Rightarrow> string \<Rightarrow> string option" and ok :: "'x \<Rightarrow> bool"
    and objs :: "'x \<Rightarrow> string \<Rightarrow> 'b blob option" +
  fixes P :: "'x provisioner"
  assumes bucket_ready: "ok x \<Longrightarrow> \<exists>b x'. pv_bucket P t x = (Inr b, x') \<and> ok x' \<and> holder x' = holder x \<and>
      (\<forall>k. endswith k ''.tar.gz'' \<longrightarrow> objs x' k = objs x k)"
    and engine: "creates_dir (bk_kuzu V)"
    and snapshots_on: "pv_snapshots P"

section \<open>Provisioning on the disk\<close>

lemma kuzu_create_run:
  assumes "creates_dir kuzu" "dirs_to v base" "fresh_path v (base @ [t, d])" "\<not> is_file v (base @ [t])"
    and "t @ ''_'' @ d \<notin> set cached"
  obtains v' where "kuzu_create_database kuzu base cached d now t name v = (Inr (\<lparr>d_id = d, d_tenant = t, d_name = name,
      d_path = str_of_path (kuzu_db_path base t d), d_created = now\<rparr>, (t @ ''_'' @ d) # cached), v')"
    "map_of v' (kuzu_db_path base t d) = Some Dir" "map_of v' (kuzu_db_path base t d @ [data_kuzu]) = None"
    "dirs_to v' (base @ [t, d])" "\<And>x r. x \<noteq> data_kuzu \<Longrightarrow> map_of v' (base @ t # d # x # r) = None"
    "\<And>q. \<not> prefix (base @ [t, d]) q \<Longrightarrow> q \<noteq> base @ [t] \<Longrightarrow> map_of v' q = map_of v q"
proof -
  let ?dir = "base @ [t, d]" and ?p = "kuzu_db_path base t d"
  have pre: "prefix q ?dir \<longleftrightarrow> prefix q base \<or> q = base @ [t] \<or> q = ?dir" for q
    by (auto simp: prefix_append prefix_Cons)
  have f: "map_of v (base @ t # d # r) = None" for r using assms(3) by (auto simp: fresh_path_def)
  have nf: "no_file_above v ?dir"
    using assms(2,4) f [of "[]"] by (auto simp: no_file_above_def pre dirs_to_def fs_simps)
  obtain v1 where v1: "mkdirs ?dir v = (Inr (), v1)"
    "\<And>q. map_of v1 q = (if prefix q ?dir \<and> map_of v q = None then Some Dir else map_of v q)"
    using mkdirs_run [OF nf] by blast
  have d1: "map_of v1 q = Some Dir" if "prefix q ?dir" for q
    using that assms(2,4) f [of "[]"] by (cases "map_of v q"; cases "the (map_of v q)")
      (auto simp: v1(2) pre dirs_to_def fs_simps)
  have f1: "map_of v1 (base @ t # d # x # r) = None" for x r using f by (simp add: v1(2))
  have b: "butlast ?p = ?dir" by (simp add: kuzu_db_path_def butlast_append)
  have "map_of v1 (butlast ?p) = Some Dir" using d1 by (simp add: b)
  moreover have "fresh_path v1 ?p" using f1 by (auto simp: fresh_path_def kuzu_db_path_def elim!: prefixE)
  ultimately obtain v2 where v2: "kuzu ?p v1 = (Inr (), v2)" "map_of v2 ?p = Some Dir" "map_of v2 (?p @ [data_kuzu]) = None"
    "\<And>q. \<not> prefix ?p q \<Longrightarrow> map_of v2 q = map_of v1 q"
    using assms(1) unfolding creates_dir_def by blast
  have np: "\<not> prefix ?p q" if "prefix q ?dir" for q
    using that prefix_length_le [of ?p q] prefix_length_le [of q ?dir] by (auto simp: kuzu_db_path_def)
  have "kuzu_create_database kuzu base cached d now t name v = (Inr (\<lparr>d_id = d, d_tenant = t, d_name = name,
      d_path = str_of_path ?p, d_created = now\<rparr>, (t @ ''_'' @ d) # cached), v2)"
    using assms(5) f1 [of data_kuzu "[]"]
    by (simp add: kuzu_create_database_def Let_def b andthen_def bind_def v1(1) fs_simps kuzu_db_path_def [symmetric] v2(1) ret_def)
  moreover have "dirs_to v2 ?dir" using d1 np v2(4) by (simp add: dirs_to_def)
  moreover have "map_of v2 (base @ t # d # x # r) = None" if "x \<noteq> data_kuzu" for x r
    using that v2(4) [of "base @ t # d # x # r"] f1 by (simp add: kuzu_db_path_def)
  moreover have "map_of v2 q = map_of v q" if "\<not> prefix ?dir q" "q \<noteq> base @ [t]" for q
  proof -
    have "\<not> prefix ?p q" using that(1) by (auto simp: kuzu_db_path_def prefix_def)
    moreover have "prefix q ?dir \<Longrightarrow> prefix q base" using that by (auto simp: pre)
    ultimately show ?thesis using v2(4) assms(2) by (auto simp: v1(2) dirs_to_def)
  qed
  ultimately show thesis using that v2(2,3) by blast
qed

section \<open>Provisioning and filling a branch\<close>

definition can_provision :: "('x \<Rightarrow> string \<Rightarrow> string option) \<Rightarrow> ('x \<Rightarrow> bool) \<Rightarrow> 'x provisioner \<Rightarrow> provision_call \<Rightarrow> uuid \<Rightarrow>
    string \<Rightarrow> ('x, 'b) site \<Rightarrow> bool" where
  "can_provision holder ok P call t name s \<longleftrightarrow> (let d = pc_id call; tmp = sc_tmp (pc_snapshot call) in
     DatabaseName name = Inr name \<and> name \<noteq> [] \<and>
     (\<forall>r \<in> set (dbs_tab s). d_id r \<noteq> d \<and> d_unique r \<noteq> (t, name)) \<and>
     (\<forall>r \<in> set (snaps_tab s). s_id r \<noteq> sc_id (pc_snapshot call) \<and> s_database r \<noteq> d) \<and>
     dirs_to (disk s) (pv_base P) \<and> fresh_path (disk s) (pv_base P @ [t, d]) \<and> \<not> is_file (disk s) (pv_base P @ [t]) \<and>
     plain_path (pv_base P @ [t, d]) \<and> t @ ''_'' @ d \<notin> set (pv_cached P) \<and>
     tmp \<noteq> [] \<and> dirs_to (disk s) (butlast tmp) \<and> fresh_path (disk s) tmp \<and> \<not> prefix (pv_base P @ [t]) tmp \<and>
     ok (ext s) \<and> holder (ext s) (snapshot_lock d) = None)"

lemma table_map_absent: "\<forall>r \<in> set rows. pk r \<noteq> k \<Longrightarrow> table_map pk rows k = None"
  by (auto simp: table_map_def map_of_eq_None_iff)

context branch_services
begin

lemma database_created_run:
  assumes "ok (ext s)"
  obtains y where "database_created_event V t m s = (Inr (), s\<lparr>ext := y\<rparr>)" "ok y" "holder y = holder (ext s)" "objs y = objs (ext s)"
  using best_effort_event_run [OF assms] that unfolding database_created_event_def by blast

lemma provision_run:
  assumes "can_provision holder ok P call t name s"
  obtains resp snap s' where "provision_tenant_resources V P call t (Some name) s = (Inr resp, s')" "pr_id resp = pc_id call"
    "ok (ext s')" "holder (ext s') = holder (ext s)"
    "\<And>k. endswith k ''.tar.gz'' \<Longrightarrow> \<not> endswith k (snapshot_filename True (pc_snapshot call)) \<Longrightarrow> objs (ext s') k = objs (ext s) k"
    "dbs_tab s' = dbs_tab s @ [\<lparr>d_id = pc_id call, d_tenant = t, d_name = name,
      d_path = str_of_path (kuzu_db_path (pv_base P) t (pc_id call)), d_created = pc_now call\<rparr>]"
    "snaps_tab s' = snaps_tab s @ [snapshot_row t (pc_id call) snap]" "sr_id snap = sc_id (pc_snapshot call)"
    "endswith (sr_key snap) (snapshot_filename True (pc_snapshot call))" "sr_created snap = sc_created (pc_snapshot call)"
    "map_of (disk s') (kuzu_db_path (pv_base P) t (pc_id call)) = Some Dir" "dirs_to (disk s') (pv_base P @ [t, pc_id call])"
    "\<And>x r. x \<noteq> data_kuzu \<Longrightarrow> map_of (disk s') (pv_base P @ t # pc_id call # x # r) = None"
    "\<And>q. \<not> prefix (pv_base P @ [t, pc_id call]) q \<Longrightarrow> q \<noteq> pv_base P @ [t] \<Longrightarrow> \<not> prefix (sc_tmp (pc_snapshot call)) q \<Longrightarrow>
      map_of (disk s') q = map_of (disk s) q"
proof -
  define d where "d = pc_id call"
  define base where "base = pv_base P"
  define tmp where "tmp = sc_tmp (pc_snapshot call)"
  define p where "p = kuzu_db_path base t d"
  have c: "DatabaseName name = Inr name" "name \<noteq> []" "\<forall>r \<in> set (dbs_tab s). d_id r \<noteq> d \<and> d_unique r \<noteq> (t, name)"
     "\<forall>r \<in> set (snaps_tab s). s_id r \<noteq> sc_id (pc_snapshot call) \<and> s_database r \<noteq> d"
     "dirs_to (disk s) base" "fresh_path (disk s) (base @ [t, d])" "\<not> is_file (disk s) (base @ [t])"
     "plain_path (base @ [t, d])" "t @ ''_'' @ d \<notin> set (pv_cached P)"
     "tmp \<noteq> []" "dirs_to (disk s) (butlast tmp)" "fresh_path (disk s) tmp" "\<not> prefix (base @ [t]) tmp"
     "ok (ext s)" "holder (ext s) (snapshot_lock d) = None"
    using assms unfolding can_provision_def Let_def d_def base_def tmp_def by blast+
  obtain n ns where ns: "name = n # ns" using c(2) by (cases name) auto
  let ?row = "\<lparr>d_id = d, d_tenant = t, d_name = name, d_path = str_of_path p, d_created = pc_now call\<rparr>"
  have f: "on_dbs (metadata_find_by_name t name) s = (Inr None, s)"
  proof -
    have "List.find (\<lambda>r. d_unique r = (t, name)) (dbs_tab s) = None" using c(3) by (auto simp: find_None_iff)
    then show ?thesis by (simp add: on_dbs_def metadata_find_by_name_def bind_def sql_fetchone_def ret_def)
  qed
  obtain b x where bx: "pv_bucket P t (ext s) = (Inr b, x)" "ok x" "holder x = holder (ext s)"
    "\<forall>k. endswith k ''.tar.gz'' \<longrightarrow> objs x k = objs (ext s) k"
    using bucket_ready [OF c(14)] by blast
  let ?s1 = "s\<lparr>ext := x\<rparr>"
  obtain v where v0: "kuzu_create_database (bk_kuzu V) base (pv_cached P) d (pc_now call) t name (disk s) =
      (Inr (\<lparr>d_id = d, d_tenant = t, d_name = name, d_path = str_of_path (kuzu_db_path base t d), d_created = pc_now call\<rparr>,
        (t @ ''_'' @ d) # pv_cached P), v)" "map_of v (kuzu_db_path base t d) = Some Dir"
    "map_of v (kuzu_db_path base t d @ [data_kuzu]) = None" "dirs_to v (base @ [t, d])"
    "\<And>x r. x \<noteq> data_kuzu \<Longrightarrow> map_of v (base @ t # d # x # r) = None" "\<And>q. \<not> prefix (base @ [t, d]) q \<Longrightarrow> q \<noteq> base @ [t] \<Longrightarrow> map_of v q = map_of (disk s) q"
    by (rule kuzu_create_run [OF engine c(5-7,9)]) (rule that)
  note v = v0 [folded p_def]
  let ?s2 = "?s1\<lparr>disk := v\<rparr>"
  have k: "on_disk (kuzu_create_database (bk_kuzu V) base (pv_cached P) d (pc_now call) t name) ?s1 =
      (Inr (?row, (t @ ''_'' @ d) # pv_cached P), ?s2)" using v(1) by (simp add: on_disk_def)
  let ?s3 = "?s2\<lparr>dbs_tab := dbs_tab s @ [?row]\<rparr>"
  have ins: "sql_insert d_id d_unique ?row (dbs_tab s) = (Inr (), dbs_tab s @ [?row])"
    using c(3) by (auto simp: sql_insert_def list_ex_iff)
  have sv: "on_dbs (metadata_save ?row) ?s2 = (Inr d, ?s3)"
    using metadata_save_run [OF ins] by (simp add: on_dbs_def)
  have ok3: "ok (ext ?s3)" using bx(2) by simp
  obtain y where ev: "database_created_event V t ?row ?s3 = (Inr (), ?s3\<lparr>ext := y\<rparr>)" "ok y" "holder y = holder (ext ?s3)"
    "objs y = objs (ext ?s3)"
    by (rule database_created_run [OF ok3])
  let ?s4 = "?s3\<lparr>ext := y\<rparr>"
  have pp: "path_of (str_of_path p) = p"
    using c(8) by (intro path_of_str) (auto simp: p_def kuzu_db_path_def plain_path_def data_kuzu_def)
  have nd: "\<not> prefix tmp base"
  proof
    assume "prefix tmp base"
    then show False using c(5,12) by (auto simp: dirs_to_def fresh_path_def)
  qed
  have away: "\<not> prefix (base @ [t, d]) q \<and> q \<noteq> base @ [t]" if "\<not> prefix (base @ [t]) q" for q
    using that by (auto simp: prefix_def)
  have out: "\<not> prefix (base @ [t]) q" if "prefix tmp q \<or> prefix q (butlast tmp)" for q
  proof
    assume q: "prefix (base @ [t]) q"
    from that show False
    proof
      assume "prefix tmp q"
      with q have "prefix tmp (base @ [t]) \<or> prefix (base @ [t]) tmp" by (rule prefix_same_cases [rotated])
      with c(13) nd have "tmp = base @ [t]" by (auto simp: prefix_append prefix_Cons)
      with c(13) show False by simp
    next
      assume "prefix q (butlast tmp)"
      with q have "prefix (base @ [t]) (butlast tmp)" by (rule prefix_order.order_trans)
      with c(13) show False by (metis append_butlast_last_id c(10) prefix_prefix)
    qed
  qed
  have src: "source_path (str_of_path p) v = p"
    using v(3) by (simp add: source_path_def Let_def pp fs_simps)
  have np: "\<not> prefix p tmp"
    using c(13) by (auto simp: p_def kuzu_db_path_def prefix_def)
  have "can_snapshot holder ok (pc_snapshot call) True t d ?s4 p"
    unfolding can_snapshot_def
  proof (intro conjI)
    show "\<exists>r. table_map d_id (dbs_tab ?s4) d = Some r \<and> d_tenant r = t \<and> d_path r \<noteq> [] \<and> p = source_path (d_path r) (disk ?s4)"
      using table_map_new [of "dbs_tab s" d_id ?row] c(3) src
      by (intro exI [of _ ?row]) (simp add: str_of_path_def p_def kuzu_db_path_def)
    show "map_of (disk ?s4) p = Some Dir" using v(2) by simp
    show "sc_tmp (pc_snapshot call) \<noteq> []" using c(10) by (simp add: tmp_def)
    show "dirs_to (disk ?s4) (butlast (sc_tmp (pc_snapshot call)))"
      using c(11) away out v(6) by (simp add: dirs_to_def tmp_def [symmetric])
    show "fresh_path (disk ?s4) (sc_tmp (pc_snapshot call))"
      using c(12) away out v(6) by (simp add: fresh_path_def tmp_def [symmetric])
    show "\<not> prefix p (sc_tmp (pc_snapshot call))" using np by (simp add: tmp_def)
    show "fresh_snapshot (pc_snapshot call) True d (snaps_tab ?s4)" using c(4) by (simp add: fresh_snapshot_def)
    show "ok (ext ?s4)" using ev by simp
    show "holder (ext ?s4) (snapshot_lock d) = None" using ev bx c(15) by simp
  qed
  then obtain snap tree s5 where sn: "create_database_snapshot V (pc_snapshot call) True t d ?s4 = (Inr snap, s5)"
    "ok (ext s5)" "holder (ext s5) = holder (ext ?s4)" "dbs_tab s5 = dbs_tab ?s4" "snaps_tab s5 = snaps_tab ?s4 @ [snapshot_row t d snap]"
    "sr_id snap = sc_id (pc_snapshot call)" "sr_created snap = sc_created (pc_snapshot call)" "endswith (sr_key snap) (snapshot_filename True (pc_snapshot call))"
    "\<And>q. \<not> prefix (sc_tmp (pc_snapshot call)) q \<Longrightarrow> map_of (disk s5) q = map_of (disk ?s4) q"
    "\<And>k. \<not> endswith k (snapshot_filename True (pc_snapshot call)) \<Longrightarrow> objs (ext s5) k = objs (ext ?s4) k"
    by (rule create_snapshot_run) (rule that)
  have ini: "initial_snapshot V P call t d ?s4 = (Inr (), s5)"
    by (simp only: initial_snapshot_def guard_do_def snapshots_on if_True catch_def andthen_def bind_def sn(1) prod.case sum.case ret_def)
  let ?resp = "\<lparr>pr_bucket = b, pr_name = name, pr_id = d, pr_path = str_of_path p, pr_created = pc_now call\<rparr>"
  have ob: "on_ext (pv_bucket P t) s = (Inr b, ?s1)" using bx(1) by (simp add: on_ext_def)
  have sel: "(case Some name of Some (c # cs) \<Rightarrow> c # cs | _ \<Rightarrow> pv_default P) = name" by (simp add: ns)
  have nm: "of_result (DatabaseName name) s = (Inr name, s)" using c(1) by (simp add: of_result_def)
  have "provision_tenant_resources V P call t (Some name) s = (Inr ?resp, s5)"
    unfolding provision_tenant_resources_def sel base_def [symmetric] d_def [symmetric]
    by (simp only: bind_step nm f ob k prod.case sv ev(1) ini ret_def simp_thms if_False db_row.simps)
  moreover have "holder (ext s5) = holder (ext s)" using sn(3) ev(3) bx(3) by simp
  moreover have "objs (ext s5) k' = objs (ext s) k'"
    if "endswith k' ''.tar.gz''" "\<not> endswith k' (snapshot_filename True (pc_snapshot call))" for k'
    using sn(10) [OF that(2)] ev(4) bx(4) that(1) by simp
  moreover have q: "map_of (disk s5) q = map_of v q" if "\<not> prefix tmp q" for q
    using sn(9) that by (simp add: tmp_def)
  moreover have nt: "\<not> prefix tmp (base @ t # r)" for r
  proof
    assume "prefix tmp (base @ t # r)"
    then have "\<not> prefix (base @ [t]) (base @ t # r)" using out by blast
    then show False by simp
  qed
  moreover have "map_of (disk s5) p = Some Dir" using q nt [of "[d, data_kuzu]"] v(2) by (simp add: p_def kuzu_db_path_def)
  moreover have "dirs_to (disk s5) (base @ [t, d])"
    unfolding dirs_to_def
  proof (intro allI impI)
    fix r
    assume r: "prefix r (base @ [t, d])"
    have "\<not> prefix tmp r"
      using r nt [of "[d]"] prefix_order.order_trans [of tmp r "base @ [t, d]"] by blast
    with q v(4) r show "map_of (disk s5) r = Some Dir" by (simp add: dirs_to_def)
  qed
  moreover have "map_of (disk s5) (base @ t # d # x # r) = None" if "x \<noteq> data_kuzu" for x r
    using q nt [of "d # x # r"] v(5) that by simp
  moreover have "map_of (disk s5) r = map_of (disk s) r" if "\<not> prefix (base @ [t, d]) r" "r \<noteq> base @ [t]" "\<not> prefix tmp r" for r
    using q v(6) that by simp
  ultimately show thesis
    using that [of ?resp s5 snap] sn(2,4-8) by (simp add: d_def base_def tmp_def p_def)
qed

end

text \<open>A branch can be made from a snapshot: its database can be provisioned, the id of the copied row is new, the restore
  lock is free, and the key is not the one of the branch's initial snapshot.\<close>

definition can_branch :: "('x \<Rightarrow> string \<Rightarrow> string option) \<Rightarrow> ('x \<Rightarrow> bool) \<Rightarrow> 'x provisioner \<Rightarrow> branch_call \<Rightarrow>
    branch_request \<Rightarrow> snapshot_meta \<Rightarrow> ('x, 'b) site \<Rightarrow> bool" where
  "can_branch holder ok P call rq m s \<longleftrightarrow>
     BranchName (rq_branch rq) = Inr (rq_branch rq) \<and>
     can_provision holder ok P (bc_provision call) (rq_tenant rq) (to_full_name (rq_branch rq) (rq_source_name rq)) s \<and>
     bc_copy_id call \<noteq> sc_id (pc_snapshot (bc_provision call)) \<and> (\<forall>r \<in> set (snaps_tab s). s_id r \<noteq> bc_copy_id call) \<and>
     holder (ext s) (restore_lock (pc_id (bc_provision call))) = None \<and>
     endswith (sm_key m) ''.tar.gz'' \<and> \<not> endswith (sm_key m) (snapshot_filename True (pc_snapshot (bc_provision call)))"

definition branch_path :: "'x provisioner \<Rightarrow> branch_call \<Rightarrow> branch_request \<Rightarrow> path" where
  "branch_path P call rq = kuzu_db_path (pv_base P) (rq_tenant rq) (pc_id (bc_provision call))"

definition branch_row :: "'x provisioner \<Rightarrow> branch_call \<Rightarrow> branch_request \<Rightarrow> db_row" where
  "branch_row P call rq = \<lparr>d_id = pc_id (bc_provision call), d_tenant = rq_tenant rq,
     d_name = to_full_name (rq_branch rq) (rq_source_name rq), d_path = str_of_path (branch_path P call rq),
     d_created = pc_now (bc_provision call)\<rparr>"

text \<open>Outside the branch's directory, its tenant's one and the temporary one of its first snapshot.\<close>

definition outside :: "'x provisioner \<Rightarrow> branch_call \<Rightarrow> branch_request \<Rightarrow> path \<Rightarrow> bool" where
  "outside P call rq q \<longleftrightarrow> \<not> prefix (pv_base P @ [rq_tenant rq, pc_id (bc_provision call)]) q \<and>
     q \<noteq> pv_base P @ [rq_tenant rq] \<and> \<not> prefix (sc_tmp (pc_snapshot (bc_provision call))) q"

text \<open>What a branch's creation leaves: the row of the branch, the snapshot of its provisioning and the copied one, the
  tree at its path, and the rest of the disk.\<close>

definition branched :: "'x provisioner \<Rightarrow> branch_call \<Rightarrow> branch_request \<Rightarrow> snapshot_meta \<Rightarrow> dt \<Rightarrow> (path \<Rightarrow> 'b node option) \<Rightarrow>
    ('x, 'b) site \<Rightarrow> ('x, 'b) site \<Rightarrow> bool" where
  "branched P call rq m created T s s' \<longleftrightarrow> dbs_tab s' = dbs_tab s @ [branch_row P call rq] \<and>
     (\<exists>first copy. snaps_tab s' = snaps_tab s @ [first, copy] \<and>
        s_database first = pc_id (bc_provision call) \<and> s_created first = sc_created (pc_snapshot (bc_provision call)) \<and>
        s_id copy = bc_copy_id call \<and> s_database copy = pc_id (bc_provision call) \<and> s_key copy = sm_key m \<and> s_created copy = created) \<and>
     (\<forall>r. map_of (disk s') (branch_path P call rq @ r) = T r) \<and>
     (\<forall>q. outside P call rq q \<longrightarrow> map_of (disk s') q = map_of (disk s) q)"

context branch_services
begin

lemma fill_run:
  assumes "table_map d_id (dbs_tab s) d = Some row" "d_tenant row = t" "d_path row = str_of_path p" "plain_path p" "p \<noteq> []"
    and fresh_copy: "\<forall>r \<in> set (snaps_tab s). s_id r \<noteq> bc_copy_id call \<and> (s_database r = d \<longrightarrow> s_key r \<noteq> sm_key m)"
    and "sm_created m = IsoAware c" "objs (ext s) (sm_key m) = Some (TarGz tree)" "archive_of a T tree" "T [] = Some Dir"
      "endswith (sm_key m) ''.tar.gz''"
    and "dirs_to (disk s) (butlast p)" "fresh_path (disk s) (butlast p @ [''restore_'' @ bc_tmp call])" "''restore_'' @ bc_tmp call \<noteq> last p"
      "map_of (disk s) p = Some Dir" "ok (ext s)" "holder (ext s) (restore_lock d) = None"
  obtains s' copy where "fill_branch V raw call t d m s = (Inr (bc_copy_id call), s')" "ok (ext s')" "holder (ext s') = holder (ext s)"
    "objs (ext s') = objs (ext s)" "dbs_tab s' = dbs_tab s" "snaps_tab s' = snaps_tab s @ [copy]"
    "s_id copy = bc_copy_id call" "s_database copy = d" "s_key copy = sm_key m" "s_created copy = c"
    "\<And>q. map_of (disk s') q = (if prefix p q then T (drop (length p) q)
       else if prefix (butlast p @ [''restore_'' @ bc_tmp call]) q then None else map_of (disk s) q)"
proof -
  let ?copy = "\<lparr>s_id = bc_copy_id call, s_tenant = t, s_database = d, s_key = sm_key m, s_checksum = sm_checksum m,
    s_size = sm_size m, s_created = c\<rparr>"
  let ?s = "s\<lparr>snaps_tab := snaps_tab s @ [?copy]\<rparr>"
  have ins: "sql_insert s_id s_unique ?copy (snaps_tab s) = (Inr (), snaps_tab s @ [?copy])"
    using fresh_copy by (auto simp: sql_insert_def list_ex_iff)
  have sv: "on_snaps (snapshot_save (bc_copy_id call) t d (sm_key m) (sm_checksum m) (sm_size m) (sm_created m)) s = (Inr (bc_copy_id call), ?s)"
    using snapshot_save_run [OF ins] by (simp add: on_snaps_def assms(7))
  have pp: "path_of (str_of_path p) = p" by (rule path_of_str [OF assms(4,5)])
  have "can_restore holder ok (bc_tmp call) t d (bc_copy_id call) ?s p ?copy"
    unfolding can_restore_def
    using assms(1-3,5,12-17) pp table_map_new [of "snaps_tab s" s_id ?copy] fresh_copy
    by (simp add: str_of_path_def)
  then obtain s' where r: "restore_database_from_snapshot V raw (bc_tmp call) t d (bc_copy_id call) ?s = (Inr True, s')"
    "ok (ext s')" "holder (ext s') = holder (ext ?s)" "objs (ext s') = objs (ext ?s)"
    "dbs_tab s' = dbs_tab ?s" "snaps_tab s' = snaps_tab ?s"
    "\<And>q. map_of (disk s') q = (if prefix p q then T (drop (length p) q)
       else if prefix (butlast p @ [''restore_'' @ bc_tmp call]) q then None else map_of (disk ?s) q)"
    using restore_run [of "bc_tmp call" t d "bc_copy_id call" ?s p ?copy tree a T] assms(8-11) by auto
  have "fill_branch V raw call t d m s = (Inr (bc_copy_id call), s')"
    by (simp only: fill_branch_def bind_step sv r(1) ret_def)
  then show thesis using that [of s' ?copy] r(2-7) by simp
qed

lemma create_branch_run:
  assumes "branch_base V D fromiso call rq s = (Inr (origin, m, None), s1)" "can_branch holder ok P call rq m s1" "bd_snapshots D"
    and "sm_created m = IsoAware c" "objs (ext s1) (sm_key m) = Some (TarGz tree)" "archive_of a T tree" "T [] = Some Dir"
  obtains resp s' where "create_branch V P D fromiso raw J run call rq s = (Inr resp, s')" "rs_origin resp = origin"
    "rs_database resp = pc_id (bc_provision call)" "rs_snapshot resp = bc_copy_id call" "branched P call rq m c T s1 s'"
    "ok (ext s')" "holder (ext s') = holder (ext s1)"
proof -
  define t where "t = rq_tenant rq"
  define d where "d = pc_id (bc_provision call)"
  define full where "full = to_full_name (rq_branch rq) (rq_source_name rq)"
  define p where "p = kuzu_db_path (pv_base P) t d"
  have b: "BranchName (rq_branch rq) = Inr (rq_branch rq)" "can_provision holder ok P (bc_provision call) t full s1"
    "bc_copy_id call \<noteq> sc_id (pc_snapshot (bc_provision call))" "\<forall>r \<in> set (snaps_tab s1). s_id r \<noteq> bc_copy_id call"
    "holder (ext s1) (restore_lock d) = None" "endswith (sm_key m) ''.tar.gz''"
    "\<not> endswith (sm_key m) (snapshot_filename True (pc_snapshot (bc_provision call)))"
    using assms(2) unfolding can_branch_def t_def d_def full_def by blast+
  have c: "\<forall>r \<in> set (dbs_tab s1). d_id r \<noteq> d" "\<forall>r \<in> set (snaps_tab s1). s_database r \<noteq> d" "plain_path (pv_base P @ [t, d])"
    using b(2) unfolding can_provision_def Let_def d_def by auto
  obtain pr snap s2 where pv0: "provision_tenant_resources V P (bc_provision call) t (Some full) s1 = (Inr pr, s2)" "pr_id pr = pc_id (bc_provision call)"
    "ok (ext s2)" "holder (ext s2) = holder (ext s1)"
    "\<And>k. endswith k ''.tar.gz'' \<Longrightarrow> \<not> endswith k (snapshot_filename True (pc_snapshot (bc_provision call))) \<Longrightarrow>
      objs (ext s2) k = objs (ext s1) k"
    "dbs_tab s2 = dbs_tab s1 @ [\<lparr>d_id = pc_id (bc_provision call), d_tenant = t, d_name = full,
      d_path = str_of_path (kuzu_db_path (pv_base P) t (pc_id (bc_provision call))), d_created = pc_now (bc_provision call)\<rparr>]"
    "snaps_tab s2 = snaps_tab s1 @ [snapshot_row t (pc_id (bc_provision call)) snap]" "sr_id snap = sc_id (pc_snapshot (bc_provision call))"
    "endswith (sr_key snap) (snapshot_filename True (pc_snapshot (bc_provision call)))" "sr_created snap = sc_created (pc_snapshot (bc_provision call))"
    "map_of (disk s2) (kuzu_db_path (pv_base P) t (pc_id (bc_provision call))) = Some Dir" "dirs_to (disk s2) (pv_base P @ [t, pc_id (bc_provision call)])"
    "\<And>x r. x \<noteq> data_kuzu \<Longrightarrow> map_of (disk s2) (pv_base P @ t # pc_id (bc_provision call) # x # r) = None"
    "\<And>q. \<not> prefix (pv_base P @ [t, pc_id (bc_provision call)]) q \<Longrightarrow> q \<noteq> pv_base P @ [t] \<Longrightarrow>
      \<not> prefix (sc_tmp (pc_snapshot (bc_provision call))) q \<Longrightarrow> map_of (disk s2) q = map_of (disk s1) q"
    by (rule provision_run [OF b(2)]) (rule that)
  note pv = pv0 [folded d_def, folded p_def]
  have ob2: "objs (ext s2) (sm_key m) = Some (TarGz tree)" using pv(5) [OF b(6,7)] assms(5) by simp
  let ?row = "\<lparr>d_id = d, d_tenant = t, d_name = full, d_path = str_of_path p, d_created = pc_now (bc_provision call)\<rparr>"
  have row: "table_map d_id (dbs_tab s2) d = Some ?row"
    using table_map_new [of "dbs_tab s1" d_id ?row] c(1) by (simp add: pv(6))
  have plain: "plain_path p" "p \<noteq> []" using c(3) by (auto simp: p_def kuzu_db_path_def plain_path_def data_kuzu_def)
  have "sr_key snap \<noteq> sm_key m" using b(7) pv(9) by auto
  then have fresh: "\<forall>r \<in> set (snaps_tab s2). s_id r \<noteq> bc_copy_id call \<and> (s_database r = d \<longrightarrow> s_key r \<noteq> sm_key m)"
    using b(3,4) c(2) pv(8) by (auto simp: pv(7) snapshot_row_def)
  have bl: "butlast p = pv_base P @ [t, d]" "last p = data_kuzu" by (simp_all add: p_def kuzu_db_path_def butlast_append)
  have nk: "''restore_'' @ bc_tmp call \<noteq> data_kuzu" by (simp add: data_kuzu_def)
  have d2: "dirs_to (disk s2) (butlast p)" "fresh_path (disk s2) (butlast p @ [''restore_'' @ bc_tmp call])" "''restore_'' @ bc_tmp call \<noteq> last p"
    using pv(12) pv(13) [OF nk] nk unfolding bl by (auto simp: fresh_path_def elim!: prefixE)
  have lk: "holder (ext s2) (restore_lock d) = None" using pv(4) b(5) by simp
  obtain s3 copy where f: "fill_branch V raw call t d m s2 = (Inr (bc_copy_id call), s3)" "ok (ext s3)" "holder (ext s3) = holder (ext s2)"
    "objs (ext s3) = objs (ext s2)" "dbs_tab s3 = dbs_tab s2" "snaps_tab s3 = snaps_tab s2 @ [copy]"
    "s_id copy = bc_copy_id call" "s_database copy = d" "s_key copy = sm_key m" "s_created copy = c"
    "\<And>q. map_of (disk s3) q = (if prefix p q then T (drop (length p) q)
       else if prefix (butlast p @ [''restore_'' @ bc_tmp call]) q then None else map_of (disk s2) q)"
    by (rule fill_run [OF row _ _ plain fresh assms(4) ob2 assms(6,7) b(6) d2 pv(11,3) lk]) (simp, simp, rule that)
  obtain x where e: "best_effort_event V t ''branch_created'' ''Branch Created''
         (''Branch '' @ [CHR 39] @ full @ [CHR 39] @ '' created from '' @ [CHR 39] @ rq_source_name rq @ [CHR 39])
         [(''branch_name'', rq_branch rq), (''full_name'', full), (''parent_database'', rq_source_name rq),
          (''branch_database_id'', d), (''snapshot_id'', bc_copy_id call)] s3 = (Inr (), s3\<lparr>ext := x\<rparr>)"
    "ok x" "holder x = holder (ext s3)"
    using best_effort_event_run [OF f(2)] by metis
  let ?resp = "\<lparr>rs_full_name = full, rs_database = d, rs_snapshot = bc_copy_id call, rs_origin = origin,
         rs_created = bc_created call\<rparr>"
  let ?s = "s3\<lparr>ext := x\<rparr>"
  have n: "of_result (BranchName (rq_branch rq)) s = (Inr (rq_branch rq), s)" using b(1) by (simp add: of_result_def)
  have "create_branch V P D fromiso raw J run call rq s = (Inr ?resp, ?s)"
    unfolding create_branch_def Let_def t_def [symmetric]
    by (simp only: bind_step n assms(1,3) prod.case full_def [symmetric] pv(1,2) f(1) option.case e(1) ret_def
        simp_thms if_False andthen_def bind_def sum.case)
  moreover have "branched P call rq m c T s1 ?s"
    unfolding branched_def
  proof (intro conjI)
    have bp: "branch_path P call rq = p" by (simp add: branch_path_def p_def t_def d_def)
    show "dbs_tab ?s = dbs_tab s1 @ [branch_row P call rq]"
      by (simp add: f(5) pv(6) branch_row_def bp) (simp add: d_def t_def full_def)
    have "snaps_tab ?s = snaps_tab s1 @ [snapshot_row t d snap, copy]" by (simp add: f(6) pv(7))
    then show "\<exists>first copy. snaps_tab ?s = snaps_tab s1 @ [first, copy] \<and>
        s_database first = pc_id (bc_provision call) \<and> s_created first = sc_created (pc_snapshot (bc_provision call)) \<and>
        s_id copy = bc_copy_id call \<and> s_database copy = pc_id (bc_provision call) \<and> s_key copy = sm_key m \<and> s_created copy = c"
      using f(7-10) pv(10) by (intro exI [of _ "snapshot_row t d snap"] exI [of _ copy]) (simp add: snapshot_row_def d_def)
    show "\<forall>r. map_of (disk ?s) (branch_path P call rq @ r) = T r" by (simp add: f(11) bp)
    show "\<forall>q. outside P call rq q \<longrightarrow> map_of (disk ?s) q = map_of (disk s1) q"
    proof (intro allI impI)
      fix q
      assume "outside P call rq q"
      then have q: "\<not> prefix (pv_base P @ [t, d]) q" "q \<noteq> pv_base P @ [t]" "\<not> prefix (sc_tmp (pc_snapshot (bc_provision call))) q"
        unfolding outside_def t_def d_def by blast+
      have above: "prefix (pv_base P @ [t, d]) p" "prefix (pv_base P @ [t, d]) (butlast p @ [''restore_'' @ bc_tmp call])"
        unfolding bl(1) by (simp_all add: p_def kuzu_db_path_def prefix_append)
      have "\<not> prefix p q" "\<not> prefix (butlast p @ [''restore_'' @ bc_tmp call]) q"
        using q(1) prefix_order.order_trans [OF above(1), of q] prefix_order.order_trans [OF above(2), of q] by blast+
      then show "map_of (disk ?s) q = map_of (disk s1) q" using pv(14) [OF q] by (simp add: f(11))
    qed
  qed
  ultimately show thesis using that [of ?resp ?s] e(2,3) f(3) pv(4) by (simp add: d_def)
qed

end

end
