(* ===== verification/Branch_Copies.thy ===== *)
theory Branch_Copies
  imports Branch_Run
begin

text \<open>
  What creating a branch gives over Redis and MinIO: with no snapshot named, a copy of the source as it is;
  with the id of a snapshot, a copy of that snapshot, whoever owns it.
\<close>

section \<open>The wiring\<close>

text \<open>\<open>KuzuDatabaseProvisioningAdapter\<close> and \<open>MinioBucketProvisioningAdapter\<close> as the branch routes wire them.\<close>

definition minio_provisioner :: "('m, 'b) s3 \<Rightarrow> string \<Rightarrow> 'b \<Rightarrow> path \<Rightarrow> string list \<Rightarrow> string \<Rightarrow> ('r \<times> 'm) provisioner" where
  "minio_provisioner C bucket sentinel base cached fallback = \<lparr>pv_bucket = \<lambda>t. on_snd (minio_ensure_bucket C bucket sentinel t),
     pv_base = base, pv_cached = cached, pv_snapshots = True, pv_default = fallback\<rparr>"

definition provisioned :: string where
  "provisioned = ''_provisioned''"

lemma endswith_same: "endswith k a \<Longrightarrow> endswith k b \<Longrightarrow> length a = length b \<Longrightarrow> a = b"
  by (auto simp: endswith_def)

lemma not_provisioned: "endswith k ''.tar.gz'' \<Longrightarrow> \<not> endswith k (p @ ''_provisioned'')"
proof
  assume k: "endswith k ''.tar.gz''" "endswith k (p @ ''_provisioned'')"
  from k(1) have "k \<noteq> []" "List.last k = CHR ''z''" by (auto simp: endswith_iff)
  moreover from k(2) have "List.last k = CHR ''d''" by (auto simp: endswith_iff)
  ultimately show False by simp
qed

context deployment
begin

lemma bucket_provisioned:
  "\<exists>b m'. minio_ensure_bucket C bucket sentinel t m = (Inr b, m') \<and>
     (\<forall>k. endswith k ''.tar.gz'' \<longrightarrow> stored_at view bucket m' k = stored_at view bucket m k)"
proof -
  define o1 where "o1 = tenant_prefix t @ ''_provisioned''"
  obtain m' where m: "put_object C bucket o1 sentinel (ensure_bucket C bucket m) = (S3Ok (), m')"
    "view m' = (view (ensure_bucket C bucket m))(bucket := (view (ensure_bucket C bucket m) bucket)(o1 \<mapsto> sentinel))"
    using put [where b = bucket and m = "ensure_bucket C bucket m" and k = o1 and x = sentinel] ensured by blast
  have v: "view (ensure_bucket C bucket m) = view m" using ensured by simp
  have "stored_at view bucket m' k = stored_at view bucket m k" if k: "endswith k ''.tar.gz''" for k
  proof -
    obtain b o2 where bo: "bucket_and_key bucket k = (b, o2)" by (metis surj_pair)
    have "o2 \<noteq> o1"
    proof
      assume "o2 = o1"
      then have "o2 \<noteq> []" by (simp add: o1_def)
      with bucket_and_key_suffix [OF bo] \<open>o2 = o1\<close> have "endswith k o1" by simp
      with not_provisioned [OF k] show False by (simp only: o1_def)
    qed
    with bo m(2) v show ?thesis by (simp add: stored_at_def)
  qed
  then show ?thesis using m(1) unfolding minio_ensure_bucket_def o1_def by auto
qed

lemma branch_deployment:
  assumes "creates_dir kuzu"
  shows "branch_services (redis_minio_backend R dumps loads tok C bucket digest sizes kuzu)
    (\<lambda>x. lock_holder rview (fst x)) (\<lambda>x. locks_typed rview (fst x)) (\<lambda>x. stored_at view bucket (snd x))
    (minio_provisioner C bucket sentinel base cached fallback)"
proof (intro branch_services.intro site_services_axioms branch_services_axioms.intro)
  fix x :: "'r \<times> 'm" and t
  assume x: "locks_typed rview (fst x)"
  obtain b m' where "minio_ensure_bucket C bucket sentinel t (snd x) = (Inr b, m')"
    "\<forall>k. endswith k ''.tar.gz'' \<longrightarrow> stored_at view bucket m' k = stored_at view bucket (snd x) k"
    using bucket_provisioned by blast
  then show "\<exists>b x'. pv_bucket (minio_provisioner C bucket sentinel base cached fallback) t x = (Inr b, x') \<and>
      locks_typed rview (fst x') \<and> lock_holder rview (fst x') = lock_holder rview (fst x) \<and>
      (\<forall>k. endswith k ''.tar.gz'' \<longrightarrow> stored_at view bucket (snd x') k = stored_at view bucket (snd x) k)"
    using x by (simp add: minio_provisioner_def on_snd_def)
qed (use assms in \<open>simp_all add: redis_minio_backend_def minio_provisioner_def\<close>)

end

text \<open>The directory an engine would fill, empty.\<close>

definition make_dir :: "path \<Rightarrow> ('b files, unit) act" where
  "make_dir p v = (Inr (), (p, Dir) # v)"

lemma make_dir_creates: "creates_dir make_dir"
  unfolding creates_dir_def
proof (intro allI impI)
  fix v :: "'a files" and p
  assume "fresh_path v p"
  then have "map_of v (p @ [data_kuzu]) = None" by (auto simp: fresh_path_def)
  then show "\<exists>v'. make_dir p v = (Inr (), v') \<and> map_of v' p = Some Dir \<and> map_of v' (p @ [data_kuzu]) = None \<and>
      (\<forall>q. \<not> prefix p q \<longrightarrow> map_of v' q = map_of v q)"
    by (auto simp: make_dir_def)
qed

definition branch_backend :: "(keyspace \<times> nat blob ref_s3, nat, string) backend" where
  "branch_backend = redis_minio_backend ref_redis id id ''tok'' (ref_s3 (\<lambda>_. 1)) ''kuzu'' (\<lambda>_. ''sum'') (\<lambda>_. 1) make_dir"

definition branch_provisioner :: "(keyspace \<times> nat blob ref_s3) provisioner" where
  "branch_provisioner = minio_provisioner (ref_s3 (\<lambda>_. 1)) ''kuzu'' (Bytes 0) [''data''] [] ''main''"

interpretation demo_branches: branch_services branch_backend "\<lambda>x. lock_holder (\<lambda>r. r) (fst x)" "\<lambda>x. locks_typed (\<lambda>r. r) (fst x)"
  "\<lambda>x. stored_at ref_view ''kuzu'' (snd x)" branch_provisioner
  unfolding branch_backend_def branch_provisioner_def
  by (rule ref_deployment.branch_deployment [OF make_dir_creates])

section \<open>Properties\<close>

definition latest_wanted :: "branch_request \<Rightarrow> bool" where
  "latest_wanted rq \<longleftrightarrow> rq_from rq \<in> {None, Some [], Some ''latest''}"

text \<open>The snapshot record a branch takes from a new snapshot.\<close>

definition meta_of_response :: "snapshot_response \<Rightarrow> snapshot_meta" where
  "meta_of_response r = \<lparr>sm_key = sr_key r, sm_checksum = sr_checksum r, sm_size = sr_size r, sm_created = IsoAware (sr_created r)\<rparr>"

lemma branch_base_latest:
  assumes "latest_wanted rq" "create_database_snapshot V (bc_snapshot call) True (rq_tenant rq) (rq_source rq) s = (Inr r, s1)"
  shows "branch_base V D fromiso call rq s = (Inr (sr_id r, meta_of_response r, None), s1)"
  using assms by (auto simp: latest_wanted_def branch_base_def base_latest_def meta_of_response_def bind_def ret_def)

lemma branch_base_existing:
  assumes "rq_from rq = Some f" "f \<noteq> ''latest''" "UUID f = Inr i" "bd_snapshots D" "table_map s_id (snaps_tab s) i = Some row"
  shows "branch_base V D fromiso call rq s = (Inr (i, meta_of (snapshot_dict row), None), s)"
proof -
  have "UUID [] = raise ValueError ''badly formed hexadecimal UUID string''" by code_simp
  with assms(3) have "f \<noteq> []" by auto
  moreover have "on_snaps (snapshot_find_by_id i) s = (Inr (Some row), s)"
    using assms(5) by (simp add: on_snaps_def snapshot_find_by_id_run)
  ultimately show ?thesis using assms(1-4) by (simp add: branch_base_def base_existing_def bind_def ret_def)
qed

text \<open>C4: A branch of the latest state. When the source can be snapshotted and the branch provisioned, creating the
  branch succeeds: its row is added, its two snapshots are the empty one of its provisioning and a second row for the
  object just taken of the source, the tree at its path is the source's, and the disk is untouched outside the
  branch's directory, its tenant's one and the two temporary ones. The source's own rows and files stay.\<close>

theorem branch_copies_source:
  assumes "branch_services V holder ok objs P" "latest_wanted rq" "bd_snapshots D"
    and "can_snapshot holder ok (bc_snapshot call) True (rq_tenant rq) (rq_source rq) s p"
    and "create_database_snapshot V (bc_snapshot call) True (rq_tenant rq) (rq_source rq) s = (Inr snap, s1)"
    and "can_branch holder ok P call rq (meta_of_response snap) s1"
  shows "\<exists>resp s'. create_branch V P D fromiso raw J run call rq s = (Inr resp, s') \<and> rs_origin resp = sr_id snap \<and>
    rs_database resp = d_id (branch_row P call rq) \<and> dbs_tab s' = dbs_tab s @ [branch_row P call rq] \<and>
    (\<exists>first copy. snaps_tab s' = snaps_tab s @ [snapshot_row (rq_tenant rq) (rq_source rq) snap, first, copy] \<and>
       {s_database first, s_database copy} = {rs_database resp} \<and> s_id copy = rs_snapshot resp \<and> s_key copy = sr_key snap) \<and>
    (\<forall>r. map_of (disk s') (branch_path P call rq @ r) = map_of (disk s) (p @ r)) \<and>
    (\<forall>q. outside P call rq q \<longrightarrow> \<not> prefix (sc_tmp (bc_snapshot call)) q \<longrightarrow> map_of (disk s') q = map_of (disk s) q) \<and>
    holder (ext s') = holder (ext s)"
proof -
  have site: "site_services V holder ok objs" using assms(1) by (simp add: branch_services_def)
  obtain resp tree u where c0: "create_database_snapshot V (bc_snapshot call) True (rq_tenant rq) (rq_source rq) s = (Inr resp, u)"
    "holder (ext u) = holder (ext s)" "dbs_tab u = dbs_tab s"
    "snaps_tab u = snaps_tab s @ [snapshot_row (rq_tenant rq) (rq_source rq) resp]"
    "archive_of (rq_source rq) (\<lambda>r. map_of (disk s) (p @ r)) tree" "objs (ext u) (sr_key resp) = Some (TarGz tree)"
    "\<And>q. \<not> prefix (sc_tmp (bc_snapshot call)) q \<Longrightarrow> map_of (disk u) q = map_of (disk s) q"
    by (rule site_services.create_snapshot_run [OF site assms(4)]) (rule that)
  have "resp = snap" "u = s1" using c0(1) assms(5) by simp_all
  note c = c0 [unfolded this]
  have root: "map_of (disk s) (p @ []) = Some Dir" using assms(4) by (simp add: can_snapshot_def)
  have m: "sm_created (meta_of_response snap) = IsoAware (sr_created snap)" "sm_key (meta_of_response snap) = sr_key snap"
    by (simp_all add: meta_of_response_def)
  obtain rs s' where b: "create_branch V P D fromiso raw J run call rq s = (Inr rs, s')" "rs_origin rs = sr_id snap"
    "rs_database rs = pc_id (bc_provision call)" "rs_snapshot rs = bc_copy_id call"
    "branched P call rq (meta_of_response snap) (sr_created snap) (\<lambda>r. map_of (disk s) (p @ r)) s1 s'"
    "ok (ext s')" "holder (ext s') = holder (ext s1)"
    by (rule branch_services.create_branch_run [OF assms(1) branch_base_latest [OF assms(2,5)] assms(6,3) m(1) _ c(5) root])
      (simp add: m(2) c(6), rule that)
  obtain first copy where t: "snaps_tab s' = snaps_tab s1 @ [first, copy]" "s_database first = pc_id (bc_provision call)"
    "s_id copy = bc_copy_id call" "s_database copy = pc_id (bc_provision call)" "s_key copy = sm_key (meta_of_response snap)"
    and d: "dbs_tab s' = dbs_tab s1 @ [branch_row P call rq]" "\<forall>r. map_of (disk s') (branch_path P call rq @ r) = map_of (disk s) (p @ r)"
      "\<forall>q. outside P call rq q \<longrightarrow> map_of (disk s') q = map_of (disk s1) q"
    using b(5) unfolding branched_def by blast
  have "d_id (branch_row P call rq) = pc_id (bc_provision call)" by (simp add: branch_row_def)
  then show ?thesis using b(1-4,7) t d c(2-4,7) m(2) by (intro exI [of _ rs] exI [of _ s']) auto
qed

text \<open>A source of one file and an empty data directory; branches of it into a database \<open>b\<close>.\<close>

definition branch_site :: "(keyspace \<times> nat blob ref_s3, nat) site" where
  "branch_site = demo_site\<lparr>disk := ([''data''], Dir) # disk demo_site\<rparr>"

definition branch_demo_call :: branch_call where
  "branch_demo_call = \<lparr>bc_snapshot = demo_call,
     bc_provision = \<lparr>pc_id = ''b'', pc_now = DT 2024 1 2 0 0 2 0, pc_snapshot = demo_call\<lparr>sc_hex := ''g'', sc_tmp := [''tmp'', ''y''], sc_id := ''j''\<rparr>\<rparr>,
     bc_copy_id = ''k'', bc_tmp = ''n'', bc_created = DT 2024 1 2 0 0 3 0\<rparr>"

definition branch_demo_request :: "string option \<Rightarrow> branch_request" where
  "branch_demo_request from1 = \<lparr>rq_tenant = ''t'', rq_source = ''d'', rq_source_name = ''main'', rq_branch = ''dev'', rq_from = from1\<rparr>"

lemma branch_can_snapshot: "can_snapshot (\<lambda>x. lock_holder (\<lambda>r. r) (fst x)) (\<lambda>x. locks_typed (\<lambda>r. r) (fst x))
    demo_call True ''t'' ''d'' branch_site [''db'']"
proof -
  have "path_of ''/db'' = [''db'']" by (simp add: path_of_def)
  moreover have "dirs_to (disk branch_site) (butlast (sc_tmp demo_call))"
    by (auto simp: dirs_to_def branch_site_def demo_site_def demo_call_def prefix_Cons)
  moreover have "fresh_path (disk branch_site) (sc_tmp demo_call)"
    unfolding fresh_path_def by (auto simp: prefix_def branch_site_def demo_site_def demo_call_def)
  moreover have "fresh_snapshot demo_call True ''d'' (snaps_tab branch_site)" by (simp add: fresh_snapshot_def branch_site_def demo_site_def)
  ultimately show ?thesis
    unfolding can_snapshot_def
    by (simp add: table_map_def source_path_def fs_simps data_kuzu_def lock_holder_def locks_typed_def branch_site_def demo_site_def demo_call_def)
qed

lemma branch_demo_names: "BranchName ''dev'' = Inr ''dev''" "DatabaseName (to_full_name ''dev'' ''main'') = Inr (to_full_name ''dev'' ''main'')"
  by code_simp+

lemma branch_demo_ready:
  assumes "dbs_tab s = dbs_tab demo_site"
    and snaps: "\<forall>r \<in> set (snaps_tab s). s_id r \<notin> {''j'', ''k''} \<and> s_database r \<noteq> ''b''"
    and d: "\<And>q. \<not> prefix [''tmp'', ''x''] q \<Longrightarrow> map_of (disk s) q = map_of (disk branch_site) q"
    and "locks_typed (\<lambda>r. r) (fst (ext s))" "lock_holder (\<lambda>r. r) (fst (ext s)) = lock_holder (\<lambda>r. r) Map.empty"
    and key: "endswith (sm_key m) ''.tar.gz''" "\<not> endswith (sm_key m) (snapshot_filename True (pc_snapshot (bc_provision branch_demo_call)))"
  shows "can_branch (\<lambda>x. lock_holder (\<lambda>r. r) (fst x)) (\<lambda>x. locks_typed (\<lambda>r. r) (fst x)) branch_provisioner branch_demo_call
    (branch_demo_request from1) m s"
proof -
  have base: "pv_base branch_provisioner = [''data'']" "pv_cached branch_provisioner = []"
    by (simp_all add: branch_provisioner_def minio_provisioner_def)
  have "dirs_to (disk s) [''data'']"
    by (auto simp: dirs_to_def prefix_Cons d branch_site_def demo_site_def)
  moreover have "fresh_path (disk s) [''data'', ''t'', ''b'']"
    unfolding fresh_path_def by (auto simp: prefix_def d branch_site_def demo_site_def)
  moreover have "\<not> is_file (disk s) [''data'', ''t'']" by (simp add: fs_simps d branch_site_def demo_site_def)
  moreover have "plain_path [''data'', ''t'', ''b'']" by (simp add: plain_path_def)
  moreover have "dirs_to (disk s) [''tmp'']" by (auto simp: dirs_to_def prefix_Cons d branch_site_def demo_site_def)
  moreover have "fresh_path (disk s) [''tmp'', ''y'']"
    unfolding fresh_path_def by (auto simp: prefix_def d branch_site_def demo_site_def)
  moreover have "\<forall>k. lock_holder (\<lambda>r. r) (fst (ext s)) k = None" unfolding assms(5) by (simp add: lock_holder_def)
  moreover have "to_full_name ''dev'' ''main'' \<noteq> ''main''" "to_full_name ''dev'' ''main'' \<noteq> []" by (simp_all add: to_full_name_def branch_sep_def)
  ultimately show ?thesis
    unfolding can_branch_def can_provision_def base Let_def using snaps key assms(1,4) branch_demo_names
    by (simp add: branch_demo_call_def branch_demo_request_def demo_call_def demo_site_def)
qed

theorem branch_copies_source_witness:
  "\<exists>resp s'. create_branch branch_backend branch_provisioner \<lparr>bd_snapshots = True, bd_pitr = False\<rparr> (\<lambda>_. BadIso) (\<lambda>_. 0)
      \<lparr>no_text = Bytes 0, add_line = \<lambda>b _. b, lines_of = \<lambda>_. []\<rparr> (\<lambda>p q. ret [()]) branch_demo_call (branch_demo_request None) branch_site = (Inr resp, s') \<and>
    map_of (disk s') [''data'', ''t'', ''b'', data_kuzu, ''f''] = Some (File 1)"
proof -
  let ?D = "\<lparr>bd_snapshots = True, bd_pitr = False\<rparr>"
  let ?J = "\<lparr>no_text = Bytes 0, add_line = \<lambda>b _. b, lines_of = \<lambda>_. []\<rparr> :: nat blob codec"
  have l: "latest_wanted (branch_demo_request None)" "bd_snapshots ?D" by (simp_all add: latest_wanted_def branch_demo_request_def)
  have site: "site_services branch_backend (\<lambda>x. lock_holder (\<lambda>r. r) (fst x)) (\<lambda>x. locks_typed (\<lambda>r. r) (fst x)) (\<lambda>x. stored_at ref_view ''kuzu'' (snd x))"
    by (rule demo_branches.site_services_axioms)
  note can = branch_can_snapshot
  have c: "bc_snapshot branch_demo_call = demo_call" "rq_tenant (branch_demo_request None) = ''t''" "rq_source (branch_demo_request None) = ''d''"
    by (simp_all add: branch_demo_call_def branch_demo_request_def)
  obtain snap s1 where s: "create_database_snapshot branch_backend demo_call True ''t'' ''d'' branch_site = (Inr snap, s1)"
    "locks_typed (\<lambda>r. r) (fst (ext s1))" "lock_holder (\<lambda>r. r) (fst (ext s1)) = lock_holder (\<lambda>r. r) (fst (ext branch_site))"
    "dbs_tab s1 = dbs_tab branch_site" "snaps_tab s1 = snaps_tab branch_site @ [snapshot_row ''t'' ''d'' snap]"
    "endswith (sr_key snap) ''.tar.gz''" "sr_id snap = sc_id demo_call" "endswith (sr_key snap) (snapshot_filename True demo_call)"
    "\<And>q. \<not> prefix (sc_tmp demo_call) q \<Longrightarrow> map_of (disk s1) q = map_of (disk branch_site) q"
    by (rule site_services.create_snapshot_run [OF site can]) (rule that)
  have n: "\<not> endswith (sr_key snap) (snapshot_filename True (pc_snapshot (bc_provision branch_demo_call)))"
    using endswith_same [OF s(8), of "snapshot_filename True (pc_snapshot (bc_provision branch_demo_call))"]
    by (auto simp: snapshot_filename_def branch_demo_call_def demo_call_def)
  have ready: "can_branch (\<lambda>x. lock_holder (\<lambda>r. r) (fst x)) (\<lambda>x. locks_typed (\<lambda>r. r) (fst x)) branch_provisioner branch_demo_call
    (branch_demo_request None) (meta_of_response snap) s1"
    by (rule branch_demo_ready)
      (use s n in \<open>simp_all add: branch_site_def demo_site_def demo_call_def snapshot_row_def meta_of_response_def\<close>)
  note t = branch_copies_source [where call = branch_demo_call, OF demo_branches.branch_services_axioms l, unfolded c, OF can s(1) ready, of "\<lambda>_. BadIso" "\<lambda>_. 0" ?J "\<lambda>p q. ret [()]"]
  then obtain resp s' where b: "create_branch branch_backend branch_provisioner ?D (\<lambda>_. BadIso) (\<lambda>_. 0) ?J (\<lambda>p q. ret [()]) branch_demo_call
      (branch_demo_request None) branch_site = (Inr resp, s')"
    "\<forall>r. map_of (disk s') (branch_path branch_provisioner branch_demo_call (branch_demo_request None) @ r) = map_of (disk branch_site) ([''db''] @ r)"
    by blast
  moreover have "branch_path branch_provisioner branch_demo_call (branch_demo_request None) @ [''f''] = [''data'', ''t'', ''b'', data_kuzu, ''f'']"
    by (simp add: branch_path_def kuzu_db_path_def branch_provisioner_def minio_provisioner_def branch_demo_call_def branch_demo_request_def)
  moreover have "map_of (disk branch_site) ([''db''] @ [''f'']) = Some (File 1)" by (simp add: branch_site_def demo_site_def)
  ultimately have "map_of (disk s') [''data'', ''t'', ''b'', data_kuzu, ''f''] = Some (File 1)" by metis
  with b(1) show ?thesis by blast
qed

text \<open>C20: A branch of a snapshot named by its id takes any snapshot there is: whoever owns it and whatever database
  it was made of, the branch is created and its tree is the one archived in the snapshot's object.\<close>

theorem branch_takes_any_snapshot:
  assumes "branch_services V holder ok objs P" "rq_from rq = Some f" "f \<noteq> ''latest''" "UUID f = Inr i" "bd_snapshots D"
    and "table_map s_id (snaps_tab s) i = Some row" "objs (ext s) (s_key row) = Some (TarGz tree)"
    and "archive_of a T tree" "T [] = Some Dir" "can_branch holder ok P call rq (meta_of (snapshot_dict row)) s"
  shows "\<exists>resp s'. create_branch V P D fromiso raw J run call rq s = (Inr resp, s') \<and> rs_origin resp = i \<and>
    branched P call rq (meta_of (snapshot_dict row)) (s_created row) T s s'"
proof -
  have m: "sm_created (meta_of (snapshot_dict row)) = IsoAware (s_created row)" "sm_key (meta_of (snapshot_dict row)) = s_key row"
    by (simp_all add: meta_of_def snapshot_dict_def)
  obtain rs s' where "create_branch V P D fromiso raw J run call rq s = (Inr rs, s')" "rs_origin rs = i"
    "rs_database rs = pc_id (bc_provision call)" "rs_snapshot rs = bc_copy_id call"
    "branched P call rq (meta_of (snapshot_dict row)) (s_created row) T s s'"
    "ok (ext s')" "holder (ext s') = holder (ext s)"
    by (rule branch_services.create_branch_run [OF assms(1) branch_base_existing [OF assms(2-6)] assms(10,5) m(1) _ assms(8,9)])
      (simp add: m(2) assms(7), rule that)
  then show ?thesis by blast
qed

text \<open>The snapshot is of a database of another tenant.\<close>

definition foreign_snapshot :: snap_row where
  "foreign_snapshot = \<lparr>s_id = ''01234567-89ab-cdef-0123-456789abcdef'', s_tenant = ''other'', s_database = ''z'',
     s_key = ''s3://kuzu/k.tar.gz'', s_checksum = ''sum'', s_size = 1, s_created = DT 2024 1 1 0 0 0 0\<rparr>"

theorem branch_takes_any_snapshot_witness:
  "\<exists>resp s'. create_branch branch_backend branch_provisioner \<lparr>bd_snapshots = True, bd_pitr = False\<rparr> (\<lambda>_. BadIso) (\<lambda>_. 0)
      \<lparr>no_text = Bytes 0, add_line = \<lambda>b _. b, lines_of = \<lambda>_. []\<rparr> (\<lambda>p q. ret [()]) branch_demo_call
      (branch_demo_request (Some ''0123456789ABCDEF0123456789ABCDEF''))
      (branch_site\<lparr>snaps_tab := [foreign_snapshot],
         ext := (Map.empty, [((''kuzu'', ''k.tar.gz''), TarGz [([''z''], Dir), ([''z'', data_kuzu], Dir), ([''z'', data_kuzu, ''f''], File 7)])])\<rparr>) = (Inr resp, s') \<and>
    s_tenant foreign_snapshot \<noteq> ''t'' \<and> map_of (disk s') [''data'', ''t'', ''b'', data_kuzu, ''f''] = Some (File 7)"
proof -
  let ?D = "\<lparr>bd_snapshots = True, bd_pitr = False\<rparr>"
  let ?J = "\<lparr>no_text = Bytes 0, add_line = \<lambda>b _. b, lines_of = \<lambda>_. []\<rparr> :: nat blob codec"
  let ?f = "''0123456789ABCDEF0123456789ABCDEF''"
  let ?tree = "[([''z''], Dir), ([''z'', data_kuzu], Dir), ([''z'', data_kuzu, ''f''], File 7)] :: nat files"
  let ?s = "branch_site\<lparr>snaps_tab := [foreign_snapshot], ext := (Map.empty, [((''kuzu'', ''k.tar.gz''), TarGz ?tree)])\<rparr>"
  let ?T = "\<lambda>r. map_of ?tree ([''z'', data_kuzu] @ r)"
  have rq: "rq_from (branch_demo_request (Some ?f)) = Some ?f" by (simp add: branch_demo_request_def)
  have u: "?f \<noteq> ''latest''" "UUID ?f = Inr (s_id foreign_snapshot)" by code_simp+
  have row: "table_map s_id (snaps_tab ?s) (s_id foreign_snapshot) = Some foreign_snapshot" by (simp add: table_map_def)
  have o: "stored_at ref_view ''kuzu'' (snd (ext ?s)) (s_key foreign_snapshot) = Some (TarGz ?tree)"
    using bucket_and_key_url [of "''kuzu''" "''kuzu''" "''k.tar.gz''"] by (simp add: stored_at_def foreign_snapshot_def ref_view_def)
  have a: "archive_of ''z'' ?T ?tree" "?T [] = Some Dir" by (auto simp: archive_of_def split: list.split)
  have "length (snapshot_filename True (pc_snapshot (bc_provision branch_demo_call))) > length (s_key foreign_snapshot)"
    by (simp add: snapshot_filename_def foreign_snapshot_def)
  then have n: "\<not> endswith (s_key foreign_snapshot) (snapshot_filename True (pc_snapshot (bc_provision branch_demo_call)))"
    by (simp add: endswith_def)
  have ready: "can_branch (\<lambda>x. lock_holder (\<lambda>r. r) (fst x)) (\<lambda>x. locks_typed (\<lambda>r. r) (fst x)) branch_provisioner branch_demo_call
    (branch_demo_request (Some ?f)) (meta_of (snapshot_dict foreign_snapshot)) ?s"
    by (rule branch_demo_ready)
      (use n in \<open>simp_all add: branch_site_def demo_site_def locks_typed_def foreign_snapshot_def meta_of_def snapshot_dict_def endswith_def\<close>)
  have "bd_snapshots ?D" by simp
  from branch_takes_any_snapshot [OF demo_branches.branch_services_axioms rq u this row o a ready, of "\<lambda>_. BadIso" "\<lambda>_. 0" ?J "\<lambda>p q. ret [()]"]
  obtain resp s' where b: "create_branch branch_backend branch_provisioner ?D (\<lambda>_. BadIso) (\<lambda>_. 0) ?J (\<lambda>p q. ret [()]) branch_demo_call
      (branch_demo_request (Some ?f)) ?s = (Inr resp, s')"
    "\<forall>r. map_of (disk s') (branch_path branch_provisioner branch_demo_call (branch_demo_request (Some ?f)) @ r) = ?T r"
    unfolding branched_def by blast
  moreover have "branch_path branch_provisioner branch_demo_call (branch_demo_request (Some ?f)) @ [''f''] = [''data'', ''t'', ''b'', data_kuzu, ''f'']"
    by (simp add: branch_path_def kuzu_db_path_def branch_provisioner_def minio_provisioner_def branch_demo_call_def branch_demo_request_def)
  moreover have "?T [''f''] = Some (File 7)" by (simp add: data_kuzu_def)
  ultimately have "map_of (disk s') [''data'', ''t'', ''b'', data_kuzu, ''f''] = Some (File 7)" by metis
  with b(1) show ?thesis by (auto simp: foreign_snapshot_def)
qed

end
