(* ===== verification/Customers.thy ===== *)
theory Customers
  imports Customer_Account Ports "HOL-Library.AList"
begin

text \<open>
  Customers as they are stored and served: the table \<open>customers\<close> with its repository
  (\<open>infrastructure/database/tenant_repository.py\<close>), the key store
  (\<open>infrastructure/auth/api_key_authentication_service.py\<close>) and the use cases about customers in
  \<open>application/usecases\<close>. \<open>sha\<close> is the hexadecimal SHA-256 of a text; salts, tokens, ids and times
  are arguments.
\<close>

section \<open>Rows\<close>

record customer_row =
  c_id :: uuid
  c_tenant :: string
  c_email :: string
  c_key :: string
  c_key_created :: int
  c_key_used :: "int option"
  c_key_active :: bool
  c_hash :: string
  c_status :: string
  c_plan :: string
  c_quota_mb :: rat
  c_max_dbs :: int
  c_max_queries :: int
  c_started :: int
  c_expires :: "int option"
  c_usage_mb :: rat
  c_db_count :: int
  c_created :: int
  c_updated :: int
  c_last_login :: "int option"
  c_org :: "string option"

text \<open>The aggregate with the two attributes that are set on it from outside, when they are.\<close>

record customer =
  cu_account :: account
  cu_org :: "string option"
  cu_hash :: "string option"

definition populate_model :: "customer \<Rightarrow> string \<Rightarrow> customer_row" where
  "populate_model c h = (let a = cu_account c; s = subscription a in
     \<lparr>c_id = acc_id a, c_tenant = acc_name a, c_email = email a, c_key = key_value (key a),
      c_key_created = key_created_at (key a), c_key_used = last_used (key a), c_key_active = is_active (key a),
      c_hash = h, c_status = status_value (status a), c_plan = plan_value (sub_plan s),
      c_quota_mb = to_megabytes (storage_quota s), c_max_dbs = max_databases s, c_max_queries = max_concurrent_queries s,
      c_started = started_at s, c_expires = expires_at s, c_usage_mb = to_megabytes (usage a),
      c_db_count = database_count a, c_created = created_at a, c_updated = updated_at a,
      c_last_login = last_login a, c_org = cu_org c\<rparr>)"

definition status_of_value :: "string \<Rightarrow> account_status result" where
  "status_of_value v = (case List.find (\<lambda>st. status_value st = v) [ACTIVE, SUSPENDED, TRIAL, EXPIRED, DELETED] of
       Some st \<Rightarrow> Inr st | None \<Rightarrow> raise ValueError ''not a valid CustomerAccountStatus'')"

definition plan_of_value :: "string \<Rightarrow> plan result" where
  "plan_of_value v = (case List.find (\<lambda>p. plan_value p = v) [Trial, Basic, Professional, Enterprise] of
       Some p \<Rightarrow> Inr p | None \<Rightarrow> raise ValueError ''not a valid SubscriptionPlan'')"

text \<open>The attributes are set when the columns are not empty. The aggregate's constructor may announce a
  new account, but its events are dropped before the value is returned.\<close>

definition nonempty :: "string option \<Rightarrow> string option" where
  "nonempty x = (if x = Some [] then None else x)"

definition model_to_domain :: "customer_row \<Rightarrow> customer result" where
  "model_to_domain m =
     bind_r (TenantName (c_tenant m)) (\<lambda>n.
     bind_r (EmailAddress (c_email m)) (\<lambda>e.
     bind_r (ApiKey (c_key m) (c_key_created m) (c_key_used m) (c_key_active m)) (\<lambda>k.
     bind_r (status_of_value (c_status m)) (\<lambda>st.
     bind_r (plan_of_value (c_plan m)) (\<lambda>p.
     bind_r (StorageSize (c_quota_mb m) MB) (\<lambda>q.
     bind_r (SubscriptionDetails p q (c_max_dbs m) (c_max_queries m) (c_started m) (c_expires m)) (\<lambda>s.
     bind_r (StorageSize (c_usage_mb m) MB) (\<lambda>u.
     if c_db_count m < 0 then raise ValidationError ''Database count cannot be negative''
     else Inr \<lparr>cu_account = \<lparr>acc_id = c_id m, acc_name = n, email = e, key = k, status = st, subscription = s,
            usage = u, database_count = c_db_count m, created_at = c_created m, updated_at = c_updated m,
            last_login = c_last_login m, events = []\<rparr>,
          cu_org = nonempty (c_org m), cu_hash = nonempty (Some (c_hash m))\<rparr>))))))))"

section \<open>The repository\<close>

text \<open>The declared widths of the columns, and \<open>Integer\<close>.\<close>

definition pg_int :: "int \<Rightarrow> bool" where
  "pg_int n \<longleftrightarrow> - 2147483648 \<le> n \<and> n < 2147483648"

definition column_widths :: "customer_row \<Rightarrow> bool" where
  "column_widths r \<longleftrightarrow> length (c_tenant r) \<le> 50 \<and> length (c_email r) \<le> 255 \<and> length (c_key r) \<le> 255 \<and>
     length (c_hash r) \<le> 255 \<and> (case c_org r of None \<Rightarrow> True | Some x \<Rightarrow> length x \<le> 100) \<and>
     pg_int (c_max_dbs r) \<and> pg_int (c_max_queries r) \<and> pg_int (c_db_count r)"

definition clashes :: "customer_row \<Rightarrow> customer_row \<Rightarrow> bool" where
  "clashes r x \<longleftrightarrow> c_id x \<noteq> c_id r \<and> (c_tenant x = c_tenant r \<or> c_email x = c_email r \<or> c_key x = c_key r)"

definition put_row :: "customer_row \<Rightarrow> customer_row list \<Rightarrow> customer_row list" where
  "put_row r rows = (if list_ex (\<lambda>x. c_id x = c_id r) rows
     then map (\<lambda>x. if c_id x = c_id r then r else x) rows else rows @ [r])"

definition upsert_model :: "customer \<Rightarrow> (customer_row list, customer_row) act" where
  "upsert_model c rows = (case cu_hash c of
       None \<Rightarrow> (raise RuntimeError ''Database operation failed: null value in column password_hash'', rows)
     | Some h \<Rightarrow> let r = populate_model c h in
         if \<not> column_widths r then (raise RuntimeError ''Database operation failed: value too long'', rows)
         else if list_ex (clashes r) rows then (raise RuntimeError ''Database operation failed: duplicate key value'', rows)
         else (Inr r, put_row r rows))"

definition customer_save :: "customer \<Rightarrow> (customer_row list, customer) act" where
  "customer_save c = bind (upsert_model c) (\<lambda>r. of_result (model_to_domain r))"

definition scalar_one_or_none :: "('r \<Rightarrow> bool) \<Rightarrow> 'r list \<Rightarrow> 'r option result" where
  "scalar_one_or_none p rows = (case filter p rows of [] \<Rightarrow> Inr None | [r] \<Rightarrow> Inr (Some r)
     | _ \<Rightarrow> raise RuntimeError ''Database operation failed: Multiple rows were found'')"

definition select_customer :: "(customer_row \<Rightarrow> bool) \<Rightarrow> (customer_row list, customer option) act" where
  "select_customer p rows = (bind_r (scalar_one_or_none p rows) (\<lambda>m. case m of
       None \<Rightarrow> Inr None | Some r \<Rightarrow> bind_r (model_to_domain r) (\<lambda>c. Inr (Some c))), rows)"

definition customer_find_by_id :: "uuid \<Rightarrow> (customer_row list, customer option) act" where
  "customer_find_by_id i = select_customer (\<lambda>r. c_id r = i)"

definition customer_find_by_email :: "string \<Rightarrow> (customer_row list, customer option) act" where
  "customer_find_by_email e = bind (of_result (EmailAddress e)) (\<lambda>n. select_customer (\<lambda>r. c_email r = n))"

definition customer_find_by_api_key :: "string \<Rightarrow> (customer_row list, customer option) act" where
  "customer_find_by_api_key k = select_customer (\<lambda>r. c_key r = k)"

definition customer_find_by_tenant_name :: "string \<Rightarrow> (customer_row list, customer option) act" where
  "customer_find_by_tenant_name n = select_customer (\<lambda>r. c_tenant r = n)"

definition exists_by_tenant_name :: "string \<Rightarrow> (customer_row list, bool) act" where
  "exists_by_tenant_name n rows = (Inr (0 < length (filter (\<lambda>r. c_tenant r = n) rows)), rows)"

definition customer_find_all :: "nat \<Rightarrow> nat \<Rightarrow> (customer_row list, customer list) act" where
  "customer_find_all limit offset rows = (map_r model_to_domain (take limit (drop offset (py_sorted_desc c_created rows))), rows)"

definition customer_delete :: "uuid \<Rightarrow> (customer_row list, bool) act" where
  "customer_delete i rows = (Inr (0 < length (filter (\<lambda>r. c_id r = i) rows)), filter (\<lambda>r. c_id r \<noteq> i) rows)"

definition count_total :: "(customer_row list, nat) act" where
  "count_total rows = (Inr (length rows), rows)"

definition list_all_customers :: "(customer_row list, customer list) act" where
  "list_all_customers rows = (map_r model_to_domain rows, rows)"

section \<open>The key store\<close>

record key_record =
  kr_tenant :: uuid
  kr_name :: string
  kr_permissions :: "string list"
  kr_revoked :: bool
  kr_created :: int
  kr_revoked_at :: "int option"

type_synonym keyring = "(string \<times> key_record) list"

definition generate_api_key :: "string \<Rightarrow> int \<Rightarrow> uuid \<Rightarrow> string \<Rightarrow> string list \<Rightarrow> (keyring, string) act" where
  "generate_api_key tok now t name permissions ks = (Inr (''kb_'' @ tok), AList.update (''kb_'' @ tok)
     \<lparr>kr_tenant = t, kr_name = name, kr_permissions = permissions, kr_revoked = False, kr_created = now, kr_revoked_at = None\<rparr> ks)"

definition revoke_api_key :: "int \<Rightarrow> string \<Rightarrow> (keyring, bool) act" where
  "revoke_api_key now k ks = (case map_of ks k of
       None \<Rightarrow> (Inr False, ks)
     | Some r \<Rightarrow> if kr_revoked r then (Inr False, ks)
         else (Inr True, AList.update k (r\<lparr>kr_revoked := True, kr_revoked_at := Some now\<rparr>) ks))"

definition list_api_keys :: "uuid \<Rightarrow> (keyring, keyring) act" where
  "list_api_keys t ks = (Inr (filter (\<lambda>(k, r). kr_tenant r = t) ks), ks)"

definition validate_api_key :: "string \<Rightarrow> (keyring, (uuid \<times> string list \<times> string) option) act" where
  "validate_api_key k ks = (Inr (case map_of ks k of
       None \<Rightarrow> None
     | Some r \<Rightarrow> if kr_revoked r then None else Some (kr_tenant r, kr_permissions r, kr_name r)), ks)"

definition hash_password :: "(string \<Rightarrow> string) \<Rightarrow> string \<Rightarrow> string \<Rightarrow> string" where
  "hash_password sha salt password = salt @ '':'' @ sha (password @ salt)"

text \<open>Without a colon the unpacking raises \<open>ValueError\<close>, which means no.\<close>

definition verify_password :: "(string \<Rightarrow> string) \<Rightarrow> string \<Rightarrow> string \<Rightarrow> bool" where
  "verify_password sha password password_hash = (case split_first '':'' password_hash of
       None \<Rightarrow> False | Some (salt, hashed) \<Rightarrow> sha (password @ salt) = hashed)"

section \<open>Use cases\<close>

text \<open>The table, the key store of the process, and the world of the other services. A cached value is a
  JSON object of texts and nulls.\<close>

record 'x office =
  customers :: "customer_row list"
  keyring :: keyring
  services :: 'x

definition on_customers :: "(customer_row list, 'a) act \<Rightarrow> ('x office, 'a) act" where
  "on_customers m w = (case m (customers w) of (r, t) \<Rightarrow> (r, w\<lparr>customers := t\<rparr>))"

definition on_keyring :: "(keyring, 'a) act \<Rightarrow> ('x office, 'a) act" where
  "on_keyring m w = (case m (keyring w) of (r, t) \<Rightarrow> (r, w\<lparr>keyring := t\<rparr>))"

definition on_services :: "('x, 'a) act \<Rightarrow> ('x office, 'a) act" where
  "on_services m w = (case m (services w) of (r, t) \<Rightarrow> (r, w\<lparr>services := t\<rparr>))"

type_synonym json_object = "(string \<times> string option) list"

record register_request =
  rg_tenant_name :: string
  rg_email :: string
  rg_organization :: string
  rg_password :: string

record register_response =
  rr_customer :: uuid
  rr_tenant_name :: string
  rr_organization :: string
  rr_email :: string
  rr_api_key :: string
  rr_status :: string
  rr_created :: int

text \<open>The id, the clock, the key the aggregate makes for itself, the salt and the token of the key.\<close>

record register_call =
  rc_id :: uuid
  rc_now :: int
  rc_spare :: string
  rc_salt :: string
  rc_token :: string

definition initial_permissions :: "string list" where
  "initial_permissions = [''database:read'', ''database:write'', ''query:execute'']"

definition account_key :: "uuid \<Rightarrow> string" where
  "account_key i = ''account:'' @ i"

text \<open>\<open>provision\<close> makes the default database when its three services were given; what it raises is ignored.\<close>

definition register_customer :: "(string \<Rightarrow> string) \<Rightarrow> 'x event_port \<Rightarrow> ('x, json_object) cache_port \<Rightarrow>
    (uuid \<Rightarrow> ('x, unit) act) option \<Rightarrow> register_call \<Rightarrow> register_request \<Rightarrow> ('x office, register_response) act" where
  "register_customer sha E K provision call rq =
     bind (of_result (TenantName (rg_tenant_name rq))) (\<lambda>name.
     bind (of_result (EmailAddress (rg_email rq))) (\<lambda>mail.
     bind (on_customers (customer_find_by_tenant_name name)) (\<lambda>existing.
     if existing \<noteq> None then throw ValueError ''Tenant already exists'' else
     bind (on_customers (customer_find_by_email mail)) (\<lambda>existing_email.
     if existing_email \<noteq> None then throw ValueError ''Admin email already in use'' else
     bind (of_result (CustomerAccount (rc_now call) (rc_spare call) (rc_id call) name mail ACTIVE)) (\<lambda>account.
     bind (on_keyring (generate_api_key (rc_token call) (rc_now call) (rc_id call) ''default'' initial_permissions)) (\<lambda>raw_key.
     bind (of_result (ApiKey raw_key (rc_now call) None True)) (\<lambda>k.
     andthen (on_customers (customer_save \<lparr>cu_account = account\<lparr>key := k\<rparr>, cu_org = Some (rg_organization rq),
         cu_hash = Some (hash_password sha (rc_salt call) (rg_password rq))\<rparr>))
     (andthen (case provision of None \<Rightarrow> ret ()
        | Some p \<Rightarrow> catch (on_services (p (rc_id call))) (\<lambda>_. ret ()))
     (andthen (on_services (emit E (rc_id call) ''welcome'' ''Welcome to Kuzu Event Bus''
         (''Your account has been created successfully. Organization: '' @ rg_organization rq) []))
     (andthen (on_services (cache_set K (account_key (rc_id call))
         [(''customer_id'', Some (rc_id call)), (''tenant_name'', Some (rg_tenant_name rq)),
          (''organization_name'', Some (rg_organization rq)), (''status'', Some (status_value (status account)))] (Some 3600)))
     (ret \<lparr>rr_customer = rc_id call, rr_tenant_name = rg_tenant_name rq, rr_organization = rg_organization rq,
        rr_email = rg_email rq, rr_api_key = raw_key, rr_status = status_value (status account),
        rr_created = created_at account\<rparr>)))))))))))"

definition customer_details :: "(int \<Rightarrow> string) \<Rightarrow> account \<Rightarrow> json_object" where
  "customer_details iso_text a = [(''customer_id'', Some (acc_id a)), (''tenant_name'', Some (acc_name a)),
     (''admin_email'', Some (email a)), (''subscription_status'', Some (status_value (status a))),
     (''created_at'', Some (iso_text (created_at a))), (''last_activity'', map_option iso_text (last_login a))]"

definition get_customer_details :: "('x, json_object) cache_port \<Rightarrow> (int \<Rightarrow> string) \<Rightarrow> uuid \<Rightarrow> ('x office, json_object option) act" where
  "get_customer_details K iso_text i =
     bind (on_services (cache_get K (account_key i))) (\<lambda>cached.
     if cached \<noteq> None \<and> cached \<noteq> Some [] then ret cached else
     bind (on_customers (customer_find_by_id i)) (\<lambda>c. case c of
         None \<Rightarrow> ret None
       | Some c \<Rightarrow> let d = customer_details iso_text (cu_account c) in
           andthen (on_services (cache_set K (account_key i) d (Some 3600))) (ret (Some d))))"

definition list_customer_api_keys :: "uuid \<Rightarrow> ('x office, keyring) act" where
  "list_customer_api_keys i = bind (on_customers (customer_find_by_id i)) (\<lambda>c. case c of
       None \<Rightarrow> throw ValueError ''Customer not found''
     | Some _ \<Rightarrow> on_keyring (list_api_keys i))"

definition create_customer_api_key :: "'x event_port \<Rightarrow> string \<Rightarrow> int \<Rightarrow> uuid \<Rightarrow> string \<Rightarrow> string list \<Rightarrow> ('x office, string) act" where
  "create_customer_api_key E tok now i name permissions =
     bind (on_customers (customer_find_by_id i)) (\<lambda>c. case c of
       None \<Rightarrow> throw ValueError ''Customer not found''
     | Some c \<Rightarrow> if status (cu_account c) \<noteq> ACTIVE then throw ValueError ''Account is not active'' else
         bind (on_keyring (generate_api_key tok now i name permissions)) (\<lambda>k.
         andthen (on_services (emit E i ''api_key_created'' ''New API Key Created''
            (''API key '' @ [CHR 39] @ name @ [CHR 39] @ '' has been created with '' @ py_str_nat (length permissions) @ '' permissions'') []))
         (ret k)))"

text \<open>The key is not compared with the customer before it is revoked.\<close>

definition revoke_customer_api_key :: "int \<Rightarrow> uuid \<Rightarrow> string \<Rightarrow> ('x office, bool) act" where
  "revoke_customer_api_key now i k =
     bind (on_customers (customer_find_by_id i)) (\<lambda>c. case c of
       None \<Rightarrow> ret False
     | Some c \<Rightarrow> bind (on_keyring (revoke_api_key now k)) (\<lambda>success.
         let a = cu_account c in
         andthen (guard_do (success \<and> key_value (key a) = k \<and> is_active (key a))
            (andthen (on_customers (customer_save (c\<lparr>cu_account := a\<lparr>key := deactivate (key a)\<rparr>\<rparr>))) (ret ())))
          (ret success)))"

text \<open>The aggregate has no method \<open>reactivate_account\<close>. Suspending raises when it is suspended already.\<close>

definition update_customer_subscription_status :: "('x, json_object) cache_port \<Rightarrow> 'x event_port \<Rightarrow> int \<Rightarrow> uuid \<Rightarrow> string \<Rightarrow>
    ('x office, bool) act" where
  "update_customer_subscription_status K E now i new_status =
     bind (on_customers (customer_find_by_id i)) (\<lambda>c. case c of
       None \<Rightarrow> ret False
     | Some c \<Rightarrow> let a = cu_account c; announce =
           (\<lambda>b. andthen (on_customers (customer_save (c\<lparr>cu_account := b\<rparr>)))
            (andthen (on_services (cache_delete K (account_key i)))
            (andthen (on_services (emit E i ''subscription_updated'' ''Subscription Status Updated''
               (''Your subscription status has been updated to: '' @ new_status) []))
            (ret True)))) in
         if new_status = ''suspended'' then
           (case suspend_account now ''Administrative action'' a of
              (Inl e, _) \<Rightarrow> of_result (Inl e) | (Inr _, b) \<Rightarrow> announce b)
         else if new_status = ''active'' \<and> status_value (status a) = ''suspended''
           then throw AttributeError ''reactivate_account''
         else ret True)"

section \<open>What is stored reads back\<close>

definition valid_customer :: "customer \<Rightarrow> bool" where
  "valid_customer c \<longleftrightarrow> (let a = cu_account c in
     TenantName (acc_name a) = Inr (acc_name a) \<and> EmailAddress (email a) = Inr (email a) \<and> valid_key (key a) \<and>
     0 \<le> to_megabytes (storage_quota (subscription a)) \<and> 0 < max_databases (subscription a) \<and>
     0 < max_concurrent_queries (subscription a) \<and> 0 \<le> to_megabytes (usage a) \<and> 0 \<le> database_count a)"

text \<open>Sizes come back in megabytes, without events, and empty attributes as missing ones.\<close>

definition stored :: "customer \<Rightarrow> customer" where
  "stored c = (let a = cu_account c; s = subscription a in
     \<lparr>cu_account = a\<lparr>subscription := s\<lparr>storage_quota := \<lparr>amount = to_megabytes (storage_quota s), size_unit = MB\<rparr>\<rparr>,
        usage := \<lparr>amount = to_megabytes (usage a), size_unit = MB\<rparr>, events := []\<rparr>,
      cu_org = nonempty (cu_org c), cu_hash = nonempty (cu_hash c)\<rparr>)"

lemma status_of_value_value [simp]: "status_of_value (status_value st) = Inr st"
  by (cases st) (simp_all add: status_of_value_def)

lemma plan_of_value_value [simp]: "plan_of_value (plan_value p) = Inr p"
  by (cases p) (simp_all add: plan_of_value_def)

lemma model_populate:
  assumes "valid_customer c" "cu_hash c = Some h"
  shows "model_to_domain (populate_model c h) = Inr (stored c)"
proof -
  define a where "a = cu_account c"
  have v: "TenantName (acc_name a) = Inr (acc_name a)" "EmailAddress (email a) = Inr (email a)" "valid_key (key a)"
    "\<not> to_megabytes (storage_quota (subscription a)) < 0" "\<not> max_databases (subscription a) \<le> 0"
    "\<not> max_concurrent_queries (subscription a) \<le> 0" "\<not> to_megabytes (usage a) < 0" "\<not> database_count a < 0"
    using assms(1) by (auto simp: valid_customer_def a_def Let_def)
  have k: "ApiKey (key_value (key a)) (key_created_at (key a)) (last_used (key a)) (is_active (key a)) = Inr (key a)"
    using v(3) by (simp add: ApiKey_def valid_key_def)
  show ?thesis
    using assms(2) v k unfolding stored_def a_def
    by (simp add: model_to_domain_def populate_model_def Let_def StorageSize_def SubscriptionDetails_def)
qed

lemma model_to_domain_valid:
  assumes "model_to_domain r = Inr c"
  shows "valid_customer c" "acc_id (cu_account c) = c_id r" "key_value (key (cu_account c)) = c_key r"
    "is_active (key (cu_account c)) = c_key_active r" "status_value (status (cu_account c)) = c_status r"
  using assms
  by (auto simp: model_to_domain_def bind_r_ok_iff valid_customer_def Let_def StorageSize_def SubscriptionDetails_def
      ApiKey_def valid_key_def to_megabytes_def status_of_value_def
      dest: TenantName_idem EmailAddress_idem split: if_splits option.splits)

section \<open>The table's type\<close>

text \<open>The declared keys are unique and every row can be read.\<close>

definition customers_ok :: "customer_row list \<Rightarrow> bool" where
  "customers_ok rows \<longleftrightarrow> distinct (map c_id rows) \<and> distinct (map c_tenant rows) \<and> distinct (map c_email rows) \<and>
     distinct (map c_key rows) \<and> (\<forall>r \<in> set rows. is_ok (model_to_domain r))"

lemma scalar_hit: "distinct (map f rows) \<Longrightarrow> r \<in> set rows \<Longrightarrow> scalar_one_or_none (\<lambda>x. f x = f r) rows = Inr (Some r)"
proof (induction rows)
  case (Cons a rows)
  show ?case
  proof (cases "r = a")
    case True
    have "filter (\<lambda>x. f x = f r) rows = []" using Cons.prems(1) True by (auto simp: filter_empty_conv image_iff)
    then show ?thesis using True by (simp add: scalar_one_or_none_def)
  next
    case False
    then have "f a \<noteq> f r" using Cons.prems by (auto simp: image_iff)
    then show ?thesis using Cons False by (simp add: scalar_one_or_none_def)
  qed
qed simp

lemma scalar_miss: "\<forall>x \<in> set rows. \<not> p x \<Longrightarrow> scalar_one_or_none p rows = Inr None"
proof -
  assume "\<forall>x \<in> set rows. \<not> p x"
  then have "filter p rows = []" by (simp add: filter_empty_conv)
  then show ?thesis by (simp add: scalar_one_or_none_def)
qed

lemma scalar_SomeD: "scalar_one_or_none p rows = Inr (Some r) \<Longrightarrow> r \<in> set rows \<and> p r"
proof -
  assume "scalar_one_or_none p rows = Inr (Some r)"
  then have "filter p rows = [r]" by (auto simp: scalar_one_or_none_def split: list.splits)
  then have "r \<in> set (filter p rows)" by simp
  then show ?thesis by simp
qed

lemma scalar_NoneD: "scalar_one_or_none p rows = Inr None \<Longrightarrow> \<forall>x \<in> set rows. \<not> p x"
proof -
  assume "scalar_one_or_none p rows = Inr None"
  then have "filter p rows = []" by (auto simp: scalar_one_or_none_def split: list.splits)
  then show ?thesis by (simp add: filter_empty_conv)
qed

lemma select_hit:
  "distinct (map f rows) \<Longrightarrow> r \<in> set rows \<Longrightarrow> model_to_domain r = Inr c \<Longrightarrow>
    select_customer (\<lambda>x. f x = f r) rows = (Inr (Some c), rows)"
  by (simp add: select_customer_def scalar_hit)

lemma select_miss: "\<forall>x \<in> set rows. \<not> p x \<Longrightarrow> select_customer p rows = (Inr None, rows)"
  by (simp add: select_customer_def scalar_miss)

lemma select_SomeD:
  assumes "select_customer p rows = (Inr (Some c), rows')"
  obtains r where "r \<in> set rows" "p r" "model_to_domain r = Inr c" "rows' = rows"
proof -
  have b: "bind_r (scalar_one_or_none p rows) (\<lambda>m. case m of None \<Rightarrow> Inr None
      | Some r \<Rightarrow> bind_r (model_to_domain r) (\<lambda>c. Inr (Some c))) = Inr (Some c)" "rows' = rows"
    using assms unfolding select_customer_def prod.inject by (rule conjunct1) (rule conjunct2 [OF assms [unfolded select_customer_def prod.inject], symmetric])
  obtain m where m: "scalar_one_or_none p rows = Inr m" using b(1) by (cases "scalar_one_or_none p rows") simp_all
  obtain r where r: "m = Some r" using b(1) m by (cases m) simp_all
  have "model_to_domain r = Inr c" using b(1) m r by (cases "model_to_domain r") simp_all
  then show thesis using that scalar_SomeD [of p rows r] m r b(2) by blast
qed

lemma select_NoneD: "select_customer p rows = (Inr None, rows') \<Longrightarrow> (\<forall>x \<in> set rows. \<not> p x) \<and> rows' = rows"
proof -
  assume s: "select_customer p rows = (Inr None, rows')"
  have b: "bind_r (scalar_one_or_none p rows) (\<lambda>m. case m of None \<Rightarrow> Inr None
      | Some r \<Rightarrow> bind_r (model_to_domain r) (\<lambda>c. Inr (Some c))) = Inr None" "rows' = rows"
    using s unfolding select_customer_def prod.inject by (rule conjunct1) (rule conjunct2 [OF s [unfolded select_customer_def prod.inject], symmetric])
  obtain m where m: "scalar_one_or_none p rows = Inr m" using b(1) by (cases "scalar_one_or_none p rows") simp_all
  have "m = None"
  proof (cases m)
    case (Some r)
    then show ?thesis using b(1) m by (cases "model_to_domain r") simp_all
  qed
  then show ?thesis using scalar_NoneD [of p rows] m b(2) by simp
qed

lemma select_valid: "select_customer p rows = (Inr (Some c), rows') \<Longrightarrow> valid_customer c"
  by (erule select_SomeD) (rule model_to_domain_valid)

section \<open>Saving\<close>

lemma set_put_row: "set (put_row r rows) = insert r {x \<in> set rows. c_id x \<noteq> c_id r}"
proof (cases "list_ex (\<lambda>x. c_id x = c_id r) rows")
  case True
  then have "\<exists>y \<in> set rows. c_id y = c_id r" by (simp add: list_ex_iff)
  with True show ?thesis by (auto simp: put_row_def image_iff)
next
  case False
  then show ?thesis by (auto simp: put_row_def list_ex_iff)
qed

lemma distinct_put:
  assumes "distinct (map c_id rows)" "distinct (map f rows)" "\<forall>x \<in> set rows. c_id x \<noteq> c_id r \<longrightarrow> f x \<noteq> f r"
  shows "distinct (map f (put_row r rows))"
  using assms
proof (cases "list_ex (\<lambda>x. c_id x = c_id r) rows")
  case True
  let ?g = "\<lambda>x. if c_id x = c_id r then r else x"
  have "inj_on (\<lambda>x. f (?g x)) (set rows)"
  proof (rule inj_onI)
    fix x y
    assume xy: "x \<in> set rows" "y \<in> set rows" "f (?g x) = f (?g y)"
    have id: "inj_on c_id (set rows)" and fi: "inj_on f (set rows)" using assms(1,2) by (simp_all add: distinct_map)
    show "x = y"
    proof (cases "c_id x = c_id r"; cases "c_id y = c_id r")
      assume "c_id x = c_id r" "c_id y = c_id r"
      then show ?thesis using inj_onD [OF id] xy by simp
    next
      assume "c_id x \<noteq> c_id r" "c_id y \<noteq> c_id r"
      then show ?thesis using inj_onD [OF fi] xy by simp
    qed (use xy assms(3) in auto)
  qed
  moreover have "distinct rows" using assms(1) by (simp add: distinct_map)
  ultimately show ?thesis
    using True by (simp add: put_row_def distinct_map comp_def)
next
  case False
  then show ?thesis using assms by (auto simp: put_row_def list_ex_iff image_iff)
qed

lemma customers_ok_put:
  assumes "customers_ok rows" "is_ok (model_to_domain r)" "\<not> list_ex (clashes r) rows"
  shows "customers_ok (put_row r rows)"
proof -
  have d: "distinct (map c_id rows)" "distinct (map c_tenant rows)" "distinct (map c_email rows)" "distinct (map c_key rows)"
    using assms(1) by (simp_all add: customers_ok_def)
  have n: "\<forall>x \<in> set rows. c_id x \<noteq> c_id r \<longrightarrow> c_tenant x \<noteq> c_tenant r \<and> c_email x \<noteq> c_email r \<and> c_key x \<noteq> c_key r"
    using assms(3) by (auto simp: list_ex_iff clashes_def)
  show ?thesis
    using d n distinct_put [OF d(1), of c_id r] distinct_put [OF d(1,2), of r] distinct_put [OF d(1,3), of r]
      distinct_put [OF d(1,4), of r] assms(1,2)
    by (auto simp: customers_ok_def set_put_row)
qed

text \<open>Saving a valid customer either fails and leaves the table, or puts its row there and returns what is stored.\<close>

lemma customer_save_cases:
  assumes "valid_customer c"
  obtains e where "customer_save c rows = (Inl e, rows)"
  | h where "cu_hash c = Some h" "column_widths (populate_model c h)" "\<not> list_ex (clashes (populate_model c h)) rows"
      "customer_save c rows = (Inr (stored c), put_row (populate_model c h) rows)"
proof (cases "cu_hash c")
  case None
  then show thesis using that(1) by (simp add: customer_save_def upsert_model_def bind_def)
next
  case (Some h)
  define r where "r = populate_model c h"
  consider "\<not> column_widths r" | "column_widths r" "list_ex (clashes r) rows" | "column_widths r" "\<not> list_ex (clashes r) rows"
    by blast
  then show thesis
  proof cases
    case 1
    with Some that(1) show thesis by (simp add: customer_save_def upsert_model_def bind_def r_def)
  next
    case 2
    with Some that(1) show thesis by (simp add: customer_save_def upsert_model_def bind_def r_def)
  next
    case 3
    with Some that(2) [of h] model_populate [OF assms Some] show thesis
      by (simp add: customer_save_def upsert_model_def bind_def of_result_def Let_def r_def)
  qed
qed

lemma customer_save_ok: "customers_ok rows \<Longrightarrow> valid_customer c \<Longrightarrow> customers_ok (snd (customer_save c rows))"
  by (rule customer_save_cases [of c rows]) (auto intro: customers_ok_put simp: model_populate)

lemma customer_save_runD:
  assumes "valid_customer c" "customer_save c rows = (Inr y, rows')"
  obtains h where "cu_hash c = Some h" "y = stored c" "rows' = put_row (populate_model c h) rows"
    "\<not> list_ex (clashes (populate_model c h)) rows"
  by (rule customer_save_cases [OF assms(1), of rows]) (use assms(2) that in auto)

section \<open>Every use case keeps the type\<close>

definition typed :: "'x office \<Rightarrow> bool" where
  "typed w \<longleftrightarrow> customers_ok (customers w)"

lemma keeps_bind_val:
  assumes "keeps P m" "\<And>x w w'. P w \<Longrightarrow> m w = (Inr x, w') \<Longrightarrow> Q x" "\<And>x. Q x \<Longrightarrow> keeps P (f x)"
  shows "keeps P (bind m f)"
proof (rule keepsI)
  fix w
  assume w: "P w"
  obtain r w' where m: "m w = (r, w')" "P w'" using keeps_run [OF assms(1) w] by blast
  show "P (snd (bind m f w))"
  proof (cases r)
    case (Inl e)
    then show ?thesis using m by (simp add: bind_def)
  next
    case (Inr x)
    then show ?thesis using m assms(2) [OF w, of x w'] assms(3) [of x] by (simp add: bind_def keeps_def)
  qed
qed

lemma typed_services [intro]: "keeps typed (on_services m)" "keeps typed (on_keyring n)"
  by (simp_all add: keeps_def typed_def on_services_def on_keyring_def split: prod.splits)

lemma typed_customers: "(\<And>rows. customers_ok rows \<Longrightarrow> customers_ok (snd (m rows))) \<Longrightarrow> keeps typed (on_customers m)"
  by (auto simp: keeps_def typed_def on_customers_def split: prod.splits) (metis snd_conv)

lemma snd_select [simp]: "snd (select_customer p rows) = rows"
  by (simp add: select_customer_def)

lemma typed_find [intro]:
  "keeps typed (on_customers (customer_find_by_id i))" "keeps typed (on_customers (customer_find_by_tenant_name n))"
  "keeps typed (on_customers (customer_find_by_api_key k))" "keeps typed (on_customers (customer_find_by_email e))"
  by (rule typed_customers; simp add: customer_find_by_id_def customer_find_by_tenant_name_def
      customer_find_by_api_key_def customer_find_by_email_def bind_def of_result_def split: sum.splits)+

lemma typed_save: "valid_customer c \<Longrightarrow> keeps typed (on_customers (customer_save c))"
  by (rule typed_customers) (rule customer_save_ok)

text \<open>What a search returns is valid.\<close>

definition valid_found :: "customer option \<Rightarrow> bool" where
  "valid_found x \<longleftrightarrow> (case x of None \<Rightarrow> True | Some c \<Rightarrow> valid_customer c)"

lemma found_valid:
  "on_customers (customer_find_by_id i) w = (Inr x, w') \<Longrightarrow> valid_found x"
  "on_customers (customer_find_by_api_key k) w = (Inr x, w') \<Longrightarrow> valid_found x"
  "on_customers (customer_find_by_email e) w = (Inr x, w') \<Longrightarrow> valid_found x"
  by (cases x; auto simp: valid_found_def on_customers_def customer_find_by_id_def customer_find_by_api_key_def
      customer_find_by_email_def bind_def of_result_def dest: select_valid split: prod.splits sum.splits)+

lemma valid_changes:
  assumes "valid_customer c"
  shows "valid_customer (c\<lparr>cu_account := (cu_account c)\<lparr>key := deactivate (key (cu_account c))\<rparr>\<rparr>)"
    and "suspend_account now r (cu_account c) = (Inr u, b) \<Longrightarrow> valid_customer (c\<lparr>cu_account := b\<rparr>)"
    and "mark_as_used now (key (cu_account c)) = (q, k) \<Longrightarrow> valid_customer (c\<lparr>cu_account := (cu_account c)\<lparr>key := k\<rparr>\<rparr>)"
    and "valid_customer (c\<lparr>cu_account := (cu_account c)\<lparr>last_login := l\<rparr>\<rparr>)"
  using assms
  by (auto simp: valid_customer_def Let_def deactivate_def valid_key_def suspend_account_def add_event_def mark_as_used_def
      split: if_splits)

lemma CustomerAccount_valid:
  assumes "CustomerAccount now tok i nm em st = Inr a" "TenantName n = Inr nm" "EmailAddress m = Inr em" "ApiKey v c u act = Inr k"
  shows "valid_customer \<lparr>cu_account = a\<lparr>key := k\<rparr>, cu_org = o1, cu_hash = h\<rparr>"
  using assms ApiKey_valid [OF assms(4)]
  by (auto simp: CustomerAccount_def bind_r_ok_iff account_post_init_def valid_customer_def Let_def
      default_subscription_def to_megabytes_def dest: TenantName_idem EmailAddress_idem split: if_splits)

lemma keeps_of_result: "(\<And>x. r = Inr x \<Longrightarrow> keeps P (f x)) \<Longrightarrow> keeps P (bind (of_result r) f)"
  by (cases r) (auto simp: keeps_def bind_def of_result_def)

lemma keeps_if: "(c \<Longrightarrow> keeps P a) \<Longrightarrow> (\<not> c \<Longrightarrow> keeps P b) \<Longrightarrow> keeps P (if c then a else b)"
  by simp

lemma typed_register: "keeps typed (register_customer sha E K provision call rq)"
  unfolding register_customer_def
proof (intro keeps_of_result keeps_bind keeps_if keeps_andthen typed_find typed_services keeps_ret)
  fix name mail x xa account raw_key k
  assume "TenantName (rg_tenant_name rq) = Inr name" "EmailAddress (rg_email rq) = Inr mail"
    "CustomerAccount (rc_now call) (rc_spare call) (rc_id call) name mail ACTIVE = Inr account"
    "ApiKey raw_key (rc_now call) None True = Inr k"
  then show "keeps typed (on_customers (customer_save \<lparr>cu_account = account\<lparr>key := k\<rparr>, cu_org = Some (rg_organization rq),
         cu_hash = Some (hash_password sha (rc_salt call) (rg_password rq))\<rparr>))"
    by (intro typed_save CustomerAccount_valid)
next
  show "keeps typed (case provision of None \<Rightarrow> ret () | Some p \<Rightarrow> catch (on_services (p (rc_id call))) (\<lambda>_. ret ()))"
    by (cases provision) auto
qed

lemma typed_update_status: "keeps typed (update_customer_subscription_status K E now i new_status)"
  unfolding update_customer_subscription_status_def Let_def
proof (rule keeps_bind_val [where Q = valid_found, OF typed_find(1) found_valid(1)], assumption)
  fix x
  assume x: "valid_found x"
  show "keeps typed (case x of None \<Rightarrow> ret False | Some c \<Rightarrow>
      if new_status = ''suspended'' then
        (case suspend_account now ''Administrative action'' (cu_account c) of
           (Inl e, _) \<Rightarrow> of_result (Inl e)
         | (Inr _, b) \<Rightarrow> andthen (on_customers (customer_save (c\<lparr>cu_account := b\<rparr>)))
            (andthen (on_services (cache_delete K (account_key i)))
            (andthen (on_services (emit E i ''subscription_updated'' ''Subscription Status Updated''
               (''Your subscription status has been updated to: '' @ new_status) []))
            (ret True))))
      else if new_status = ''active'' \<and> status_value (status (cu_account c)) = ''suspended''
        then throw AttributeError ''reactivate_account''
      else ret True)"
  proof (cases x)
    case (Some c)
    with x have c: "valid_customer c" by (simp add: valid_found_def)
    obtain r b where s: "suspend_account now ''Administrative action'' (cu_account c) = (r, b)" by (metis surj_pair)
    show ?thesis
    proof (cases r)
      case (Inl e)
      then show ?thesis by (simp only: Some option.case s prod.case sum.case) (intro keeps_if keeps_ret)
    next
      case (Inr u)
      then have v: "valid_customer (c\<lparr>cu_account := b\<rparr>)" using valid_changes(2) [OF c] s by simp
      show ?thesis
        unfolding Some option.case s prod.case Inr sum.case
        by (intro keeps_if keeps_ret keeps_andthen typed_services typed_save v)
    qed
  qed (simp add: keeps_ret)
qed

lemma typed_revoke: "keeps typed (revoke_customer_api_key now i k)"
  unfolding revoke_customer_api_key_def Let_def
proof (rule keeps_bind_val [where Q = valid_found, OF typed_find(1) found_valid(1)], assumption)
  fix x
  assume x: "valid_found x"
  show "keeps typed (case x of None \<Rightarrow> ret False | Some c \<Rightarrow> bind (on_keyring (revoke_api_key now k)) (\<lambda>success.
         andthen (guard_do (success \<and> key_value (key (cu_account c)) = k \<and> is_active (key (cu_account c)))
            (andthen (on_customers (customer_save (c\<lparr>cu_account := (cu_account c)\<lparr>key := deactivate (key (cu_account c))\<rparr>\<rparr>))) (ret ())))
          (ret success)))"
  proof (cases x)
    case (Some c)
    with x have "valid_customer c" by (simp add: valid_found_def)
    from valid_changes(1) [OF this] show ?thesis
      unfolding Some option.case by (intro keeps_bind keeps_andthen keeps_guard keeps_ret typed_services typed_save)
  qed (simp add: keeps_ret)
qed

lemma typed_create_key: "keeps typed (create_customer_api_key E tok now i name permissions)"
  unfolding create_customer_api_key_def
  by (intro keeps_bind typed_find) (auto intro!: keeps_bind keeps_andthen split: option.split)

lemma typed_details: "keeps typed (get_customer_details K iso_text i)" "keeps typed (list_customer_api_keys i)"
  unfolding get_customer_details_def list_customer_api_keys_def Let_def
  by (intro keeps_bind typed_find typed_services keeps_if keeps_ret; auto intro!: keeps_andthen split: option.split)+

end
