(* ===== verification/Access.thy ===== *)
theory Access
  imports Customers
begin

text \<open>
  Who a request acts for: the tokens of \<open>infrastructure/auth/jwt_service.py\<close>, the middleware of
  \<open>presentation/api/middleware/authentication.py\<close>, and the routes about accounts in
  \<open>presentation/api/auth\<close> and \<open>presentation/api/customers\<close>. Signing and checking of tokens (\<open>python-jose\<close>)
  is a parameter. A refusal of a route is the exception \<open>HTTPException\<close> with its status.
\<close>

section \<open>Tokens for event streams\<close>

text \<open>Claims may be missing; an empty one counts as missing.\<close>

record claims =
  cl_sub :: "string option"
  cl_tenant :: "string option"
  cl_name :: "string option"
  cl_scope :: "string option"
  cl_iat :: int
  cl_nbf :: int
  cl_exp :: int
  cl_iss :: string
  cl_aud :: string

record jose =
  jwt_encode :: "claims \<Rightarrow> string \<Rightarrow> string \<Rightarrow> string"
  jwt_decode :: "int \<Rightarrow> string \<Rightarrow> string \<Rightarrow> string list \<Rightarrow> string \<Rightarrow> string \<Rightarrow> claims result"

record jwt_service =
  js_secret :: string
  js_issuer :: string
  js_audience :: string
  js_ttl :: int
  js_algorithm :: string

definition sse_scope :: string where
  "sse_scope = ''sse:read''"

definition issue_sse_token :: "jose \<Rightarrow> jwt_service \<Rightarrow> int \<Rightarrow> string \<Rightarrow> string \<Rightarrow> string \<Rightarrow> string \<Rightarrow> int option \<Rightarrow> string" where
  "issue_sse_token J S now tenant name customer_id scope ttl = jwt_encode J
     \<lparr>cl_sub = Some customer_id, cl_tenant = Some tenant, cl_name = Some name, cl_scope = Some scope, cl_iat = now,
      cl_nbf = now, cl_exp = now + (case ttl of Some n \<Rightarrow> if n = 0 then js_ttl S else n | None \<Rightarrow> js_ttl S),
      cl_iss = js_issuer S, cl_aud = js_audience S\<rparr> (js_secret S) (js_algorithm S)"

definition missing :: "string option \<Rightarrow> bool" where
  "missing x \<longleftrightarrow> x = None \<or> x = Some []"

definition verify_sse_token :: "jose \<Rightarrow> jwt_service \<Rightarrow> int \<Rightarrow> string \<Rightarrow> claims result" where
  "verify_sse_token J S now token =
     bind_r (jwt_decode J now token (js_secret S) [js_algorithm S] (js_audience S) (js_issuer S)) (\<lambda>c.
       if cl_scope c \<noteq> Some sse_scope then raise JWTError ''invalid scope''
       else if missing (cl_tenant c) \<or> missing (cl_name c) \<or> missing (cl_sub c) then raise JWTError ''invalid claims''
       else Inr c)"

section \<open>The middleware\<close>

record http_request =
  rq_path :: string
  rq_auth_header :: "string option"
  rq_token :: "string option"

record context_of_request =
  cx_tenant :: uuid
  cx_name :: string
  cx_suffix :: string
  cx_permissions :: "string list"

definition protected_paths :: "string list" where
  "protected_paths = [''/api/v1/databases'']"

definition public_paths :: "string list" where
  "public_paths = [''/health'', ''/api/v1/auth/register'', ''/api/v1/auth/login'', ''/docs'', ''/redoc'', ''/openapi.json'']"

definition requires_auth :: "string \<Rightarrow> bool" where
  "requires_auth path \<longleftrightarrow> (if list_ex (startswith path) protected_paths then True
     else if list_ex (startswith path) public_paths then False
     else \<not> (path = ''/'' \<or> path = []))"

definition sse_path :: string where
  "sse_path = ''/api/v1/events/stream''"

text \<open>\<open>s[-n:]\<close>.\<close>

definition last_chars :: "nat \<Rightarrow> string \<Rightarrow> string" where
  "last_chars n s = drop (length s - n) s"

definition context_of_customer :: "account \<Rightarrow> context_of_request" where
  "context_of_customer a = \<lparr>cx_tenant = acc_id a, cx_name = acc_name a, cx_suffix = last_chars 6 (key_value (key a)),
     cx_permissions = initial_permissions\<rparr>"

definition context_of_claims :: "claims \<Rightarrow> uuid \<Rightarrow> context_of_request" where
  "context_of_claims c t = \<lparr>cx_tenant = t, cx_name = (case cl_name c of Some n \<Rightarrow> n | None \<Rightarrow> []),
     cx_suffix = (case last_chars 6 (case cl_sub c of Some s \<Rightarrow> s | None \<Rightarrow> []) of [] \<Rightarrow> ''jwt'' | s \<Rightarrow> s),
     cx_permissions = initial_permissions\<rparr>"

text \<open>Any exception of the search means that the key is not valid.\<close>

definition find_active_customer :: "string \<Rightarrow> ('x office, customer option) act" where
  "find_active_customer k = catch (bind (on_customers (customer_find_by_api_key k)) (\<lambda>c. case c of
       None \<Rightarrow> ret None
     | Some c \<Rightarrow> ret (if is_active (key (cu_account c)) \<and> status (cu_account c) \<in> {ACTIVE, TRIAL} then Some c else None)))
     (\<lambda>_. ret None)"

definition authenticate_request :: "http_request \<Rightarrow> ('x office, customer) act" where
  "authenticate_request rq = (case rq_auth_header rq of
       None \<Rightarrow> throw (HTTPException 401) ''Authorization header required''
     | Some h \<Rightarrow> if h = [] then throw (HTTPException 401) ''Authorization header required''
         else if \<not> startswith h ''Bearer '' then throw (HTTPException 401) ''Invalid authorization header format''
         else if py_strip (drop 7 h) = [] then throw (HTTPException 401) ''API key required''
         else bind (find_active_customer (py_strip (drop 7 h))) (\<lambda>c. case c of
             None \<Rightarrow> throw (HTTPException 401) ''Invalid API key''
           | Some c \<Rightarrow> ret c))"

text \<open>The answer of the application behind the middleware, or the middleware's own.\<close>

datatype 'r response = Answer 'r | Refusal nat string

text \<open>\<open>call_next\<close> gets the context and the customer the middleware has put into the request.\<close>

type_synonym ('x, 'r) application = "context_of_request option \<Rightarrow> customer option \<Rightarrow> ('x office, 'r) act"

definition call_next :: "('x, 'r) application \<Rightarrow> context_of_request option \<Rightarrow> customer option \<Rightarrow> ('x office, 'r response) act" where
  "call_next app cx c = bind (app cx c) (\<lambda>r. ret (Answer r))"

definition dispatch_key :: "int \<Rightarrow> ('x, 'r) application \<Rightarrow> http_request \<Rightarrow> ('x office, 'r response) act" where
  "dispatch_key now app rq = catch
     (bind (authenticate_request rq) (\<lambda>c. let a = cu_account c; (used, k) = mark_as_used now (key a); c' = c\<lparr>cu_account := a\<lparr>key := k\<rparr>\<rparr> in
        andthen (of_result used)
        (andthen (on_customers (customer_save c'))
        (call_next app (Some (context_of_customer a)) (Some c')))))
     (\<lambda>e. case kind_of e of
         HTTPException n \<Rightarrow> ret (Refusal n (str_of e))
       | _ \<Rightarrow> throw (HTTPException 500) ''Authentication service error'')"

definition dispatch_sse :: "jose \<Rightarrow> jwt_service \<Rightarrow> int \<Rightarrow> ('x, 'r) application \<Rightarrow> string \<Rightarrow> ('x office, 'r response) act" where
  "dispatch_sse J S seconds app token = catch
     (bind (of_result (verify_sse_token J S seconds token)) (\<lambda>c.
      bind (of_result (UUID (case cl_tenant c of Some t \<Rightarrow> t | None \<Rightarrow> []))) (\<lambda>t.
        call_next app (Some (context_of_claims c t)) None)))
     (\<lambda>e. if kind_of e = JWTError then ret (Refusal 401 ''Invalid SSE token'') else of_result (Inl e))"

definition dispatch :: "jose \<Rightarrow> jwt_service \<Rightarrow> int \<Rightarrow> int \<Rightarrow> ('x, 'r) application \<Rightarrow> http_request \<Rightarrow> ('x office, 'r response) act" where
  "dispatch J S seconds now app rq =
     (if \<not> requires_auth (rq_path rq) then call_next app None None
      else if startswith (rq_path rq) sse_path \<and> \<not> missing (rq_token rq)
        then dispatch_sse J S seconds app (the (rq_token rq))
      else dispatch_key now app rq)"

definition get_request_context :: "context_of_request option \<Rightarrow> context_of_request result" where
  "get_request_context cx = (case cx of None \<Rightarrow> raise (HTTPException 401) ''Authentication required'' | Some c \<Rightarrow> Inr c)"

definition get_current_customer :: "customer option \<Rightarrow> customer result" where
  "get_current_customer c = (case c of None \<Rightarrow> raise (HTTPException 401) ''Authentication required'' | Some c \<Rightarrow> Inr c)"

section \<open>Limits\<close>

text \<open>What \<open>AllowAllAuthorizationService\<close> answers about rates and quotas, whatever it is asked; times in
  microseconds.\<close>

record rate_answer =
  ra_allowed :: bool
  ra_remaining :: int
  ra_reset_time :: int

record quota_answer =
  qa_allowed :: bool
  qa_used :: int
  qa_limit :: int

definition check_rate_limit :: "int \<Rightarrow> string \<Rightarrow> string \<Rightarrow> rate_answer" where
  "check_rate_limit now tenant_id endpoint =
     \<lparr>ra_allowed = True, ra_remaining = 1000000, ra_reset_time = now + 60 * 1000000\<rparr>"

definition check_quota :: "string \<Rightarrow> string \<Rightarrow> int \<Rightarrow> quota_answer" where
  "check_quota tenant_id resource_type requested_amount = \<lparr>qa_allowed = True, qa_used = 0, qa_limit = 1000000\<rparr>"

text \<open>A request for more than the stated limit is allowed all the same.\<close>

lemma quota_never_refuses: "qa_allowed (check_quota t r (qa_limit (check_quota t r 0) + n))"
  by (simp add: check_quota_def)

section \<open>The routes\<close>

text \<open>\<open>except HTTPException: raise\<close>, \<open>except Exception\<close>: the status of the other errors.\<close>

definition http_errors :: "nat \<Rightarrow> (string \<Rightarrow> string) \<Rightarrow> ('w, 'a) act \<Rightarrow> ('w, 'a) act" where
  "http_errors n detail m = catch m (\<lambda>e. case kind_of e of
       HTTPException _ \<Rightarrow> of_result (Inl e) | _ \<Rightarrow> throw (HTTPException n) (detail (str_of e)))"

record login_response =
  lo_customer :: uuid
  lo_tenant_name :: string
  lo_organization :: string
  lo_email :: string
  lo_api_key :: string

definition login :: "(string \<Rightarrow> string) \<Rightarrow> int \<Rightarrow> string \<Rightarrow> string \<Rightarrow> ('x office, login_response) act" where
  "login sha now mail password = http_errors 500 (\<lambda>_. ''Login failed'')
     (bind (on_customers (customer_find_by_email mail)) (\<lambda>c. case c of
        None \<Rightarrow> throw (HTTPException 401) ''Invalid email or password''
      | Some c \<Rightarrow> (case cu_hash c of
          None \<Rightarrow> throw (HTTPException 401) ''Invalid email or password''
        | Some h \<Rightarrow> if h = [] \<or> \<not> verify_password sha password h then throw (HTTPException 401) ''Invalid email or password''
            else let a = (cu_account c)\<lparr>last_login := Some now\<rparr> in
              andthen (on_customers (customer_save (c\<lparr>cu_account := a\<rparr>)))
              (ret \<lparr>lo_customer = acc_id a, lo_tenant_name = acc_name a,
                 lo_organization = (case cu_org c of None \<Rightarrow> [] | Some x \<Rightarrow> x),
                 lo_email = email a, lo_api_key = key_value (key a)\<rparr>))))"

definition register_route :: "(string \<Rightarrow> string) \<Rightarrow> 'x event_port \<Rightarrow> ('x, json_object) cache_port \<Rightarrow>
    (uuid \<Rightarrow> ('x, unit) act) option \<Rightarrow> register_call \<Rightarrow> register_request \<Rightarrow> ('x office, register_response) act" where
  "register_route sha E K provision call rq =
     catch (register_customer sha E K provision call rq) (\<lambda>e. throw (HTTPException 400) (str_of e))"

definition sse_token_route :: "jose \<Rightarrow> jwt_service \<Rightarrow> int \<Rightarrow> context_of_request \<Rightarrow> string \<times> nat" where
  "sse_token_route J S seconds cx =
     (issue_sse_token J S seconds (cx_tenant cx) (cx_name cx) (cx_tenant cx) sse_scope None, 300)"

definition get_me :: "customer option \<Rightarrow> login_response result" where
  "get_me c = bind_r (get_current_customer c) (\<lambda>c. let a = cu_account c in
     Inr \<lparr>lo_customer = acc_id a, lo_tenant_name = acc_name a, lo_organization = (case cu_org c of None \<Rightarrow> [] | Some x \<Rightarrow> x),
       lo_email = email a, lo_api_key = key_value (key a)\<rparr>)"

text \<open>The routes about customers take the id from the path and do not compare it with the caller.\<close>

definition details_route :: "('x, json_object) cache_port \<Rightarrow> (int \<Rightarrow> string) \<Rightarrow> uuid \<Rightarrow> ('x office, json_object) act" where
  "details_route K iso_text i = http_errors 400 (\<lambda>m. m)
     (bind (get_customer_details K iso_text i) (\<lambda>d. case d of
        Some (x # xs) \<Rightarrow> ret (x # xs) | _ \<Rightarrow> throw (HTTPException 404) ''Customer not found''))"

definition list_keys_route :: "uuid \<Rightarrow> ('x office, keyring) act" where
  "list_keys_route i = catch (list_customer_api_keys i) (\<lambda>e. throw (HTTPException 400) (str_of e))"

definition revoke_key_route :: "int \<Rightarrow> uuid \<Rightarrow> string \<Rightarrow> ('x office, string) act" where
  "revoke_key_route now i k = http_errors 400 (\<lambda>m. m)
     (bind (revoke_customer_api_key now i k) (\<lambda>success.
        if \<not> success then throw (HTTPException 404) ''API key not found or already revoked'' else ret k))"

text \<open>The checks of a registration's tenant name and of the permissions of a key.\<close>

definition tenant_id_char :: "char \<Rightarrow> bool" where
  "tenant_id_char c \<longleftrightarrow> is_lower_az c \<or> is_digit c"

definition registration_tenant_name :: "string \<Rightarrow> string result" where
  "registration_tenant_name v =
     (if length v < 3 \<or> 50 < length v then raise ValueError ''String should have 3 to 50 characters''
      else if \<not> (tenant_id_char (hd v) \<and> tenant_id_char (List.last v) \<and> list_all (\<lambda>c. tenant_id_char c \<or> c = CHR ''-'') v)
        then raise ValueError ''String should match pattern''
      else if contains ''--'' v then raise ValueError ''Consecutive hyphens not allowed''
      else if startswith v ''-'' \<or> endswith v ''-'' then raise ValueError ''Cannot start or end with hyphen''
      else Inr (py_lower v))"

fun validate_permissions :: "string list \<Rightarrow> string list result" where
  "validate_permissions [] = Inr []"
| "validate_permissions (p # ps) = (case split_first '':'' p of
       None \<Rightarrow> raise ValueError ''Permission must be in format resource:action''
     | Some (resource, action) \<Rightarrow>
         if resource \<notin> {''database'', ''query'', ''admin''} then raise ValueError ''Invalid resource''
         else if action \<notin> {''read'', ''write'', ''execute'', ''delete'', ''manage''} then raise ValueError ''Invalid action''
         else bind_r (validate_permissions ps) (\<lambda>qs. Inr (p # qs)))"

section \<open>Offices\<close>

text \<open>What changes the customers' table: the use cases, logging in, and a request that names a key.\<close>

inductive office_step :: "'x office \<Rightarrow> 'x office \<Rightarrow> bool" where
  registers: "office_step w (snd (register_route sha E K provision call rq w))"
| logs_in: "office_step w (snd (login sha now mail password w))"
| requests: "(\<forall>cx c. keeps typed ((app :: (_, unit) application) cx c)) \<Longrightarrow> office_step w (snd (dispatch J S seconds now app rq w))"
| details: "office_step w (snd (details_route K iso_text i w))"
| lists: "office_step w (snd (list_keys_route i w))"
| creates_key: "office_step w (snd (create_customer_api_key E tok now i name permissions w))"
| revokes: "office_step w (snd (revoke_key_route now i k w))"
| changes: "office_step w (snd (update_customer_subscription_status K E now i new_status w))"

inductive office_reachable :: "'x office \<Rightarrow> bool" where
  opens: "customers w = [] \<Longrightarrow> office_reachable w"
| acts: "office_reachable w \<Longrightarrow> office_step w w' \<Longrightarrow> office_reachable w'"

lemma typed_http_errors: "keeps typed m \<Longrightarrow> keeps typed (http_errors n f m)"
  unfolding http_errors_def by (intro keeps_catch) (auto split: exn_kind.split)

lemma typed_login: "keeps typed (login sha now mail password)"
  unfolding login_def Let_def
proof (intro typed_http_errors keeps_bind_val [where Q = valid_found, OF typed_find(4) found_valid(3)])
  fix x
  assume x: "valid_found x"
  show "keeps typed (case x of None \<Rightarrow> throw (HTTPException 401) ''Invalid email or password''
      | Some c \<Rightarrow> (case cu_hash c of None \<Rightarrow> throw (HTTPException 401) ''Invalid email or password''
        | Some h \<Rightarrow> if h = [] \<or> \<not> verify_password sha password h then throw (HTTPException 401) ''Invalid email or password''
            else andthen (on_customers (customer_save (c\<lparr>cu_account := (cu_account c)\<lparr>last_login := Some now\<rparr>\<rparr>)))
              (ret \<lparr>lo_customer = acc_id ((cu_account c)\<lparr>last_login := Some now\<rparr>),
                 lo_tenant_name = acc_name ((cu_account c)\<lparr>last_login := Some now\<rparr>),
                 lo_organization = (case cu_org c of None \<Rightarrow> [] | Some x \<Rightarrow> x),
                 lo_email = email ((cu_account c)\<lparr>last_login := Some now\<rparr>),
                 lo_api_key = key_value (key ((cu_account c)\<lparr>last_login := Some now\<rparr>))\<rparr>)))"
  proof (cases x)
    case (Some c)
    with x have "valid_customer c" by (simp add: valid_found_def)
    from valid_changes(4) [OF this] show ?thesis
      unfolding Some option.case
      by (cases "cu_hash c") (simp_all only: option.case, auto intro!: keeps_if keeps_andthen typed_save)
  qed (simp add: keeps_ret)
qed

lemma typed_find_active: "keeps typed (find_active_customer k)"
  unfolding find_active_customer_def
  by (intro keeps_catch keeps_bind typed_find) (auto split: option.split)

lemma find_active_run:
  assumes "find_active_customer k w = (r, w')"
  shows "w' = w"
    and "r = Inr (Some c) \<Longrightarrow> \<exists>x \<in> set (customers w). c_key x = k \<and> c_key_active x \<and>
      c_status x \<in> {status_value ACTIVE, status_value TRIAL} \<and> model_to_domain x = Inr c"
proof -
  obtain q where q: "on_customers (customer_find_by_api_key k) w = (q, w)"
    "q = fst (select_customer (\<lambda>x. c_key x = k) (customers w))"
    using snd_select [of "\<lambda>x. c_key x = k" "customers w"]
    by (cases "select_customer (\<lambda>x. c_key x = k) (customers w)") (simp add: on_customers_def customer_find_by_api_key_def)
  show "w' = w"
    using assms q(1) by (cases q) (auto simp: find_active_customer_def catch_def bind_def ret_def split: option.splits)
  assume r: "r = Inr (Some c)"
  obtain c' where c': "q = Inr (Some c')" "c = c'" "is_active (key (cu_account c))" "status (cu_account c) \<in> {ACTIVE, TRIAL}"
    using assms q(1) r by (cases q) (auto simp: find_active_customer_def catch_def bind_def ret_def split: option.splits if_splits)
  then have "select_customer (\<lambda>x. c_key x = k) (customers w) = (Inr (Some c), customers w)"
    using q(2) snd_select [of "\<lambda>x. c_key x = k" "customers w"] by (simp add: prod_eq_iff)
  then obtain x where x: "x \<in> set (customers w)" "c_key x = k" "model_to_domain x = Inr c" by (rule select_SomeD)
  with model_to_domain_valid [OF x(3)] c' show "\<exists>x \<in> set (customers w). c_key x = k \<and> c_key_active x \<and>
      c_status x \<in> {status_value ACTIVE, status_value TRIAL} \<and> model_to_domain x = Inr c"
    by (intro bexI [of _ x]) auto
qed

lemma authenticate_run:
  assumes "authenticate_request rq w = (r, w')"
  shows "w' = w" and "r = Inr c \<Longrightarrow> \<exists>h. rq_auth_header rq = Some h \<and> startswith h ''Bearer '' \<and>
    find_active_customer (py_strip (drop 7 h)) w = (Inr (Some c), w)"
  using assms find_active_run(1)
  by (auto simp: authenticate_request_def bind_def throw_def ret_def split: option.splits if_splits prod.splits sum.splits)

lemma typed_dispatch:
  assumes "\<And>cx c. keeps typed (app cx c)"
  shows "keeps typed (dispatch J S seconds now app rq)"
proof -
  have n: "keeps typed (call_next app cx c)" for cx c
    unfolding call_next_def by (intro keeps_bind assms keeps_ret)
  have a: "keeps typed (authenticate_request rq)"
  proof (rule keepsI)
    fix w
    assume "typed w"
    then show "typed (snd (authenticate_request rq w))"
      using authenticate_run(1) [of rq w "fst (authenticate_request rq w)" "snd (authenticate_request rq w)"] by simp
  qed
  have v: "valid_customer c" if "authenticate_request rq w = (Inr c, w')" for c w w'
    using authenticate_run(2) [OF that refl] find_active_run(2) [OF _ refl] model_to_domain_valid(1) by metis
  have k: "keeps typed (dispatch_key now app rq)"
    unfolding dispatch_key_def Let_def
  proof (intro keeps_catch keeps_bind_val [where Q = valid_customer, OF a v], assumption)
    fix c
    assume c: "valid_customer c"
    obtain q k where m: "mark_as_used now (key (cu_account c)) = (q, k)" by (metis surj_pair)
    show "keeps typed (case mark_as_used now (key (cu_account c)) of (used, k) \<Rightarrow>
        andthen (of_result used) (andthen (on_customers (customer_save (c\<lparr>cu_account := (cu_account c)\<lparr>key := k\<rparr>\<rparr>)))
          (call_next app (Some (context_of_customer (cu_account c))) (Some (c\<lparr>cu_account := (cu_account c)\<lparr>key := k\<rparr>\<rparr>)))))"
      unfolding m prod.case by (intro keeps_andthen keeps_ret typed_save n valid_changes(3) [OF c m])
  next
    show "keeps typed (case kind_of e of HTTPException n \<Rightarrow> ret (Refusal n (str_of e))
       | _ \<Rightarrow> throw (HTTPException 500) ''Authentication service error'')" for e
      by (auto split: exn_kind.split)
  qed
  have s: "keeps typed (dispatch_sse J S seconds app token)" for token
    unfolding dispatch_sse_def by (intro keeps_catch keeps_bind keeps_ret n keeps_if)
  show ?thesis unfolding dispatch_def by (intro keeps_if n k s)
qed

lemma typed_step: "office_step w w' \<Longrightarrow> typed w \<Longrightarrow> typed w'"
proof (induction rule: office_step.induct)
  case (requests app w J S seconds now rq)
  then show ?case using typed_dispatch [of app J S seconds now rq] by (simp add: keeps_def)
next
  case (registers w sha E K provision call rq)
  have "keeps typed (register_route sha E K provision call rq)"
    unfolding register_route_def by (intro keeps_catch typed_register keeps_ret)
  with registers show ?case by (simp add: keeps_def)
next
  case (details w K iso_text i)
  have "keeps typed (details_route K iso_text i)"
    unfolding details_route_def
    by (intro typed_http_errors keeps_bind typed_details) (auto split: option.split list.split)
  with details show ?case by (simp add: keeps_def)
next
  case (lists w i)
  have "keeps typed (list_keys_route i :: ('a office, _) act)"
    unfolding list_keys_route_def by (intro keeps_catch typed_details keeps_ret)
  with lists show ?case by (simp add: keeps_def)
next
  case (revokes w now i k)
  have "keeps typed (revoke_key_route now i k :: ('a office, _) act)"
    unfolding revoke_key_route_def by (intro typed_http_errors keeps_bind typed_revoke keeps_if keeps_ret)
  with revokes show ?case by (simp add: keeps_def)
qed (rule keepsD [OF typed_login _ surjective_pairing] keepsD [OF typed_create_key _ surjective_pairing]
    keepsD [OF typed_update_status _ surjective_pairing]; assumption)+

section \<open>Runs\<close>

lemma on_services_customers: "on_services m w = (r, w') \<Longrightarrow> customers w' = customers w"
  by (auto simp: on_services_def split: prod.splits)

lemma on_keyring_customers: "on_keyring m w = (r, w') \<Longrightarrow> customers w' = customers w"
  by (auto simp: on_keyring_def split: prod.splits)

lemma on_customers_find:
  "on_customers (customer_find_by_id i) w = (r, w') \<Longrightarrow> w' = w"
  "on_customers (customer_find_by_tenant_name n) w = (r, w') \<Longrightarrow> w' = w"
  "on_customers (customer_find_by_email e) w = (r, w') \<Longrightarrow> w' = w"
  by (auto simp: on_customers_def customer_find_by_id_def customer_find_by_tenant_name_def customer_find_by_email_def
      bind_def of_result_def select_customer_def split: prod.splits sum.splits)

lemma on_customers_save:
  assumes "on_customers (customer_save c) w = (Inr y, w')" "valid_customer c"
  obtains h where "cu_hash c = Some h" "column_widths (populate_model c h)"
    "\<not> list_ex (clashes (populate_model c h)) (customers w)" "w' = w\<lparr>customers := put_row (populate_model c h) (customers w)\<rparr>"
  using assms(1) by (cases rule: customer_save_cases [OF assms(2), of "customers w"]) (auto simp: on_customers_def that)

text \<open>A row of the table is found by what is unique in it.\<close>

lemma find_row:
  assumes "customers_ok rows" "r \<in> set rows" "model_to_domain r = Inr c"
  shows "customer_find_by_id (c_id r) rows = (Inr (Some c), rows)" "customer_find_by_api_key (c_key r) rows = (Inr (Some c), rows)"
    "EmailAddress m = Inr (c_email r) \<Longrightarrow> customer_find_by_email m rows = (Inr (Some c), rows)"
  using assms by (simp_all add: customers_ok_def customer_find_by_id_def customer_find_by_api_key_def customer_find_by_email_def
      bind_def of_result_def select_hit)

text \<open>Saving a stored customer again with the same identity succeeds.\<close>

lemma save_again:
  assumes "customers_ok rows" "r \<in> set rows" "valid_customer c" "cu_hash c = Some h" "column_widths (populate_model c h)"
    and "c_id r = c_id (populate_model c h)" "c_tenant r = c_tenant (populate_model c h)"
      "c_email r = c_email (populate_model c h)" "c_key r = c_key (populate_model c h)"
  shows "customer_save c rows = (Inr (stored c), put_row (populate_model c h) rows)"
proof -
  have inj: "inj_on c_id (set rows)" "inj_on c_tenant (set rows)" "inj_on c_email (set rows)" "inj_on c_key (set rows)"
    using assms(1) by (simp_all add: customers_ok_def distinct_map)
  have "\<not> clashes (populate_model c h) x" if "x \<in> set rows" for x
    using inj_onD [OF inj(2), of x r] inj_onD [OF inj(3), of x r] inj_onD [OF inj(4), of x r] that assms(2,6-9)
    by (auto simp: clashes_def)
  then have n: "\<not> list_ex (clashes (populate_model c h)) rows" by (auto simp: list_ex_iff)
  show ?thesis
    by (rule customer_save_cases [OF assms(3), of rows])
      (use assms(4,5) n model_populate [OF assms(3,4)] in
        \<open>auto simp: customer_save_def upsert_model_def bind_def of_result_def Let_def\<close>)
qed

lemma raise_ifE: "(if c then throw k m else f) w = (Inr y, w') \<Longrightarrow> (\<not> c \<Longrightarrow> f w = (Inr y, w') \<Longrightarrow> thesis) \<Longrightarrow> thesis"
  by (auto simp: throw_def split: if_splits)

lemma register_steps:
  assumes "register_customer sha E K provision call rq w = (Inr resp, w')"
  obtains name w1 mail w2 x w3 y w4 a w5 raw w6 k w7 z w8 u9 w9 u10 w10 u11 w11 where
    "of_result (TenantName (rg_tenant_name rq)) w = (Inr name, w1)" "of_result (EmailAddress (rg_email rq)) w1 = (Inr mail, w2)"
    "on_customers (customer_find_by_tenant_name name) w2 = (Inr x, w3)" "on_customers (customer_find_by_email mail) w3 = (Inr y, w4)"
    "of_result (CustomerAccount (rc_now call) (rc_spare call) (rc_id call) name mail ACTIVE) w4 = (Inr a, w5)"
    "on_keyring (generate_api_key (rc_token call) (rc_now call) (rc_id call) ''default'' initial_permissions) w5 = (Inr raw, w6)"
    "of_result (ApiKey raw (rc_now call) None True) w6 = (Inr k, w7)"
    "on_customers (customer_save \<lparr>cu_account = a\<lparr>key := k\<rparr>, cu_org = Some (rg_organization rq),
       cu_hash = Some (hash_password sha (rc_salt call) (rg_password rq))\<rparr>) w7 = (Inr z, w8)"
    "(case provision of None \<Rightarrow> ret () | Some p \<Rightarrow> catch (on_services (p (rc_id call))) (\<lambda>_. ret ())) w8 = (Inr u9, w9)"
    "on_services (emit E (rc_id call) ''welcome'' ''Welcome to Kuzu Event Bus''
         (''Your account has been created successfully. Organization: '' @ rg_organization rq) []) w9 = (Inr u10, w10)"
    "on_services (cache_set K (account_key (rc_id call))
         [(''customer_id'', Some (rc_id call)), (''tenant_name'', Some (rg_tenant_name rq)),
          (''organization_name'', Some (rg_organization rq)), (''status'', Some (status_value (status a)))] (Some 3600)) w10 = (Inr u11, w11)"
    "ret \<lparr>rr_customer = rc_id call, rr_tenant_name = rg_tenant_name rq, rr_organization = rg_organization rq,
        rr_email = rg_email rq, rr_api_key = raw, rr_status = status_value (status a), rr_created = created_at a\<rparr> w11 = (Inr resp, w')"
  apply (insert assms)
  unfolding register_customer_def
  apply (elim bind_okE raise_ifE andthen_okE)
  apply (rule that)
  apply assumption+
  done

lemma register_runD:
  assumes "register_customer sha E K provision call rq w = (Inr resp, w')"
  obtains c where "valid_customer c" "cu_hash c = Some (hash_password sha (rc_salt call) (rg_password rq))"
    "acc_id (cu_account c) = rr_customer resp" "key_value (key (cu_account c)) = rr_api_key resp"
    "EmailAddress (rg_email rq) = Inr (email (cu_account c))" "is_active (key (cu_account c))" "status (cu_account c) = ACTIVE"
    "column_widths (populate_model c (hash_password sha (rc_salt call) (rg_password rq)))"
    "\<not> list_ex (clashes (populate_model c (hash_password sha (rc_salt call) (rg_password rq)))) (customers w)"
    "customers w' = put_row (populate_model c (hash_password sha (rc_salt call) (rg_password rq))) (customers w)"
proof -
  let ?h = "hash_password sha (rc_salt call) (rg_password rq)"
  obtain name w1 mail w2 x w3 y w4 a w5 raw w6 k w7 z w8 u9 w9 u10 w10 u11 w11 where
    n: "of_result (TenantName (rg_tenant_name rq)) w = (Inr name, w1)" and m: "of_result (EmailAddress (rg_email rq)) w1 = (Inr mail, w2)"
    and f: "on_customers (customer_find_by_tenant_name name) w2 = (Inr x, w3)" "on_customers (customer_find_by_email mail) w3 = (Inr y, w4)"
    and a: "of_result (CustomerAccount (rc_now call) (rc_spare call) (rc_id call) name mail ACTIVE) w4 = (Inr a, w5)"
    and g: "on_keyring (generate_api_key (rc_token call) (rc_now call) (rc_id call) ''default'' initial_permissions) w5 = (Inr raw, w6)"
    and k: "of_result (ApiKey raw (rc_now call) None True) w6 = (Inr k, w7)"
    and s: "on_customers (customer_save \<lparr>cu_account = a\<lparr>key := k\<rparr>, cu_org = Some (rg_organization rq), cu_hash = Some ?h\<rparr>) w7 = (Inr z, w8)"
    and p: "(case provision of None \<Rightarrow> ret () | Some p \<Rightarrow> catch (on_services (p (rc_id call))) (\<lambda>_. ret ())) w8 = (Inr u9, w9)"
    and e: "on_services (emit E (rc_id call) ''welcome'' ''Welcome to Kuzu Event Bus''
         (''Your account has been created successfully. Organization: '' @ rg_organization rq) []) w9 = (Inr u10, w10)"
    and c: "on_services (cache_set K (account_key (rc_id call))
         [(''customer_id'', Some (rc_id call)), (''tenant_name'', Some (rg_tenant_name rq)),
          (''organization_name'', Some (rg_organization rq)), (''status'', Some (status_value (status a)))] (Some 3600)) w10 = (Inr u11, w11)"
    and r: "ret \<lparr>rr_customer = rc_id call, rr_tenant_name = rg_tenant_name rq, rr_organization = rg_organization rq,
        rr_email = rg_email rq, rr_api_key = raw, rr_status = status_value (status a), rr_created = created_at a\<rparr> w11 = (Inr resp, w')"
    by (rule register_steps [OF assms]) (rule that)
  let ?c = "\<lparr>cu_account = a\<lparr>key := k\<rparr>, cu_org = Some (rg_organization rq), cu_hash = Some ?h\<rparr>"
  have vals: "TenantName (rg_tenant_name rq) = Inr name" "EmailAddress (rg_email rq) = Inr mail" "w1 = w" "w2 = w"
    "CustomerAccount (rc_now call) (rc_spare call) (rc_id call) name mail ACTIVE = Inr a" "w5 = w4"
    "ApiKey raw (rc_now call) None True = Inr k" "w7 = w6"
    using n m a k by (simp_all add: of_result_def)
  have v: "valid_customer ?c" by (rule CustomerAccount_valid [OF vals(5,1,2,7)])
  have w7: "customers w7 = customers w"
    using on_customers_find(2) [OF f(1)] on_customers_find(3) [OF f(2)] on_keyring_customers [OF g] vals by simp
  obtain h where h: "cu_hash ?c = Some h" "column_widths (populate_model ?c h)" "\<not> list_ex (clashes (populate_model ?c h)) (customers w)"
    "customers w8 = put_row (populate_model ?c h) (customers w)"
    by (rule on_customers_save [OF s v]) (simp add: w7 that)
  have "customers w9 = customers w8"
  proof (cases provision)
    case (Some q)
    obtain r1 s1 where q: "on_services (q (rc_id call)) w8 = (r1, s1)" by (metis surj_pair)
    have "w9 = s1" using p by (cases r1) (simp_all add: Some catch_def q ret_def)
    then show ?thesis using on_services_customers [OF q] by simp
  qed (use p in \<open>simp add: ret_def\<close>)
  then have w': "customers w' = customers w8"
    using on_services_customers [OF e] on_services_customers [OF c] r by (simp add: ret_def)
  have acc: "acc_id a = rc_id call" "email a = mail" "status a = ACTIVE"
    using vals(5) by (auto simp: CustomerAccount_def bind_r_ok_iff account_post_init_def split: if_splits)
  have "key_value k = raw" "is_active k" using vals(7) by (auto simp: ApiKey_def split: if_splits)
  moreover have "rr_customer resp = rc_id call" "rr_api_key resp = raw" using r by (auto simp: ret_def)
  moreover have "h = ?h" using h(1) by simp
  ultimately show thesis using v h(2-4) vals(2) w' acc by (intro that [of ?c]) simp_all
qed

section \<open>An office with one customer\<close>

definition quiet_events :: "unit event_port" where
  "quiet_events = \<lparr>emit = \<lambda>t ev title msg fs. ret ()\<rparr>"

definition no_cache :: "(unit, json_object) cache_port" where
  "no_cache = \<lparr>cache_set = \<lambda>k v n. ret True, cache_get = \<lambda>k. ret None, cache_delete = \<lambda>k. ret True\<rparr>"

definition no_jose :: jose where
  "no_jose = \<lparr>jwt_encode = \<lambda>c s a. [], jwt_decode = \<lambda>now t s a aud iss. raise JWTError ''no token''\<rparr>"

definition demo_jwt :: jwt_service where
  "demo_jwt = \<lparr>js_secret = ''s'', js_issuer = ''i'', js_audience = ''a'', js_ttl = 300, js_algorithm = ''HS256''\<rparr>"

definition empty_office :: "unit office" where
  "empty_office = \<lparr>customers = [], keyring = [], services = ()\<rparr>"

definition demo_registration :: register_request where
  "demo_registration = \<lparr>rg_tenant_name = ''acme'', rg_email = ''Ann@Acme.org'', rg_organization = ''Acme'', rg_password = ''secret12''\<rparr>"

definition demo_register_call :: register_call where
  "demo_register_call = \<lparr>rc_id = ''u'', rc_now = 7, rc_spare = replicate 43 CHR ''x'', rc_salt = ''ab'', rc_token = replicate 43 CHR ''k''\<rparr>"

definition demo_register :: "(unit office, register_response) act" where
  "demo_register = register_customer id quiet_events no_cache None demo_register_call demo_registration"

definition demo_office :: "unit office" where
  "demo_office = snd (demo_register empty_office)"

definition demo_request :: http_request where
  "demo_request = \<lparr>rq_path = ''/api/v1/databases/'', rq_auth_header = Some (''Bearer kb_'' @ replicate 43 CHR ''k''), rq_token = None\<rparr>"

lemma demo_office_runs:
  "is_ok (fst (demo_register empty_office))" "map c_id (customers demo_office) = [''u'']"
  "fst (dispatch no_jose demo_jwt 0 8 (\<lambda>cx c. ret (map_option cx_tenant cx)) demo_request demo_office) = Inr (Answer (Some ''u''))"
  "fst (update_customer_subscription_status no_cache quiet_events 9 ''u'' ''suspended'' demo_office) = Inr True"
  by code_simp+

lemma demo_office_ok: "customers_ok (customers demo_office)"
proof -
  have "typed demo_office"
    unfolding demo_office_def demo_register_def
    by (rule keepsD [OF typed_register _ surjective_pairing]) (simp add: typed_def customers_ok_def empty_office_def)
  then show ?thesis by (simp add: typed_def)
qed

section \<open>Properties\<close>



text \<open>C13: A request that needs a key is answered by the application only when its key is the active key of a stored
  customer who is active or on trial, and the application then acts for that customer: the context has the tenant id
  and the name of the key's row, and of the office only that customer's row has been touched. Otherwise the
  middleware answers itself.\<close>

theorem requests_act_for_key_owner:
  assumes "requires_auth (rq_path rq)" "\<not> startswith (rq_path rq) sse_path"
    and "dispatch J S seconds now app rq w = (Inr (Answer x), w')"
  shows "\<exists>h r c w1. rq_auth_header rq = Some h \<and> r \<in> set (customers w) \<and> c_key r = py_strip (drop 7 h) \<and> c_key_active r \<and>
    c_status r \<in> {status_value ACTIVE, status_value TRIAL} \<and>
    (\<exists>cx. cx_tenant cx = c_id r \<and> cx_name cx = py_strip (c_tenant r) \<and> app (Some cx) (Some c) w1 = (Inr x, w')) \<and>
    (\<forall>y. c_id y \<noteq> c_id r \<longrightarrow> (y \<in> set (customers w1) \<longleftrightarrow> y \<in> set (customers w))) \<and>
    keyring w1 = keyring w \<and> services w1 = services w"
proof -
  let ?body = "bind (authenticate_request rq) (\<lambda>c. case mark_as_used now (key (cu_account c)) of (used, k) \<Rightarrow>
      andthen (of_result used) (andthen (on_customers (customer_save (c\<lparr>cu_account := (cu_account c)\<lparr>key := k\<rparr>\<rparr>)))
        (call_next app (Some (context_of_customer (cu_account c))) (Some (c\<lparr>cu_account := (cu_account c)\<lparr>key := k\<rparr>\<rparr>)))))"
  have "dispatch_key now app rq w = (Inr (Answer x), w')" using assms by (simp add: dispatch_def)
  then have "?body w = (Inr (Answer x), w')"
    by (auto simp: dispatch_key_def Let_def catch_def ret_def throw_def split: prod.splits sum.splits exn_kind.splits)
  then obtain c w0 where c: "authenticate_request rq w = (Inr c, w0)"
    and b: "(case mark_as_used now (key (cu_account c)) of (used, k) \<Rightarrow>
      andthen (of_result used) (andthen (on_customers (customer_save (c\<lparr>cu_account := (cu_account c)\<lparr>key := k\<rparr>\<rparr>)))
        (call_next app (Some (context_of_customer (cu_account c))) (Some (c\<lparr>cu_account := (cu_account c)\<lparr>key := k\<rparr>\<rparr>))))) w0
      = (Inr (Answer x), w')"
    by (elim bind_okE)
  from authenticate_run [OF c] have w0: "w0 = w" by blast
  obtain h where h: "rq_auth_header rq = Some h" "find_active_customer (py_strip (drop 7 h)) w = (Inr (Some c), w)"
    using authenticate_run(2) [OF c refl] by blast
  obtain r where r: "r \<in> set (customers w)" "c_key r = py_strip (drop 7 h)" "c_key_active r"
    "c_status r \<in> {status_value ACTIVE, status_value TRIAL}" "model_to_domain r = Inr c"
    using find_active_run(2) [OF h(2) refl] by blast
  note d = model_to_domain_valid [OF r(5)]
  have nm: "acc_name (cu_account c) = py_strip (c_tenant r)"
    using r(5) by (auto simp: model_to_domain_def bind_r_ok_iff TenantName_iff split: if_splits)
  obtain q k where m: "mark_as_used now (key (cu_account c)) = (q, k)" by (metis surj_pair)
  let ?c = "c\<lparr>cu_account := (cu_account c)\<lparr>key := k\<rparr>\<rparr>"
  obtain y w1 where s: "on_customers (customer_save ?c) w = (Inr y, w1)"
    and n: "call_next app (Some (context_of_customer (cu_account c))) (Some ?c) w1 = (Inr (Answer x), w')"
    using b unfolding w0 m prod.case by (auto simp: of_result_def elim!: andthen_okE)
  have a: "app (Some (context_of_customer (cu_account c))) (Some ?c) w1 = (Inr x, w')"
    using n by (auto simp: call_next_def ret_def elim!: bind_okE)
  obtain rows where rows: "customer_save ?c (customers w) = (Inr y, rows)" "w1 = w\<lparr>customers := rows\<rparr>"
    using s by (auto simp: on_customers_def split: prod.splits)
  obtain g where g: "rows = put_row (populate_model ?c g) (customers w)"
    by (rule customer_save_runD [OF valid_changes(3) [OF d(1) m] rows(1)])
  have "c_id (populate_model ?c g) = c_id r" using d(2) by (simp add: populate_model_def Let_def)
  then have other: "\<forall>y. c_id y \<noteq> c_id r \<longrightarrow> (y \<in> set (customers w1) \<longleftrightarrow> y \<in> set (customers w))"
    by (auto simp: rows(2) g set_put_row)
  have "cx_tenant (context_of_customer (cu_account c)) = c_id r" "cx_name (context_of_customer (cu_account c)) = py_strip (c_tenant r)"
    using d(2) nm by (simp_all add: context_of_customer_def)
  with h(1) r(1-4) a other show ?thesis
    by (intro exI [of _ h] exI [of _ r] exI [of _ ?c] exI [of _ w1] conjI exI [of _ "context_of_customer (cu_account c)"])
      (simp_all add: rows(2))
qed

theorem requests_act_for_key_owner_witness:
  "\<exists>r \<in> set (customers demo_office). c_key r = ''kb_'' @ replicate 43 CHR ''k'' \<and> c_key_active r"
proof -
  have p: "requires_auth (rq_path demo_request)" "\<not> startswith (rq_path demo_request) sse_path" by code_simp+
  have k: "py_strip (drop 7 (''Bearer kb_'' @ replicate 43 CHR ''k'')) = ''kb_'' @ replicate 43 CHR ''k''" by code_simp
  obtain w' where "dispatch no_jose demo_jwt 0 8 (\<lambda>cx c. ret (map_option cx_tenant cx)) demo_request demo_office = (Inr (Answer (Some ''u'')), w')"
    using demo_office_runs(3) by (metis prod.collapse)
  from requests_act_for_key_owner [OF p this] obtain h r where "rq_auth_header demo_request = Some h" "r \<in> set (customers demo_office)"
    "c_key r = py_strip (drop 7 h)" "c_key_active r" by blast
  then show ?thesis using k by (auto simp: demo_request_def)
qed

text \<open>C14: After a suspension that succeeded, every request with the customer's key to a path that needs one is refused
  with 401 and nothing else happens, whatever the application would do.\<close>

theorem suspension_locks_out:
  assumes "customers_ok (customers w)" "r \<in> set (customers w)"
    and "update_customer_subscription_status K E at1 (c_id r) ''suspended'' w = (Inr True, w')"
    and "requires_auth (rq_path rq)" "\<not> startswith (rq_path rq) sse_path"
    and "rq_auth_header rq = Some h" "startswith h ''Bearer ''" "py_strip (drop 7 h) = c_key r"
  shows "dispatch J S seconds now app rq w' = (Inr (Refusal 401 ''Invalid API key''), w')"
proof -
  obtain c where c: "model_to_domain r = Inr c" using assms(1,2) by (auto simp: customers_ok_def is_ok_iff)
  note d = model_to_domain_valid [OF c]
  have f: "on_customers (customer_find_by_id (c_id r)) w = (Inr (Some c), w)"
    by (simp add: on_customers_def find_row(1) [OF assms(1,2) c])
  obtain q b where s: "suspend_account at1 ''Administrative action'' (cu_account c) = (q, b)" by (metis surj_pair)
  let ?c = "c\<lparr>cu_account := b\<rparr>"
  obtain z w1 where q: "q = Inr ()" and sv: "on_customers (customer_save ?c) w = (Inr z, w1)"
    and w': "customers w' = customers w1"
    using assms(3) unfolding update_customer_subscription_status_def Let_def bind_step(1) [where m = "on_customers (customer_find_by_id (c_id r))", OF f]
      option.case s prod.case
    by (cases q) (auto simp: of_result_def ret_def dest!: on_services_customers elim!: andthen_okE)
  have v: "valid_customer ?c" by (rule valid_changes(2) [OF d(1) s [unfolded q]])
  obtain g where g: "cu_hash ?c = Some g" "\<not> list_ex (clashes (populate_model ?c g)) (customers w)"
    "w1 = w\<lparr>customers := put_row (populate_model ?c g) (customers w)\<rparr>"
    by (rule on_customers_save [OF sv v]) (rule that)
  have b: "status b = SUSPENDED" "\<not> is_active (key b)" "key_value (key b) = c_key r"
    using s q d(3) by (auto simp: suspend_account_def deactivate_def add_event_def split: if_splits)
  let ?r = "populate_model ?c g"
  have m: "model_to_domain ?r = Inr (stored ?c)" by (rule model_populate [OF v g(1)])
  have ok: "customers_ok (customers w')" using customers_ok_put [OF assms(1) _ g(2)] m w' g(3) by simp
  have mem: "?r \<in> set (customers w')" using w' g(3) by (simp add: set_put_row)
  have k: "c_key ?r = c_key r" using b(3) by (simp add: populate_model_def Let_def)
  have i: "\<not> is_active (key (cu_account (stored ?c)))" using b(2) by (simp add: stored_def Let_def)
  have "on_customers (customer_find_by_api_key (c_key r)) w' = (Inr (Some (stored ?c)), w')"
    using find_row(2) [OF ok mem m] k by (simp add: on_customers_def)
  then have n: "find_active_customer (c_key r) w' = (Inr None, w')"
    using i by (simp add: find_active_customer_def catch_def bind_def ret_def)
  have ne: "c_key r \<noteq> []" "h \<noteq> []" using d(1,3) assms(7) by (auto simp: valid_customer_def Let_def valid_key_def startswith_def)
  have "authenticate_request rq w' = (raise (HTTPException 401) ''Invalid API key'', w')"
    using assms(6-8) ne n by (simp add: authenticate_request_def bind_def throw_def)
  then show ?thesis using assms(4,5) by (simp add: dispatch_def dispatch_key_def catch_def bind_def ret_def)
qed

theorem suspension_locks_out_witness:
  "\<exists>w'. update_customer_subscription_status no_cache quiet_events 9 ''u'' ''suspended'' demo_office = (Inr True, w') \<and>
    dispatch no_jose demo_jwt 0 8 (\<lambda>cx c. ret ()) demo_request w' = (Inr (Refusal 401 ''Invalid API key''), w')"
proof -
  have p: "requires_auth (rq_path demo_request)" "\<not> startswith (rq_path demo_request) sse_path" by code_simp+
  obtain r where r: "customers demo_office = [r]" "c_id r = ''u''" using demo_office_runs(2) by auto
  have h: "rq_auth_header demo_request = Some (''Bearer kb_'' @ replicate 43 CHR ''k'')" by (simp add: demo_request_def)
  have b: "startswith (''Bearer kb_'' @ replicate 43 CHR ''k'') ''Bearer ''" by code_simp
  have "map c_key (customers demo_office) = [py_strip (drop 7 (''Bearer kb_'' @ replicate 43 CHR ''k''))]" by code_simp
  then have k: "py_strip (drop 7 (''Bearer kb_'' @ replicate 43 CHR ''k'')) = c_key r" using r(1) by simp
  obtain w' where u: "update_customer_subscription_status no_cache quiet_events 9 (c_id r) ''suspended'' demo_office = (Inr True, w')"
    using demo_office_runs(4) unfolding r(2) by (metis prod.collapse)
  have m: "r \<in> set (customers demo_office)" by (simp add: r(1))
  from suspension_locks_out [OF demo_office_ok m u p h b k, of no_jose demo_jwt 0 8 "\<lambda>cx c. ret ()"] u
  show ?thesis unfolding r(2) by blast
qed

text \<open>C15: Registering and logging in. After a registration that succeeded, logging in with the same address, in any
  case and with spaces around it, and the same password succeeds and gives the customer and the key the registration
  returned; a password whose salted hash differs is refused with 401.\<close>

theorem registered_customer_logs_in:
  assumes "customers_ok (customers w)" "register_customer sha E K provision call rq w = (Inr resp, w1)"
    and "EmailAddress mail = EmailAddress (rg_email rq)" "CHR '':'' \<notin> set (rc_salt call)"
  shows "(\<exists>out w2. login sha now mail (rg_password rq) w1 = (Inr out, w2) \<and> lo_customer out = rr_customer resp \<and>
      lo_api_key out = rr_api_key resp) \<and>
    (\<forall>p. sha (p @ rc_salt call) \<noteq> sha (rg_password rq @ rc_salt call) \<longrightarrow>
      login sha now mail p w1 = (raise (HTTPException 401) ''Invalid email or password'', w1))"
proof -
  define h where "h = hash_password sha (rc_salt call) (rg_password rq)"
  obtain c where c0: "valid_customer c" "cu_hash c = Some (hash_password sha (rc_salt call) (rg_password rq))"
    "acc_id (cu_account c) = rr_customer resp" "key_value (key (cu_account c)) = rr_api_key resp"
    "EmailAddress (rg_email rq) = Inr (email (cu_account c))" "column_widths (populate_model c (hash_password sha (rc_salt call) (rg_password rq)))"
    "\<not> list_ex (clashes (populate_model c (hash_password sha (rc_salt call) (rg_password rq)))) (customers w)"
    "customers w1 = put_row (populate_model c (hash_password sha (rc_salt call) (rg_password rq))) (customers w)"
    by (rule register_runD [OF assms(2)]) (rule that; assumption)
  note c = c0 [folded h_def]
  let ?r = "populate_model c h"
  have hn: "h \<noteq> []" by (simp add: h_def hash_password_def)
  have m: "model_to_domain ?r = Inr (stored c)" by (rule model_populate [OF c(1,2)])
  have ok: "customers_ok (customers w1)" using customers_ok_put [OF assms(1) _ c(7)] m c(8) by simp
  have mem: "?r \<in> set (customers w1)" using c(8) by (simp add: set_put_row)
  have "EmailAddress mail = Inr (c_email ?r)" using assms(3) c(5) by (simp add: populate_model_def Let_def)
  from find_row(3) [OF ok mem m this]
  have f: "on_customers (customer_find_by_email mail) w1 = (Inr (Some (stored c)), w1)" by (simp add: on_customers_def)
  have sh: "cu_hash (stored c) = Some h" using c(2) hn by (simp add: stored_def Let_def nonempty_def)
  have ver: "verify_password sha p h \<longleftrightarrow> sha (p @ rc_salt call) = sha (rg_password rq @ rc_salt call)" for p
    using split_first_char [OF assms(4)] by (simp add: verify_password_def h_def hash_password_def)
  let ?c = "(stored c)\<lparr>cu_account := (cu_account (stored c))\<lparr>last_login := Some now\<rparr>\<rparr>"
  have v: "valid_customer ?c" by (rule valid_changes(4) [OF model_to_domain_valid(1) [OF m]])
  have sv: "customer_save ?c (customers w1) = (Inr (stored ?c), put_row (populate_model ?c h) (customers w1))"
    by (rule save_again [OF ok mem v])
      (use sh c(6) in \<open>auto simp: populate_model_def stored_def Let_def column_widths_def nonempty_def split: option.splits\<close>)
  have "\<exists>out w2. login sha now mail (rg_password rq) w1 = (Inr out, w2) \<and> lo_customer out = rr_customer resp \<and> lo_api_key out = rr_api_key resp"
    using f sh hn ver [of "rg_password rq"] sv c(3,4)
    by (simp add: login_def http_errors_def catch_def bind_def Let_def on_customers_def andthen_def ret_def)
      (simp add: stored_def Let_def)
  moreover have "login sha now mail p w1 = (raise (HTTPException 401) ''Invalid email or password'', w1)"
    if "sha (p @ rc_salt call) \<noteq> sha (rg_password rq @ rc_salt call)" for p
    using that f sh ver [of p] by (simp add: login_def http_errors_def catch_def bind_def throw_def of_result_def)
  ultimately show ?thesis by blast
qed

theorem registered_customer_logs_in_witness:
  "\<exists>resp out w2. demo_register empty_office = (Inr resp, demo_office) \<and>
    login id 9 '' ANN@acme.org '' ''secret12'' demo_office = (Inr out, w2) \<and> lo_api_key out = rr_api_key resp"
proof -
  obtain resp where r: "register_customer id quiet_events no_cache None demo_register_call demo_registration empty_office = (Inr resp, demo_office)"
    using demo_office_runs(1) unfolding demo_office_def demo_register_def is_ok_iff by (metis prod.collapse)
  have o: "customers_ok (customers empty_office)" by (simp add: customers_ok_def empty_office_def)
  have m: "EmailAddress '' ANN@acme.org '' = EmailAddress (rg_email demo_registration)" by code_simp
  have c: "CHR '':'' \<notin> set (rc_salt demo_register_call)" by (simp add: demo_register_call_def)
  have pw: "rg_password demo_registration = ''secret12''" by (simp add: demo_registration_def)
  from registered_customer_logs_in [OF o r m c, of 9] r show ?thesis unfolding pw demo_register_def by blast
qed

end
