(* ===== verification/Routing.thy ===== *)
theory Routing
  imports Access Site
begin

text \<open>
  What the routes about databases, branches and queries share (\<open>presentation/api\<close>): how a database in
  a path or a body is resolved to its id, and how exceptions become statuses.
\<close>

section \<open>Exceptions\<close>

text \<open>\<open>str(e)\<close>, which for an \<open>HTTPException\<close> has the status in front.\<close>

definition exn_text :: "exn \<Rightarrow> string" where
  "exn_text e = (case kind_of e of HTTPException n \<Rightarrow> py_str_nat n @ '': '' @ str_of e | _ \<Rightarrow> str_of e)"

text \<open>\<open>except Exception as e: raise HTTPException(n, ...)\<close>, which replaces an \<open>HTTPException\<close> too.\<close>

definition every_error :: "nat \<Rightarrow> (string \<Rightarrow> string) \<Rightarrow> ('w, 'a) act \<Rightarrow> ('w, 'a) act" where
  "every_error n detail m = catch m (\<lambda>e. throw (HTTPException n) (detail (exn_text e)))"

text \<open>A clause for \<open>ValueError\<close> before the clauses for the rest, and one for \<open>FileNotFoundError\<close>.\<close>

definition value_errors :: "nat \<Rightarrow> (string \<Rightarrow> string) \<Rightarrow> ('w, 'a) act \<Rightarrow> ('w, 'a) act" where
  "value_errors n detail m = catch m (\<lambda>e. if is_value_error e then throw (HTTPException n) (detail (str_of e)) else of_result (Inl e))"

definition missing_files :: "nat \<Rightarrow> ('w, 'a) act \<Rightarrow> ('w, 'a) act" where
  "missing_files n m = catch m (\<lambda>e. if kind_of e = FileNotFoundError then throw (HTTPException n) (str_of e) else of_result (Inl e))"

definition refused :: "nat \<Rightarrow> ('w, 'a) act \<Rightarrow> 'w \<Rightarrow> bool" where
  "refused n m w \<longleftrightarrow> (\<exists>msg. m w = (Inl (Exn (HTTPException n) msg), w))"

lemma status_run [exec_simps]:
  "m w = (Inr x, w') \<Longrightarrow> every_error n f m w = (Inr x, w')"
  "m w = (Inl e, w') \<Longrightarrow> every_error n f m w = (Inl (Exn (HTTPException n) (f (exn_text e))), w')"
  "m w = (Inr x, w') \<Longrightarrow> http_errors n f m w = (Inr x, w')"
  "m w = (Inl (Exn (HTTPException j) s), w') \<Longrightarrow> http_errors n f m w = (Inl (Exn (HTTPException j) s), w')"
  "m w = (Inr x, w') \<Longrightarrow> value_errors n f m w = (Inr x, w')"
  "m w = (Inl e, w') \<Longrightarrow> value_errors n f m w =
    (if is_value_error e then Inl (Exn (HTTPException n) (f (str_of e))) else Inl e, w')"
  "m w = (Inr x, w') \<Longrightarrow> missing_files n m w = (Inr x, w')"
  "m w = (Inl e, w') \<Longrightarrow> missing_files n m w =
    (if kind_of e = FileNotFoundError then Inl (Exn (HTTPException n) (str_of e)) else Inl e, w')"
  by (simp_all add: every_error_def http_errors_def value_errors_def missing_files_def catch_def throw_def of_result_def)

text \<open>Whatever is raised inside, a route answers or refuses with a status.\<close>

lemma http_errors_status: "http_errors n f m w = (Inl e, w') \<Longrightarrow> \<exists>j. kind_of e = HTTPException j"
  by (cases "m w") (auto simp: http_errors_def catch_def throw_def of_result_def split: sum.splits exn_kind.splits)

section \<open>Databases by id or by name\<close>

text \<open>\<open>by_name\<close> looks a name up among the tenant's databases; a text that is a UUID is taken as it is.\<close>

definition resolve_database_id :: "(uuid \<Rightarrow> string \<Rightarrow> ('w, db_row option) act) \<Rightarrow> string \<Rightarrow> uuid \<Rightarrow> ('w, uuid) act" where
  "resolve_database_id by_name identifier t = (case UUID identifier of
       Inr i \<Rightarrow> ret i
     | Inl _ \<Rightarrow> bind (by_name t identifier) (\<lambda>found. case found of
         None \<Rightarrow> throw (HTTPException 404) (''Database '' @ [CHR 39] @ identifier @ [CHR 39] @ '' not found for this tenant'')
       | Some r \<Rightarrow> ret (d_id r)))"

lemma resolve_uuid: "UUID i = Inr d \<Longrightarrow> resolve_database_id by_name i t w = (Inr d, w)"
  by (simp add: resolve_database_id_def ret_def)

text \<open>A database is found under its name, unless the name reads as a UUID.\<close>

lemma resolve_name:
  assumes "table_ok d_id d_unique rows" "r \<in> set rows" "d_tenant r = t" "DatabaseName (d_name r) = Inr n" "UUID (d_name r) = Inl e"
  shows "resolve_database_id metadata_find_by_name (d_name r) t rows = (Inr (d_id r), rows)"
proof -
  have u: "distinct (map d_unique rows)" using assms(1) by (simp add: table_ok_def)
  have "List.find (\<lambda>x. d_unique x = (t, d_name r)) rows = Some r"
    unfolding find_key using table_map_Some [OF u] assms(2,3) by simp
  then show ?thesis
    using assms(4,5) by (simp add: resolve_database_id_def metadata_find_by_name_def sql_fetchone_def bind_def of_result_def
        checked_row_def ret_def)
qed

text \<open>An id that comes out is the text's own or belongs to a database of the tenant.\<close>

lemma resolve_cases:
  assumes "resolve_database_id metadata_find_by_name i t rows = (Inr d, rows')"
  shows "rows' = rows \<and> (UUID i = Inr d \<or> (\<exists>r \<in> set rows. d_tenant r = t \<and> d_name r = i \<and> d_id r = d))"
proof (cases "UUID i")
  case (Inl e)
  with assms show ?thesis
    by (auto simp: resolve_database_id_def metadata_find_by_name_def sql_fetchone_def bind_def of_result_def checked_row_def
        ret_def throw_def bind_r_ok_iff find_Some_iff split: option.splits sum.splits dest!: find_SomeD)
qed (use assms in \<open>simp add: resolve_database_id_def ret_def\<close>)

end
