(* ===== verification/Database_Routes.thy ===== *)
theory Database_Routes
  imports Routing PITR_Run PITR_Timeline Provisioning
begin

text \<open>
  The routes under \<open>/databases\<close> (\<open>presentation/api/databases/routes.py\<close>): resolving the database, calling
  the use case with the services the wiring hands over, and turning exceptions into statuses. The caller is
  the tenant \<open>t\<close> of the request's context. Times in answers are values; \<open>fromiso\<close> is
  \<open>datetime.fromisoformat\<close> on texts with a zone, \<open>None\<close> where it raises (a text without one is outside the model).
\<close>

section \<open>Base64\<close>

text \<open>\<open>base64.b64decode\<close> as CPython reads: characters outside the alphabet are skipped, \<open>=\<close> ends the text
  once it completes a group. The state is the position in the group of four, the bits left over, and the
  number of \<open>=\<close> in a row.\<close>

definition b64_digit :: "char \<Rightarrow> nat option" where
  "b64_digit c = (let n = of_char c :: nat in
     if 65 \<le> n \<and> n \<le> 90 then Some (n - 65) else if 97 \<le> n \<and> n \<le> 122 then Some (n - 71)
     else if 48 \<le> n \<and> n \<le> 57 then Some (n + 4) else if c = CHR ''+'' then Some 62 else if c = CHR 0x2F then Some 63
     else None)"

fun b64_scan :: "string \<Rightarrow> nat \<Rightarrow> nat \<Rightarrow> nat \<Rightarrow> nat list \<Rightarrow> nat list result" where
  "b64_scan [] q left pads out = (if q = 0 then Inr out else raise ValueError ''Incorrect padding'')"
| "b64_scan (c # cs) q left pads out =
     (if c = CHR ''='' then
        (if 2 \<le> q \<and> 4 \<le> q + pads + 1 then Inr out else b64_scan cs q left (if 2 \<le> q then pads + 1 else pads) out)
      else (case b64_digit c of
          None \<Rightarrow> b64_scan cs q left pads out
        | Some v \<Rightarrow> if q = 0 then b64_scan cs 1 v 0 out
            else if q = 1 then b64_scan cs 2 (v mod 16) 0 (out @ [left * 4 + v div 16])
            else if q = 2 then b64_scan cs 3 (v mod 4) 0 (out @ [left * 16 + v div 4])
            else b64_scan cs 0 0 0 (out @ [left * 64 + v])))"

definition b64decode :: "string \<Rightarrow> nat list result" where
  "b64decode s = (if \<exists>c \<in> set s. 128 \<le> (of_char c :: nat) then raise ValueError ''string argument should contain only ASCII characters''
     else b64_scan s 0 0 0 [])"

section \<open>The services\<close>

text \<open>The use cases of these routes get no event service, except for deleting and uploading.\<close>

definition wired :: "('x, 'b, 'v) backend \<Rightarrow> ('x, 'b, 'v) backend" where
  "wired V = V\<lparr>bk_events := None\<rparr>"

definition get_provisioning_use_case :: "'x provisioner \<Rightarrow> 'x provisioner" where
  "get_provisioning_use_case P = P\<lparr>pv_snapshots := True, pv_default := ''main''\<rparr>"

text \<open>The use case of deleting has no parameter \<open>event_service\<close>.\<close>

definition get_delete_db_uc :: "unit result" where
  "get_delete_db_uc = raise TypeError ''got an unexpected keyword argument''"

definition by_name :: "uuid \<Rightarrow> string \<Rightarrow> (('x, 'b) site, db_row option) act" where
  "by_name t n = on_dbs (metadata_find_by_name t n)"

abbreviation database_of :: "string \<Rightarrow> uuid \<Rightarrow> (('x, 'b) site, uuid) act" where
  "database_of \<equiv> resolve_database_id by_name"

section \<open>Databases\<close>

record database_response =
  dq_id :: uuid
  dq_name :: string
  dq_description :: "string option"
  dq_status :: string
  dq_created :: dt
  dq_size :: nat
  dq_tenant :: uuid

record database_list =
  dl_tenant :: uuid
  dl_databases :: "database_response list"
  dl_count :: nat
  dl_size :: nat

record create_request =
  cr_name :: string
  cr_description :: "string option"

text \<open>The lengths the request models ask for; the framework answers 422 before the route runs.\<close>

definition create_request_ok :: "create_request \<Rightarrow> bool" where
  "create_request_ok q \<longleftrightarrow> 1 \<le> length (cr_name q) \<and> length (cr_name q) \<le> 50 \<and>
     (case cr_description q of None \<Rightarrow> True | Some s \<Rightarrow> length s \<le> 500)"

text \<open>The tenant is the one in the path, whoever calls.\<close>

definition provision_route :: "('x, 'b, 'v) backend \<Rightarrow> 'x provisioner \<Rightarrow> provision_call \<Rightarrow> uuid \<Rightarrow> string option \<Rightarrow>
    (('x, 'b) site, provision_response) act" where
  "provision_route V P call path_tenant name = every_error 400 (\<lambda>m. m)
     (provision_tenant_resources (wired V) (get_provisioning_use_case P) call path_tenant name)"

definition create_database :: "('x, 'b, 'v) backend \<Rightarrow> 'x provisioner \<Rightarrow> provision_call \<Rightarrow> create_request \<Rightarrow> uuid \<Rightarrow>
    (('x, 'b) site, database_response) act" where
  "create_database V P call q t = every_error 400 (\<lambda>m. m)
     (bind (by_name t (cr_name q)) (\<lambda>existing.
      if existing \<noteq> None then throw (HTTPException 400) ''Database already exists for this tenant''
      else bind (provision_tenant_resources (wired V) (get_provisioning_use_case P) call t (Some (cr_name q))) (\<lambda>r.
        ret \<lparr>dq_id = pr_id r, dq_name = pr_name r, dq_description = cr_description q, dq_status = ''ready'',
          dq_created = pr_created r, dq_size = 0, dq_tenant = t\<rparr>)))"

definition response_of_row :: "db_row \<Rightarrow> database_response" where
  "response_of_row m = \<lparr>dq_id = d_id m, dq_name = d_name m, dq_description = None, dq_status = ''ready'',
     dq_created = d_created m, dq_size = 0, dq_tenant = d_tenant m\<rparr>"

definition list_databases :: "uuid \<Rightarrow> (('x, 'b) site, database_list) act" where
  "list_databases t = every_error 400 (\<lambda>m. m)
     (bind (on_dbs (metadata_find_by_tenant t)) (\<lambda>metas. let items = map response_of_row metas in
      ret \<lparr>dl_tenant = t, dl_databases = items, dl_count = length items, dl_size = 0\<rparr>))"

definition get_database :: "('x, 'b, db_info) backend \<Rightarrow> string \<Rightarrow> uuid \<Rightarrow> (('x, 'b) site, database_response) act" where
  "get_database V i t = http_errors 400 (\<lambda>m. m)
     (bind (database_of i t) (\<lambda>d. bind (get_kuzu_database_info V t d) (\<lambda>info. case info of
        None \<Rightarrow> throw (HTTPException 404) ''Database not found''
      | Some x \<Rightarrow> ret \<lparr>dq_id = i, dq_name = d_name (di_row x), dq_description = None, dq_status = ''ready'',
          dq_created = d_created (di_row x), dq_size = 0, dq_tenant = t\<rparr>)))"

text \<open>Getting the use case raises before the route's own \<open>try\<close>.\<close>

definition delete_database :: "('x, 'b, 'v) backend \<Rightarrow> 'x event_port \<Rightarrow> string \<Rightarrow> uuid \<Rightarrow> (('x, 'b) site, string) act" where
  "delete_database V E i t = andthen (of_result get_delete_db_uc) (http_errors 400 (\<lambda>m. m)
     (bind (database_of i t) (\<lambda>d. bind (delete_kuzu_database V E t d) (\<lambda>success.
        if \<not> success then throw (HTTPException 404) ''Database not found'' else ret i))))"

definition upload_database_file :: "('x, 'b, 'v) backend \<Rightarrow> 'x event_port \<Rightarrow> (nat list \<Rightarrow> 'b blob) \<Rightarrow> string \<Rightarrow> uuid \<Rightarrow>
    string \<Rightarrow> string \<Rightarrow> (('x, 'b) site, upload_response) act" where
  "upload_database_file V E file i t filename text64 = http_errors 400 (\<lambda>m. m)
     (bind (database_of i t) (\<lambda>d.
      bind (every_error 400 (\<lambda>_. ''Invalid base64 content'') (of_result (b64decode text64))) (\<lambda>content.
        upload_kuzu_database_file V E t d (file content) filename)))"

section \<open>Snapshots\<close>

definition snapshot_route :: "('x, 'b, 'v) backend \<Rightarrow> snapshot_call \<Rightarrow> string \<Rightarrow> uuid \<Rightarrow> (('x, 'b) site, snapshot_response) act" where
  "snapshot_route V call i t = every_error 400 (\<lambda>m. m)
     (bind (database_of i t) (create_database_snapshot (wired V) call True t))"

definition snapshots_route :: "('x, 'b, 'v) backend \<Rightarrow> string \<Rightarrow> uuid \<Rightarrow> (('x, 'b) site, string \<times> snap_row list \<times> nat) act" where
  "snapshots_route V i t = every_error 400 (\<lambda>m. m)
     (bind (database_of i t) (\<lambda>d. bind (list_database_snapshots (wired V) t d) (\<lambda>items. ret (i, items, length items))))"

definition restore_route :: "('x, 'b, 'v) backend \<Rightarrow> ('b blob \<Rightarrow> 'b) \<Rightarrow> string \<Rightarrow> string \<Rightarrow> uuid \<Rightarrow> string \<Rightarrow> (('x, 'b) site, bool) act" where
  "restore_route V raw tmp i t snapshot_id = every_error 400 (\<lambda>m. m)
     (bind (database_of i t) (\<lambda>d. bind (of_result (UUID snapshot_id)) (\<lambda>s.
        restore_database_from_snapshot (wired V) raw tmp t d s)))"

section \<open>Points in time\<close>

text \<open>\<open>fromisoformat(text.replace("Z", "+00:00"))\<close>; a parameter that is absent or empty gives no time.\<close>

definition zoned :: "(string \<Rightarrow> dt option) \<Rightarrow> string \<Rightarrow> dt result" where
  "zoned fromiso text1 = (case fromiso (py_replace ''Z'' ''+00:00'' text1) of
       None \<Rightarrow> raise ValueError ''Invalid isoformat string'' | Some d \<Rightarrow> Inr d)"

definition zoned_option :: "(string \<Rightarrow> dt option) \<Rightarrow> string option \<Rightarrow> dt option result" where
  "zoned_option fromiso x = (case x of Some (c # cs) \<Rightarrow> bind_r (zoned fromiso (c # cs)) (\<lambda>d. Inr (Some d)) | _ \<Rightarrow> Inr None)"

definition time_errors :: "('w, 'a) act \<Rightarrow> ('w, 'a) act" where
  "time_errors m = http_errors 400 (\<lambda>s. s) (value_errors 400 (\<lambda>s. ''Invalid timestamp format: '' @ s) m)"

definition site_authz :: "('x, 'b, 'v) backend \<Rightarrow> ('x, 'b) site authz_port" where
  "site_authz V = \<lparr>check_permission = \<lambda>t r a. on_ext (check_permission (bk_authz V) t r a)\<rparr>"

record pitr_query =
  pq_start :: "string option"
  pq_end :: "string option"
  pq_target :: "string option"
  pq_window :: "string option"
  pq_queries :: bool
  pq_types :: bool

definition get_database_pitr :: "('x, 'b, 'v) backend \<Rightarrow> 'b blob codec \<Rightarrow> (string \<Rightarrow> dt option) \<Rightarrow> dt \<Rightarrow> string \<Rightarrow> uuid \<Rightarrow>
    pitr_query \<Rightarrow> (('x, 'b) site, timeline) act" where
  "get_database_pitr V J fromiso now i t q = time_errors
     (bind (database_of i t) (\<lambda>d.
      bind (of_result (zoned_option fromiso (pq_start q))) (\<lambda>start.
      bind (of_result (zoned_option fromiso (pq_end q))) (\<lambda>stop.
      bind (of_result (zoned_option fromiso (pq_target q))) (\<lambda>target.
        list_database_pitr (site_authz V) (\<lambda>d. bind (on_snaps (snapshot_list d None)) (\<lambda>rows. ret (map snapshot_dict rows)))
          (site_storage V) J now
          \<lparr>tr_tenant = t, tr_database = d, tr_start = start, tr_end = stop, tr_target = target, tr_window = pq_window q,
           tr_types = pq_types q, tr_queries = pq_queries q\<rparr>)))))"

definition preview_route :: "('x, 'b, 'v) backend \<Rightarrow> ('b blob \<Rightarrow> 'b) \<Rightarrow> 'b blob codec \<Rightarrow>
    (path \<Rightarrow> string \<Rightarrow> ('b files, 'row list) act) \<Rightarrow> (string \<Rightarrow> dt option) \<Rightarrow> path \<Rightarrow> string \<Rightarrow> uuid \<Rightarrow> string \<Rightarrow> string option \<Rightarrow>
    (('x, 'b) site, 'row preview_response) act" where
  "preview_route V raw J run fromiso tmp i t target query =
     http_errors 400 (\<lambda>s. s) (missing_files 404 (value_errors 400 (\<lambda>s. ''Invalid timestamp format: '' @ s)
     (bind (database_of i t) (\<lambda>d. bind (of_result (zoned fromiso target)) (\<lambda>at1.
        preview_database_pitr (wired V) raw J run tmp t d at1 query)))))"

definition restore_pitr_route :: "('x, 'b, 'v) backend \<Rightarrow> ('b blob \<Rightarrow> 'b) \<Rightarrow> 'b blob codec \<Rightarrow>
    (path \<Rightarrow> string \<Rightarrow> ('b files, 'row list) act) \<Rightarrow> (string \<Rightarrow> dt option) \<Rightarrow> pitr_settings \<Rightarrow> pitr_call \<Rightarrow> string \<Rightarrow> uuid \<Rightarrow>
    string \<Rightarrow> (('x, 'b) site, pitr_response) act" where
  "restore_pitr_route V raw J run fromiso cfg call i t target =
     http_errors 400 (\<lambda>s. s) (missing_files 404 (value_errors 400 (\<lambda>s. ''Invalid timestamp format: '' @ s)
     (bind (database_of i t) (\<lambda>d. bind (of_result (zoned fromiso target)) (\<lambda>at1.
        restore_database_pitr (wired V) raw J run cfg call t d at1)))))"

section \<open>Bookmarks\<close>

text \<open>These routes use the tables of databases and bookmarks only.\<close>

definition bookmark_database :: "string \<Rightarrow> uuid \<Rightarrow> (db_row list \<times> bookmark_row list, uuid) act" where
  "bookmark_database i t = on_fst (resolve_database_id metadata_find_by_name i t)"

definition list_pitr_bookmarks :: "string \<Rightarrow> uuid \<Rightarrow> (db_row list \<times> bookmark_row list, bookmark_row list) act" where
  "list_pitr_bookmarks i t = every_error 400 (\<lambda>m. m)
     (bind (bookmark_database i t) (\<lambda>d. on_snd (bookmark_list t d)))"

definition create_pitr_bookmark :: "(string \<Rightarrow> iso_field) \<Rightarrow> uuid \<Rightarrow> string \<Rightarrow> uuid \<Rightarrow> string \<Rightarrow> string \<Rightarrow>
    (db_row list \<times> bookmark_row list, bool) act" where
  "create_pitr_bookmark parse fresh i t name timestamp = every_error 400 (\<lambda>m. m)
     (bind (bookmark_database i t) (\<lambda>d. andthen (on_snd (bookmark_add fresh t d name (parse timestamp))) (ret True)))"

definition delete_pitr_bookmark :: "string \<Rightarrow> uuid \<Rightarrow> string \<Rightarrow> (db_row list \<times> bookmark_row list, bool) act" where
  "delete_pitr_bookmark i t name = every_error 400 (\<lambda>m. m)
     (bind (bookmark_database i t) (\<lambda>d. on_snd (bookmark_delete t d name)))"

end
