(* ===== verification/Branch_Routes.thy ===== *)
theory Branch_Routes
  imports Database_Routes Branch_Copies Branch_Names
begin

text \<open>
  The routes under \<open>/branches\<close> (\<open>presentation/api/branches/routes.py\<close>), and what the routes about
  databases and branches do with a database that is not the caller's. Creating a branch gets every
  optional service but events.
\<close>

section \<open>The routes\<close>

definition branch_database :: "string \<Rightarrow> uuid \<Rightarrow> (('x, 'b) site, uuid) act" where
  "branch_database = resolve_database_id by_name"

record branch_body =
  bb_source :: string
  bb_branch :: string
  bb_from :: "string option"

definition get_create_branch_uc :: branch_deps where
  "get_create_branch_uc = \<lparr>bd_snapshots = True, bd_pitr = True\<rparr>"

definition branch_request_of :: "uuid \<Rightarrow> uuid \<Rightarrow> branch_body \<Rightarrow> branch_request" where
  "branch_request_of t d q = \<lparr>rq_tenant = t, rq_source = d, rq_source_name = bb_source q, rq_branch = bb_branch q, rq_from = bb_from q\<rparr>"

definition create_branch_route :: "('x, 'b, 'v) backend \<Rightarrow> 'x provisioner \<Rightarrow> (string \<Rightarrow> iso_field) \<Rightarrow> ('b blob \<Rightarrow> 'b) \<Rightarrow>
    'b blob codec \<Rightarrow> (path \<Rightarrow> string \<Rightarrow> ('b files, 'row list) act) \<Rightarrow> branch_call \<Rightarrow> branch_body \<Rightarrow> uuid \<Rightarrow>
    (('x, 'b) site, branch_response) act" where
  "create_branch_route V P fromiso raw J run call q t =
     http_errors 500 (\<lambda>s. ''Branch creation failed: '' @ s) (value_errors 400 (\<lambda>s. s)
     (bind (branch_database (bb_source q) t) (\<lambda>d.
        create_branch (wired V) (get_provisioning_use_case P) get_create_branch_uc fromiso raw J run call (branch_request_of t d q))))"

definition merge_branch_route :: "('x, 'b, 'v) backend \<Rightarrow> ('b blob \<Rightarrow> 'b) \<Rightarrow> snapshot_call \<Rightarrow> string \<Rightarrow> string \<Rightarrow> string \<Rightarrow> uuid \<Rightarrow>
    (('x, 'b) site, uuid) act" where
  "merge_branch_route V raw call tmp branch1 target t = http_errors 500 (\<lambda>s. ''Merge failed: '' @ s)
     (bind (branch_database branch1 t) (\<lambda>b. bind (branch_database target t) (\<lambda>d.
        merge_branch (wired V) raw call tmp t b branch1 d target)))"

text \<open>Any database is deleted, branch or not; as for databases, getting the use case raises first.\<close>

definition delete_branch_route :: "('x, 'b, 'v) backend \<Rightarrow> 'x event_port \<Rightarrow> string \<Rightarrow> uuid \<Rightarrow> (('x, 'b) site, bool) act" where
  "delete_branch_route V E branch1 t = andthen (of_result get_delete_db_uc) (http_errors 500 (\<lambda>s. ''Deletion failed: '' @ s)
     (bind (branch_database branch1 t) (\<lambda>d. delete_branch (wired V) E t d branch1)))"

definition meta_of_row :: "(dt \<Rightarrow> string) \<Rightarrow> db_row \<Rightarrow> db_meta" where
  "meta_of_row iso_text r = \<lparr>meta_id = d_id r, meta_tenant = d_tenant r, meta_name = d_name r, meta_path = d_path r,
     meta_created = Some (iso_text (d_created r))\<rparr>"

definition list_branches_route :: "(dt \<Rightarrow> string) \<Rightarrow> string \<Rightarrow> uuid \<Rightarrow> (('x, 'b) site, list_branches_response) act" where
  "list_branches_route iso_text parent t = every_error 500 (\<lambda>s. ''Failed to list branches: '' @ s)
     (bind (on_dbs (metadata_find_by_tenant t)) (\<lambda>rows. of_result (list_branches parent (map (meta_of_row iso_text) rows))))"

section \<open>Databases of others\<close>

text \<open>With the services of the deployment every permission is given; what protects a database is the
  owner in its row.\<close>

definition owns :: "uuid \<Rightarrow> uuid \<Rightarrow> ('x, 'b) site \<Rightarrow> bool" where
  "owns t d w \<longleftrightarrow> (\<exists>r \<in> set (dbs_tab w). d_id r = d \<and> d_tenant r = t)"

lemma authorize_all: "bk_authz V = allow_all \<Longrightarrow> authorize V t a m w = (Inr (), w)"
  by (simp add: authorize_def require_def allow_all_def on_ext_def bind_def ret_def)

lemma foreign_path:
  assumes "\<not> owns t d w"
  shows "database_path t d w = (Inl (Exn FileNotFoundError ''Database not found''), w)"
proof -
  have "db_find_by_id d (dbs_tab w) = (Inr (List.find (\<lambda>r. d_id r = d) (dbs_tab w)), dbs_tab w)"
    by (simp add: db_find_by_id_def sql_fetchone_def)
  then show ?thesis
    using assms by (auto simp: database_path_def bind_def on_dbs_def throw_def owns_def dest: find_SomeD split: option.splits)
qed

lemma foreign_refusals:
  assumes "\<not> owns t d w" "bk_authz V = allow_all"
  shows "create_database_snapshot V call archive t d w = (Inl (Exn FileNotFoundError ''Database not found''), w)"
    and "restore_database_from_snapshot V raw tmp t d s w = (Inl (Exn FileNotFoundError ''Database not found''), w)"
    and "restore_database_pitr V raw J run cfg pcall t d target w =
      (Inl (if pi_now pcall < target then Exn ValueError ''Cannot restore to future timestamp''
        else Exn FileNotFoundError ''Database not found''), w)"
    and "upload_kuzu_database_file V E t d content f w = (Inl (Exn PermissionError ''Database does not belong to tenant''), w)"
proof -
  note a = authorize_all [OF assms(2)] and p = foreign_path [OF assms(1)]
  show "create_database_snapshot V call archive t d w = (Inl (Exn FileNotFoundError ''Database not found''), w)"
    "restore_database_from_snapshot V raw tmp t d s w = (Inl (Exn FileNotFoundError ''Database not found''), w)"
    by (simp_all add: create_database_snapshot_def restore_database_from_snapshot_def exec_simps a p)
  show "restore_database_pitr V raw J run cfg pcall t d target w =
      (Inl (if pi_now pcall < target then Exn ValueError ''Cannot restore to future timestamp''
        else Exn FileNotFoundError ''Database not found''), w)"
    by (simp add: restore_database_pitr_def exec_simps a p)
  have "db_find_by_id d (dbs_tab w) = (Inr (List.find (\<lambda>r. d_id r = d) (dbs_tab w)), dbs_tab w)"
    by (simp add: db_find_by_id_def sql_fetchone_def)
  then show "upload_kuzu_database_file V E t d content f w = (Inl (Exn PermissionError ''Database does not belong to tenant''), w)"
    using assms(1) by (auto simp: upload_kuzu_database_file_def exec_simps a bind_def on_dbs_def owns_def dest: find_SomeD split: option.splits)
qed

lemma resolve_same:
  obtains q where "resolve_database_id by_name i t w = (q, w)"
    "\<And>e. q = Inl e \<Longrightarrow> kind_of e = HTTPException 404 \<or> kind_of e = ProvisioningValidationError"
proof (cases "UUID i")
  case (Inl e)
  have n: "kind_of e = ProvisioningValidationError" if "bind_r (checked_row x) (\<lambda>x. Inr (Some x)) = Inl e" for e x
    using that by (cases "DatabaseName (d_name x)") (auto simp: checked_row_def DatabaseName_def split: if_splits)
  define q where "q = fst (resolve_database_id by_name i t w)"
  have "resolve_database_id by_name i t w = (q, w)"
    by (auto simp: q_def Inl resolve_database_id_def by_name_def on_dbs_def metadata_find_by_name_def sql_fetchone_def
      bind_def of_result_def ret_def throw_def split: option.split sum.split)
  moreover have "kind_of e = HTTPException 404 \<or> kind_of e = ProvisioningValidationError" if "q = Inl e" for e
    using that n unfolding q_def
    by (auto simp: Inl resolve_database_id_def by_name_def on_dbs_def metadata_find_by_name_def sql_fetchone_def
      bind_def of_result_def ret_def throw_def split: option.splits sum.splits)
  ultimately show thesis by (rule that)
qed (auto simp: resolve_uuid intro: that)

lemma http_errors_fail:
  "m w = (Inl e, w') \<Longrightarrow> \<exists>msg. http_errors n f m w =
    (Inl (Exn (case kind_of e of HTTPException j \<Rightarrow> HTTPException j | _ \<Rightarrow> HTTPException n) msg), w')"
  by (cases e) (auto simp: http_errors_def catch_def throw_def of_result_def split: exn_kind.split)

lemma http_errors_refuse: "m w = (Inl e, w') \<Longrightarrow> \<exists>j msg w'. http_errors n f m w = (Inl (Exn (HTTPException j) msg), w')"
  using http_errors_fail [of m w e w' n f] by (cases "kind_of e") auto

lemma routes_fail:
  "m w = (Inl e, w) \<Longrightarrow> refused n (every_error n f m) w"
  "m w = (Inl e, w) \<Longrightarrow> \<forall>j. kind_of e \<noteq> HTTPException j \<Longrightarrow> refused n (http_errors n f m) w"
proof -
  show "m w = (Inl e, w) \<Longrightarrow> refused n (every_error n f m) w"
    unfolding refused_def by (intro exI, erule status_run(2))
  show "refused n (http_errors n f m) w" if "m w = (Inl e, w)" "\<forall>j. kind_of e \<noteq> HTTPException j"
    using http_errors_fail [of m w e w n f] that by (cases "kind_of e") (auto simp: refused_def)
qed

lemma status_passes: "m w = (Inl (Exn (HTTPException k) s), w) \<Longrightarrow> refused k (http_errors n f m) w"
  unfolding refused_def by (intro exI, erule status_run(4))

lemma layered_routes_fail:
  assumes "m w = (Inl e, w)" "\<forall>j. kind_of e \<noteq> HTTPException j"
  shows "refused k (http_errors n f (value_errors k g m)) w \<or> refused n (http_errors n f (value_errors k g m)) w" (is ?vals)
    and "refused k (http_errors n f (missing_files j (value_errors k g m))) w \<or>
      refused j (http_errors n f (missing_files j (value_errors k g m))) w \<or>
      refused n (http_errors n f (missing_files j (value_errors k g m))) w" (is ?files)
proof -
  have v: "value_errors k g m w = (if is_value_error e then Inl (Exn (HTTPException k) (g (str_of e))) else Inl e, w)"
    by (rule status_run(6)) (fact assms(1))
  show ?vals
  proof (cases "is_value_error e")
    case True
    then show ?thesis using v by (intro disjI1 status_passes) simp
  next
    case False
    then show ?thesis using v assms(2) by (intro disjI2 routes_fail(2)) simp_all
  qed
  show ?files
  proof (cases "is_value_error e \<or> kind_of e = FileNotFoundError")
    case True
    then consider "is_value_error e" | "\<not> is_value_error e" "kind_of e = FileNotFoundError" by blast
    then show ?thesis
    proof cases
      case 1
      with v show ?thesis by (intro disjI1 status_passes) (simp add: status_run(8))
    next
      case 2
      with v show ?thesis by (intro disjI2 disjI1 status_passes) (simp add: status_run(8))
    qed
  next
    case False
    with v assms(2) show ?thesis by (intro disjI2 routes_fail(2)) (simp_all add: status_run(8))
  qed
qed

lemma BranchName_error: "BranchName v = Inl e \<Longrightarrow> kind_of e = ValueError"
  by (auto simp: BranchName_def split: if_splits)

section \<open>Branches of a database given by its id\<close>

lemma length_remove_all: "length (remove_all old s) \<le> length s"
proof (induction old s rule: remove_all.induct)
  case (1 old s)
  then show ?case by (subst remove_all.simps) (auto split: list.splits)
qed

lemma UUID_length: "UUID s = Inr d \<Longrightarrow> 32 \<le> length s"
proof -
  have b: "length (strip_braces x) \<le> length x" for x
    unfolding strip_braces_def Let_def by (metis length_dropWhile_le length_rev order_trans)
  let ?x = "remove_all ''uuid:'' (remove_all ''urn:'' s)"
  assume "UUID s = Inr d"
  then have "length (filter (\<lambda>c. c \<noteq> CHR ''-'') (strip_braces ?x)) = 32" by (simp add: UUID_def Let_def split: if_splits)
  moreover have "length (filter (\<lambda>c. c \<noteq> CHR ''-'') (strip_braces ?x)) \<le> length s"
    using length_filter_le b length_remove_all by (meson order_trans)
  ultimately show ?thesis by simp
qed

lemma provision_long_name:
  "41 < length n \<Longrightarrow> provision_tenant_resources V P call t (Some n) w =
    (Inl (Exn ProvisioningValidationError ''DatabaseName must be 3-40 chars, lowercase, [a-z0-9_-]''), w)"
  using db_name_pattern_length [of n]
  by (cases n) (auto simp: provision_tenant_resources_def DatabaseName_def exec_simps)

lemma long_branch_name:
  assumes "UUID s = Inr d" "BranchName b = Inr n"
  shows "41 < length (to_full_name n s)"
  using UUID_length [OF assms(1)] BranchName_length [OF assms(2)] by (simp add: to_full_name_def)

lemma create_branch_by_id:
  assumes "UUID (rq_source_name rq) = Inr d"
  shows "\<exists>e w'. create_branch V P D fromiso raw J run call rq w = (Inl e, w')"
    and "BranchName (rq_branch rq) = Inr n \<Longrightarrow> branch_base V D fromiso call rq w = (Inr x, w') \<Longrightarrow>
      create_branch V P D fromiso raw J run call rq w =
        (Inl (Exn ProvisioningValidationError ''DatabaseName must be 3-40 chars, lowercase, [a-z0-9_-]''), w')"
proof -
  show made: "create_branch V P D fromiso raw J run call rq w =
        (Inl (Exn ProvisioningValidationError ''DatabaseName must be 3-40 chars, lowercase, [a-z0-9_-]''), w')"
    if b: "BranchName (rq_branch rq) = Inr n" "branch_base V D fromiso call rq w = (Inr x, w')" for n x w'
  proof -
    obtain origin m span where x: "x = (origin, m, span)" by (metis surj_pair)
    have r: "of_result (BranchName (rq_branch rq)) w = (Inr n, w)" by (simp add: of_result_def b(1))
    note p = provision_long_name [OF long_branch_name [OF assms b(1)]]
    show ?thesis
      by (simp only: create_branch_def Let_def bind_step r b(2) p x prod.case)
  qed
  show "\<exists>e w'. create_branch V P D fromiso raw J run call rq w = (Inl e, w')"
  proof (cases "BranchName (rq_branch rq)")
    case (Inl e)
    then have "of_result (BranchName (rq_branch rq)) w = (Inl e, w)" by (simp add: of_result_def)
    then show ?thesis by (simp add: create_branch_def Let_def bind_step)
  next
    case (Inr n)
    then have r: "of_result (BranchName (rq_branch rq)) w = (Inr n, w)" by (simp add: of_result_def)
    obtain z w' where z: "branch_base V D fromiso call rq w = (z, w')" by (metis surj_pair)
    show ?thesis
    proof (cases z)
      case (Inl e)
      with z show ?thesis by (simp add: create_branch_def Let_def r bind_step)
    next
      case (Inr x)
      with made [OF \<open>BranchName (rq_branch rq) = Inr n\<close>] z show ?thesis by blast
    qed
  qed
qed

lemma wired_authz: "bk_authz V = allow_all \<Longrightarrow> bk_authz (wired V) = allow_all"
  by (simp add: wired_def)

lemma resolved: "UUID i = Inr d \<Longrightarrow> database_of i t w = (Inr d, w)" "UUID i = Inr d \<Longrightarrow> branch_database i t w = (Inr d, w)"
  by (simp_all add: branch_database_def resolve_uuid)

text \<open>Each route on its own.\<close>

lemma foreign_snapshot:
  assumes "bk_authz V = allow_all" "UUID i = Inr d" "\<not> owns t d w"
  shows "refused 400 (snapshot_route V call i t) w"
  unfolding snapshot_route_def
  by (rule routes_fail(1)) (simp only: bind_step resolved [OF assms(2)] foreign_refusals [OF assms(3) wired_authz [OF assms(1)]])

lemma foreign_restore:
  assumes "bk_authz V = allow_all" "UUID i = Inr d" "\<not> owns t d w"
  shows "refused 400 (restore_route V raw tmp i t snapshot_id) w"
proof -
  note f = foreign_refusals [OF assms(3) wired_authz [OF assms(1)]] and r = resolved [OF assms(2)]
  show ?thesis
  proof (cases "UUID snapshot_id")
    case (Inl e)
    then have "of_result (UUID snapshot_id) w = (Inl e, w)" by (simp add: of_result_def)
    then show ?thesis unfolding restore_route_def by (intro routes_fail(1)) (simp only: bind_step r)
  next
    case (Inr x)
    then have "of_result (UUID snapshot_id) w = (Inr x, w)" by (simp add: of_result_def)
    then show ?thesis unfolding restore_route_def by (intro routes_fail(1)) (simp only: bind_step r f)
  qed
qed

lemma foreign_upload:
  assumes "bk_authz V = allow_all" "UUID i = Inr d" "\<not> owns t d w"
  shows "refused 400 (upload_database_file V E file i t filename text64) w"
proof -
  note g = foreign_refusals(4) [OF assms(3,1)] and r = resolved [OF assms(2)]
  show ?thesis
  proof (cases "b64decode text64")
    case (Inl e)
    then have "of_result (b64decode text64) w = (Inl e, w)" by (simp add: of_result_def)
    then have "every_error 400 (\<lambda>_. ''Invalid base64 content'') (of_result (b64decode text64)) w =
        (Inl (Exn (HTTPException 400) ''Invalid base64 content''), w)" by (simp only: exec_simps)
    then show ?thesis unfolding upload_database_file_def by (intro status_passes) (simp only: bind_step r)
  next
    case (Inr x)
    then have "of_result (b64decode text64) w = (Inr x, w)" by (simp add: of_result_def)
    then have "every_error 400 (\<lambda>_. ''Invalid base64 content'') (of_result (b64decode text64)) w = (Inr x, w)"
      by (simp only: exec_simps)
    then show ?thesis
      unfolding upload_database_file_def by (intro routes_fail(2)) (simp only: bind_step r g, simp)
  qed
qed

lemma foreign_pitr:
  assumes "bk_authz V = allow_all" "UUID i = Inr d" "\<not> owns t d w"
  shows "refused 400 (restore_pitr_route V raw J run fromiso cfg pcall i t target) w \<or>
     refused 404 (restore_pitr_route V raw J run fromiso cfg pcall i t target) w"
proof -
  note f = foreign_refusals [OF assms(3) wired_authz [OF assms(1)]] and r = resolved [OF assms(2)]
  have "\<exists>e. bind (database_of i t) (\<lambda>d. bind (of_result (zoned fromiso target)) (\<lambda>at1.
      restore_database_pitr (wired V) raw J run cfg pcall t d at1)) w = (Inl e, w) \<and> (\<forall>j. kind_of e \<noteq> HTTPException j)"
  proof (cases "fromiso (py_replace ''Z'' ''+00:00'' target)")
    case None
    then have "of_result (zoned fromiso target) w = (Inl (Exn ValueError ''Invalid isoformat string''), w)"
      by (simp add: of_result_def zoned_def)
    then show ?thesis by (simp only: bind_step r) simp
  next
    case (Some x)
    then have "of_result (zoned fromiso target) w = (Inr x, w)" by (simp add: of_result_def zoned_def)
    then show ?thesis by (simp only: bind_step r f) simp
  qed
  then obtain e where e: "bind (database_of i t) (\<lambda>d. bind (of_result (zoned fromiso target)) (\<lambda>at1.
      restore_database_pitr (wired V) raw J run cfg pcall t d at1)) w = (Inl e, w)" "\<forall>j. kind_of e \<noteq> HTTPException j" by blast
  have "refused 400 (restore_pitr_route V raw J run fromiso cfg pcall i t target) w \<or>
      refused 404 (restore_pitr_route V raw J run fromiso cfg pcall i t target) w \<or>
      refused 400 (restore_pitr_route V raw J run fromiso cfg pcall i t target) w"
    unfolding restore_pitr_route_def by (rule layered_routes_fail(2)) (fact e)+
  then show ?thesis by blast
qed

lemma foreign_merge:
  assumes "bk_authz V = allow_all" "UUID i = Inr d" "\<not> owns t d w"
  shows "refused 500 (merge_branch_route V raw call tmp i into t) w \<or> refused 404 (merge_branch_route V raw call tmp i into t) w"
proof -
  note f = foreign_refusals [OF assms(3) wired_authz [OF assms(1)]] and r = resolved [OF assms(2)]
  obtain y where y: "branch_database into t w = (y, w)"
    "\<And>e. y = Inl e \<Longrightarrow> kind_of e = HTTPException 404 \<or> kind_of e = ProvisioningValidationError"
    using resolve_same [of into t w] unfolding branch_database_def by metis
  show ?thesis
  proof (cases y)
    case (Inl e)
    with y(1) have m: "bind (branch_database i t) (\<lambda>b. bind (branch_database into t) (\<lambda>d.
        merge_branch (wired V) raw call tmp t b i d into)) w = (Inl e, w)" by (simp only: bind_step r)
    from y(2) [OF Inl] show ?thesis
    proof
      assume "kind_of e = HTTPException 404"
      with m show ?thesis unfolding merge_branch_route_def by (cases e) (intro disjI2 status_passes [of _ _ _ "str_of e"], simp)
    next
      assume "kind_of e = ProvisioningValidationError"
      then have k: "\<forall>j. kind_of e \<noteq> HTTPException j" by simp
      show ?thesis unfolding merge_branch_route_def by (rule disjI1, rule routes_fail(2)) (fact m k)+
    qed
  next
    case (Inr x)
    with y(1) have "branch_database into t w = (Inr x, w)" by simp
    then show ?thesis
      unfolding merge_branch_route_def merge_branch_def by (intro disjI1 routes_fail(2)) (simp only: bind_step r f, simp)
  qed
qed

lemma foreign_branch:
  assumes "bk_authz V = allow_all" "UUID i = Inr d" "\<not> owns t d w"
    and source: "bb_source q = i" "bb_from q = Some ''latest''"
  shows "refused 400 (create_branch_route V P fromiso raw J run bcall q t) w \<or>
      refused 500 (create_branch_route V P fromiso raw J run bcall q t) w"
proof -
  note f = foreign_refusals [OF assms(3) wired_authz [OF assms(1)]] and r = resolved [OF assms(2)]
  have "\<exists>e. create_branch (wired V) (get_provisioning_use_case P) get_create_branch_uc fromiso raw J run bcall (branch_request_of t d q) w =
      (Inl e, w) \<and> (\<forall>j. kind_of e \<noteq> HTTPException j)"
  proof (cases "BranchName (bb_branch q)")
    case (Inl e)
    then have "of_result (BranchName (bb_branch q)) w = (Inl e, w)" by (simp add: of_result_def)
    then show ?thesis
      unfolding create_branch_def Let_def branch_request_of_def branch_request.simps
      using BranchName_error [OF Inl] by (simp only: bind_step) simp
  next
    case (Inr b)
    then have "of_result (BranchName (bb_branch q)) w = (Inr b, w)" by (simp add: of_result_def)
    then show ?thesis
      unfolding create_branch_def Let_def branch_request_of_def branch_request.simps branch_base_def base_latest_def source(2)
      by (simp only: bind_step f option.case if_True simp_thms) simp
  qed
  then obtain e where e: "create_branch (wired V) (get_provisioning_use_case P) get_create_branch_uc fromiso raw J run bcall
      (branch_request_of t d q) w = (Inl e, w)" "\<forall>j. kind_of e \<noteq> HTTPException j" by blast
  have "bind (branch_database (bb_source q) t) (\<lambda>d. create_branch (wired V) (get_provisioning_use_case P)
      get_create_branch_uc fromiso raw J run bcall (branch_request_of t d q)) w = (Inl e, w)"
    unfolding source(1) by (simp only: bind_step r(2) e(1))
  then show ?thesis unfolding create_branch_route_def by (rule layered_routes_fail(1)) (fact e(2))
qed

section \<open>Properties\<close>

text \<open>A tenant's database under a UUID.\<close>

definition named_site :: "(keyspace \<times> nat blob ref_s3, nat) site" where
  "named_site = branch_site\<lparr>dbs_tab := [\<lparr>d_id = uuid_a, d_tenant = ''t'', d_name = ''main'', d_path = ''/db'', d_created = DT 2024 1 1 0 0 0 0\<rparr>]\<rparr>"

text \<open>C16: A database of another tenant, given by its id, is refused by the routes that take or put back its
  contents, with a status and with no change to anything: snapshots, both restores, uploads, merging from
  it, and a branch made from a new snapshot of it.\<close>

theorem foreign_databases_refused:
  assumes "bk_authz V = allow_all" "UUID i = Inr d" "\<not> owns t d w"
  shows "refused 400 (snapshot_route V call i t) w \<and>
    refused 400 (restore_route V raw tmp i t snapshot_id) w \<and>
    refused 400 (upload_database_file V E file i t filename text64) w \<and>
    (refused 400 (restore_pitr_route V raw J run fromiso cfg pcall i t target) w \<or>
     refused 404 (restore_pitr_route V raw J run fromiso cfg pcall i t target) w) \<and>
    (refused 500 (merge_branch_route V raw call tmp i into t) w \<or> refused 404 (merge_branch_route V raw call tmp i into t) w) \<and>
    (bb_source q = i \<longrightarrow> bb_from q = Some ''latest'' \<longrightarrow>
      refused 400 (create_branch_route V P fromiso' raw J run bcall q t) w \<or>
      refused 500 (create_branch_route V P fromiso' raw J run bcall q t) w)"
  by (intro conjI impI foreign_snapshot [OF assms] foreign_restore [OF assms] foreign_upload [OF assms] foreign_pitr [OF assms]
      foreign_merge [OF assms] foreign_branch [OF assms])

theorem foreign_databases_refused_witness:
  "refused 400 (snapshot_route branch_backend demo_call uuid_a ''intruder'') named_site"
proof -
  have a: "bk_authz branch_backend = allow_all" by (simp add: branch_backend_def redis_minio_backend_def)
  have b: "\<not> owns ''intruder'' uuid_a named_site" by (simp add: owns_def named_site_def)
  show ?thesis by (rule conjunct1 [OF foreign_databases_refused [OF a UUID_demo(1) b]])
qed

text \<open>C21: A branch can not be made of a database given by its id: the name of the branch would be too long for a
  database, whatever it is to be filled with. When it is made from the current state, the snapshot taken
  for it stays behind.\<close>

theorem branch_of_an_id_never_made:
  assumes "UUID (bb_source q) = Inr d"
  shows "(\<exists>n msg w'. create_branch_route V P fromiso raw J run call q t w = (Inl (Exn (HTTPException n) msg), w')) \<and>
    (\<forall>b r w'. BranchName (bb_branch q) = Inr b \<and> bb_from q = Some ''latest'' \<and>
       create_database_snapshot (wired V) (bc_snapshot call) True t d w = (Inr r, w') \<longrightarrow>
       (\<exists>msg. create_branch_route V P fromiso raw J run call q t w = (Inl (Exn (HTTPException 400) msg), w')))"
proof -
  let ?V = "wired V" and ?P = "get_provisioning_use_case P" and ?D = get_create_branch_uc and ?q = "branch_request_of t d q"
  let ?m = "bind (branch_database (bb_source q) t) (\<lambda>d. create_branch ?V ?P ?D fromiso raw J run call (branch_request_of t d q))"
  have q: "UUID (rq_source_name ?q) = Inr d" "rq_branch ?q = bb_branch q" "rq_from ?q = bb_from q" "rq_tenant ?q = t" "rq_source ?q = d"
    using assms by (simp_all add: branch_request_of_def)
  have "branch_database (bb_source q) t w = (Inr d, w)"
    by (simp add: branch_database_def resolve_uuid assms)
  then have m: "?m w = create_branch ?V ?P ?D fromiso raw J run call ?q w" by (rule bind_step(1))
  obtain e w' where e: "?m w = (Inl e, w')" using create_branch_by_id(1) [OF q(1)] m by metis
  have v: "value_errors 400 (\<lambda>s. s) ?m w = (if is_value_error e then Inl (Exn (HTTPException 400) (str_of e)) else Inl e, w')"
    by (rule status_run(6)) (fact e)
  have "\<exists>n msg w'. create_branch_route V P fromiso raw J run call q t w = (Inl (Exn (HTTPException n) msg), w')"
    unfolding create_branch_route_def
    by (rule http_errors_refuse [where e = "if is_value_error e then Exn (HTTPException 400) (str_of e) else e"]) (simp add: v)
  moreover have "\<exists>msg. create_branch_route V P fromiso raw J run call q t w = (Inl (Exn (HTTPException 400) msg), w')"
    if b: "BranchName (bb_branch q) = Inr b" "bb_from q = Some ''latest''"
      "create_database_snapshot ?V (bc_snapshot call) True t d w = (Inr r, w')" for b r w'
  proof -
    have "branch_base ?V ?D fromiso call ?q w = (Inr (sr_id r, \<lparr>sm_key = sr_key r, sm_checksum = sr_checksum r, sm_size = sr_size r,
        sm_created = IsoAware (sr_created r)\<rparr>, None), w')"
      unfolding branch_base_def base_latest_def q b(2) by (simp only: bind_step b(3) option.case if_True simp_thms ret_def)
    from create_branch_by_id(2) [OF q(1) b(1) [folded q(2)] this]
    have "?m w = (Inl (Exn ProvisioningValidationError ''DatabaseName must be 3-40 chars, lowercase, [a-z0-9_-]''), w')"
      unfolding m .
    then have "value_errors 400 (\<lambda>s. s) ?m w =
        (Inl (Exn (HTTPException 400) ''DatabaseName must be 3-40 chars, lowercase, [a-z0-9_-]''), w')"
      by (simp only: status_run is_value_error_def exn.sel simp_thms if_True)
    then show ?thesis unfolding create_branch_route_def by (intro exI, rule status_run(4))
  qed
  ultimately show ?thesis by blast
qed

lemma named_site_snapshot:
  "is_ok (fst (create_database_snapshot (wired branch_backend) (bc_snapshot branch_demo_call) True ''t'' uuid_a named_site))"
  by code_simp

theorem branch_of_an_id_never_made_witness:
  defines "q \<equiv> \<lparr>bb_source = uuid_a, bb_branch = ''dev'', bb_from = Some ''latest''\<rparr>"
  shows "\<exists>msg r w'. create_branch_route branch_backend branch_provisioner (\<lambda>_. BadIso) (\<lambda>_. 0)
      \<lparr>no_text = Bytes 0, add_line = \<lambda>b _. b, lines_of = \<lambda>_. []\<rparr> (\<lambda>p q. ret [()]) branch_demo_call q ''t'' named_site =
        (Inl (Exn (HTTPException 400) msg), w') \<and>
      create_database_snapshot (wired branch_backend) (bc_snapshot branch_demo_call) True ''t'' uuid_a named_site = (Inr r, w')"
proof -
  have q: "UUID (bb_source q) = Inr uuid_a" "BranchName (bb_branch q) = Inr ''dev''" "bb_from q = Some ''latest''"
    by (simp_all add: q_def branch_demo_names)
  obtain r w' where r: "create_database_snapshot (wired branch_backend) (bc_snapshot branch_demo_call) True ''t'' uuid_a named_site = (Inr r, w')"
    using named_site_snapshot by (metis is_ok_iff prod.collapse)
  from branch_of_an_id_never_made [OF q(1), of branch_backend branch_provisioner "\<lambda>_. BadIso" "\<lambda>_. 0"
      "\<lparr>no_text = Bytes 0, add_line = \<lambda>b _. b, lines_of = \<lambda>_. []\<rparr>" "\<lambda>p q. ret [()]" branch_demo_call "''t''" named_site] q r
  show ?thesis by blast
qed

end
