(* ===== verification/Query_Routes.thy ===== *)
theory Query_Routes
  imports Routing Query_Service Query_Catalog
begin

text \<open>
  The routes about queries (\<open>presentation/api/queries/routes.py\<close>): submitting, the popular and the favourite
  queries of a database, and the status and results of a job, with the checks of their request models
  (\<open>application/dtos/query_execution.py\<close>) and the port of the catalog
  (\<open>domain/shared/ports/query_catalog.py\<close>).
\<close>

section \<open>The catalog's port\<close>

record 'w catalog_port =
  cp_increment :: "uuid \<Rightarrow> uuid \<Rightarrow> string \<Rightarrow> string \<Rightarrow> dt \<Rightarrow> ('w, unit) act"
  cp_most_used :: "uuid \<Rightarrow> uuid \<Rightarrow> nat \<Rightarrow> ('w, usage_row list) act"
  cp_add :: "uuid \<Rightarrow> uuid \<Rightarrow> string \<Rightarrow> string \<Rightarrow> ('w, unit) act"
  cp_remove :: "uuid \<Rightarrow> uuid \<Rightarrow> string \<Rightarrow> ('w, bool) act"
  cp_favorites :: "uuid \<Rightarrow> uuid \<Rightarrow> ('w, favorite_row list) act"

text \<open>The repository of the deployment; \<open>now\<close> is the time of the database's clock.\<close>

definition query_catalog_repository :: "dt \<Rightarrow> catalog catalog_port" where
  "query_catalog_repository now = \<lparr>
     cp_increment = \<lambda>t d q h used_at c. (Inr (), increment_usage t d q h used_at c),
     cp_most_used = \<lambda>t d n c. (Inr (list_most_used t d n c), c),
     cp_add = \<lambda>t d q h. add_favorite now t d q h,
     cp_remove = remove_favorite,
     cp_favorites = \<lambda>t d c. (Inr (list_favorites t d c), c)\<rparr>"

definition catalog_on_snd :: "'v catalog_port \<Rightarrow> ('w \<times> 'v) catalog_port" where
  "catalog_on_snd P = \<lparr>cp_increment = \<lambda>t d q h u. on_snd (cp_increment P t d q h u),
     cp_most_used = \<lambda>t d n. on_snd (cp_most_used P t d n), cp_add = \<lambda>t d q h. on_snd (cp_add P t d q h),
     cp_remove = \<lambda>t d h. on_snd (cp_remove P t d h), cp_favorites = \<lambda>t d. on_snd (cp_favorites P t d)\<rparr>"

section \<open>Requests\<close>

text \<open>What the framework checks before a route runs; a failure is answered with 422.\<close>

definition direct_query_request :: "string \<Rightarrow> nat \<Rightarrow> bool" where
  "direct_query_request query timeout_s \<longleftrightarrow> 1 \<le> length query \<and> py_strip query \<noteq> [] \<and> 1 \<le> timeout_s \<and> timeout_s \<le> 300"

definition default_timeout :: nat where
  "default_timeout = 30"

definition direct_query_hash :: "(string \<Rightarrow> string) \<Rightarrow> string \<Rightarrow> string" where
  "direct_query_hash sha query = take 16 (sha query)"

text \<open>The model of a queued submission refuses some words, unless the query also reads.\<close>

definition dangerous_keywords :: "string list" where
  "dangerous_keywords = [''DROP'', ''DELETE'', ''REMOVE'', ''DETACH'']"

definition safe_contexts :: "string list" where
  "safe_contexts = [''WHERE'', ''MATCH'', ''WITH'', ''RETURN'']"

definition validate_query :: "string \<Rightarrow> string result" where
  "validate_query v = (let q = py_strip v; up = py_upper q in
     if list_ex (\<lambda>k. contains k up) dangerous_keywords \<and> \<not> list_ex (\<lambda>s. contains s up) safe_contexts
     then raise ValueError ''Query contains potentially destructive operation'' else Inr q)"

text \<open>\<open>shown\<close> is \<open>str(parameters)\<close>.\<close>

definition validate_parameters :: "string option \<Rightarrow> string option result" where
  "validate_parameters shown = (case shown of None \<Rightarrow> Inr None
     | Some s \<Rightarrow> if 1000 < length s then raise ValueError ''Parameters too large (max 1000 characters)'' else Inr (Some s))"

definition favorite_request :: "string \<Rightarrow> bool" where
  "favorite_request query \<longleftrightarrow> 1 \<le> length query \<and> length query \<le> 10000"

section \<open>Submitting\<close>

record query_submission =
  qs_query :: string
  qs_parameters :: string
  qs_timeout :: nat

text \<open>The completion is estimated at the submission plus the timeout in seconds.\<close>

record submit_response =
  qr_tx :: uuid
  qr_status :: string
  qr_submitted :: dt
  qr_estimated :: "dt \<times> nat"

definition query_database :: "(uuid \<Rightarrow> string \<Rightarrow> ('w, db_row option) act) \<Rightarrow> string \<Rightarrow> uuid \<Rightarrow> ('w, uuid) act" where
  "query_database find_name i t = resolve_database_id find_name i t"

text \<open>\<open>stamp\<close> and \<open>used_at\<close> are the clock's readings in the repositories.\<close>

definition execute_query_route :: "(uuid \<Rightarrow> string \<Rightarrow> ('w, db_row option) act) \<Rightarrow> 'w queue_port \<Rightarrow> 'w tx_port \<Rightarrow> 'w catalog_port \<Rightarrow>
    (string \<Rightarrow> string) \<Rightarrow> string \<Rightarrow> dt \<Rightarrow> dt \<Rightarrow> uuid \<Rightarrow> string \<Rightarrow> uuid \<Rightarrow> query_submission \<Rightarrow> ('w, submit_response) act" where
  "execute_query_route find_name Q T P sha stamp used_at now tx_id i t rq =
     bind (query_database find_name i t) (\<lambda>d.
     bind (submit_query Q T sha (Some (\<lambda>t d qt qh. cp_increment P t d qt qh used_at)) stamp tx_id
       \<lparr>sr_tenant = t, sr_database = d, sr_query = qs_query rq, sr_parameters = qs_parameters rq,
        sr_timeout = qs_timeout rq, sr_priority = 0\<rparr>) (\<lambda>x.
     ret \<lparr>qr_tx = x, qr_status = ''pending'', qr_submitted = now, qr_estimated = (now, qs_timeout rq)\<rparr>))"

section \<open>Popular and favourite queries\<close>

definition popular_limit :: "int \<Rightarrow> nat" where
  "popular_limit limit = nat (min (max 1 limit) 50)"

definition list_popular_queries :: "(uuid \<Rightarrow> string \<Rightarrow> ('w, db_row option) act) \<Rightarrow> 'w catalog_port \<Rightarrow> string \<Rightarrow> uuid \<Rightarrow> int \<Rightarrow>
    ('w, (string \<times> string \<times> nat \<times> dt) list) act" where
  "list_popular_queries find_name P i t limit =
     bind (query_database find_name i t) (\<lambda>d.
     bind (cp_most_used P t d (popular_limit limit)) (\<lambda>items.
       ret (map (\<lambda>u. (snd (snd (u_key u)), u_text u, u_count u, u_last u)) items)))"

record favorite_item =
  fi_hash :: string
  fi_text :: string
  fi_created :: dt

definition item_of_row :: "favorite_row \<Rightarrow> favorite_item" where
  "item_of_row f = \<lparr>fi_hash = snd (snd (f_key f)), fi_text = f_text f, fi_created = f_created f\<rparr>"

definition list_favorites_route :: "(uuid \<Rightarrow> string \<Rightarrow> ('w, db_row option) act) \<Rightarrow> 'w catalog_port \<Rightarrow> string \<Rightarrow> uuid \<Rightarrow>
    ('w, favorite_item list) act" where
  "list_favorites_route find_name P i t = bind (query_database find_name i t) (\<lambda>d.
     bind (cp_favorites P t d) (\<lambda>items. ret (map item_of_row items)))"

definition query_identity_of :: "(string \<Rightarrow> string) \<Rightarrow> string \<Rightarrow> (string \<times> string) result" where
  "query_identity_of sha query = bind_r (QueryText query) (\<lambda>qt. bind_r (from_query_text sha qt 16) (\<lambda>qh. Inr (qt, qh)))"

definition add_favorite_route :: "(uuid \<Rightarrow> string \<Rightarrow> ('w, db_row option) act) \<Rightarrow> 'w catalog_port \<Rightarrow> (string \<Rightarrow> string) \<Rightarrow> dt \<Rightarrow>
    string \<Rightarrow> uuid \<Rightarrow> string \<Rightarrow> ('w, favorite_item) act" where
  "add_favorite_route find_name P sha now i t query = bind (query_database find_name i t) (\<lambda>d.
     bind (every_error 400 (\<lambda>m. m) (of_result (query_identity_of sha query))) (\<lambda>(qt, qh).
     andthen (every_error 400 (\<lambda>m. m) (cp_add P t d qt qh))
       (ret \<lparr>fi_hash = qh, fi_text = qt, fi_created = now\<rparr>)))"

definition remove_favorite_route :: "(uuid \<Rightarrow> string \<Rightarrow> ('w, db_row option) act) \<Rightarrow> 'w catalog_port \<Rightarrow> string \<Rightarrow> uuid \<Rightarrow> string \<Rightarrow>
    ('w, bool) act" where
  "remove_favorite_route find_name P i t query_hash = bind (query_database find_name i t) (\<lambda>d.
     bind (every_error 400 (\<lambda>m. m) (of_result (QueryHash (py_lower (py_strip query_hash))))) (\<lambda>qh. cp_remove P t d qh))"

section \<open>Jobs\<close>

text \<open>\<open>data["..."]\<close>, and \<open>data.get(...)\<close>; times stay texts, which the framework parses.\<close>

definition entry_of :: "fields \<Rightarrow> string \<Rightarrow> string result" where
  "entry_of f k = (case field f k of None \<Rightarrow> raise KeyError k | Some v \<Rightarrow> Inr v)"

record job_status =
  js_tx :: uuid
  js_database :: uuid
  js_state :: string
  js_query :: string
  js_submitted :: "string option"
  js_started :: "string option"
  js_completed :: "string option"
  js_count :: nat
  js_error :: "string option"

definition or_else :: "string \<Rightarrow> string option \<Rightarrow> string" where
  "or_else x v = (case v of None \<Rightarrow> x | Some s \<Rightarrow> s)"

text \<open>No tenant is asked for.\<close>

definition get_job_status :: "'w tx_port \<Rightarrow> uuid \<Rightarrow> ('w, job_status) act" where
  "get_job_status T tx_id = bind (find_by_id T tx_id) (\<lambda>found. case found of
       None \<Rightarrow> throw (HTTPException 404) ''Transaction not found''
     | Some f \<Rightarrow> if f = [] then throw (HTTPException 404) ''Transaction not found'' else
         bind (of_result (bind_r (entry_of f ''transaction_id'') UUID)) (\<lambda>x.
         bind (of_result (bind_r (entry_of f ''database_id'') UUID)) (\<lambda>d.
         bind (of_result (py_int_text (or_else ''0'' (field f ''result_count'')))) (\<lambda>n.
         ret \<lparr>js_tx = x, js_database = d, js_state = or_else ''unknown'' (field f ''status''),
           js_query = or_else [] (field f ''query''), js_submitted = field f ''created_at'', js_started = field f ''started_at'',
           js_completed = field f ''completed_at'', js_count = n,
           js_error = (case field f ''error_message'' of Some (c # cs) \<Rightarrow> Some (c # cs) | _ \<Rightarrow> None)\<rparr>))))"

text \<open>\<open>no_results\<close> is \<open>{"results": []}\<close>, \<open>truthy\<close> the truth of a cached value.\<close>

definition get_job_results :: "'w authz_port \<Rightarrow> ('w, 'v) cache_port \<Rightarrow> 'w tx_port \<Rightarrow> ('v \<Rightarrow> bool) \<Rightarrow> 'v \<Rightarrow> uuid \<Rightarrow> uuid \<Rightarrow>
    ('w, 'v) act" where
  "get_job_results A C T truthy no_results t tx_id = catch
     (bind (get_query_results A C T t tx_id) (\<lambda>results. ret (case results of
        Some v \<Rightarrow> if truthy v then v else no_results | None \<Rightarrow> no_results)))
     (\<lambda>e. if kind_of e = PermissionError then throw (HTTPException 403) (str_of e)
       else if is_value_error e then throw (HTTPException 400) (str_of e)
       else throw (HTTPException 404) ''Results not found or expired'')"

section \<open>The deployment\<close>

text \<open>The table of databases and the catalog, as the routes find them.\<close>

definition named :: "uuid \<Rightarrow> string \<Rightarrow> (db_row list \<times> 'v, db_row option) act" where
  "named t n = on_fst (metadata_find_by_name t n)"

definition catalog_port_of :: "dt \<Rightarrow> (db_row list \<times> catalog) catalog_port" where
  "catalog_port_of now = catalog_on_snd (query_catalog_repository now)"

lemma catalog_port_simps:
  "cp_most_used (catalog_port_of now) t d n w = (Inr (list_most_used t d n (snd w)), w)"
  "cp_add (catalog_port_of now) t d q h w = (fst (add_favorite now t d q h (snd w)), fst w, snd (add_favorite now t d q h (snd w)))"
  "cp_remove (catalog_port_of now) t d h w = (fst (remove_favorite t d h (snd w)), fst w, snd (remove_favorite t d h (snd w)))"
  "cp_favorites (catalog_port_of now) t d w = (Inr (list_favorites t d (snd w)), w)"
  by (simp_all add: catalog_port_of_def catalog_on_snd_def query_catalog_repository_def on_snd_def case_prod_beta)

lemma query_database_uuid: "UUID i = Inr d \<Longrightarrow> query_database find_name i t w = (Inr d, w)"
  by (simp add: query_database_def resolve_uuid)

lemma add_route_run:
  assumes "UUID i = Inr d" "query_identity_of sha query = Inr (qt, qh)"
    "add_favorite now t d qt qh c = (Inr (), c')"
  shows "add_favorite_route named (catalog_port_of now) sha now' i t query (ds, c) =
    (Inr \<lparr>fi_hash = qh, fi_text = qt, fi_created = now'\<rparr>, (ds, c'))"
proof -
  have "every_error 400 (\<lambda>m. m) (of_result (query_identity_of sha query)) (ds, c) = (Inr (qt, qh), (ds, c))"
    by (rule status_run(1)) (simp add: of_result_def assms(2))
  moreover have "every_error 400 (\<lambda>m. m) (cp_add (catalog_port_of now) t d qt qh) (ds, c) = (Inr (), (ds, c'))"
    by (rule status_run(1)) (simp add: catalog_port_simps assms(3))
  ultimately show ?thesis
    by (simp add: add_favorite_route_def bind_step query_database_uuid [OF assms(1)] ret_def)
qed

section \<open>Properties\<close>

text \<open>C27: The popular queries of a database given by its id are recorded queries of the caller's on it that are
  no favourites, in descending order of use: at least one and at most fifty are asked for whatever the
  limit, and whatever is left out was used no more than everything listed.\<close>

theorem popular_queries_listed:
  fixes t :: uuid and limit :: int and w :: "db_row list \<times> catalog"
  assumes "UUID i = Inr d"
  defines "eligible \<equiv> {u \<in> set (usage_rows (snd w)). in_db t d (u_key u) \<and> \<not> is_favorite (snd w) (u_key u)}"
  shows "\<exists>us. list_popular_queries named (catalog_port_of now) i t limit w =
      (Inr (map (\<lambda>u. (snd (snd (u_key u)), u_text u, u_count u, u_last u)) us), w) \<and>
    set us \<subseteq> eligible \<and> length us \<le> popular_limit limit \<and> 1 \<le> popular_limit limit \<and> popular_limit limit \<le> 50 \<and>
    sorted_wrt (\<lambda>x y. (u_count y, u_last y) \<le> (u_count x, u_last x)) us \<and>
    (\<forall>u \<in> eligible. u \<in> set us \<or>
      length us = popular_limit limit \<and> (\<forall>v \<in> set us. (u_count u, u_last u) \<le> (u_count v, u_last v)))"
proof -
  let ?us = "list_most_used t d (popular_limit limit) (snd w)"
  have "list_popular_queries named (catalog_port_of now) i t limit w =
      (Inr (map (\<lambda>u. (snd (snd (u_key u)), u_text u, u_count u, u_last u)) ?us), w)"
    by (simp add: list_popular_queries_def bind_step query_database_uuid [OF assms(1)] catalog_port_simps ret_def)
  moreover have "1 \<le> popular_limit limit" "popular_limit limit \<le> 50" by (simp_all add: popular_limit_def nat_le_iff)
  ultimately show ?thesis
    using most_used_spec [of t d "popular_limit limit" "snd w"] unfolding eligible_def by blast
qed

definition popular_world :: "db_row list \<times> catalog" where
  "popular_world = ([], \<lparr>usage_rows = [\<lparr>u_key = (''t'', uuid_a, ''a''), u_text = ''A'', u_count = 3, u_last = DT 2025 1 1 0 0 0 0\<rparr>],
     favorite_rows = [\<lparr>f_key = (''t'', uuid_a, ''a''), f_text = ''A'', f_created = DT 2025 1 1 0 0 0 0\<rparr>]\<rparr>)"

theorem popular_queries_listed_witness:
  "list_popular_queries named (catalog_port_of (DT 2025 1 2 0 0 0 0)) uuid_a ''t'' 1000 popular_world = (Inr [], popular_world)"
proof -
  have e: "{u \<in> set (usage_rows (snd popular_world)). in_db ''t'' uuid_a (u_key u) \<and> \<not> is_favorite (snd popular_world) (u_key u)} = {}"
    by (auto simp: popular_world_def is_favorite_def)
  obtain us :: "usage_row list" where us: "list_popular_queries named (catalog_port_of (DT 2025 1 2 0 0 0 0)) uuid_a ''t'' 1000 popular_world =
      (Inr (map (\<lambda>u. (snd (snd (u_key u)), u_text u, u_count u, u_last u)) us), popular_world)" "set us \<subseteq> {}"
    using popular_queries_listed [OF UUID_demo(1), where w = popular_world and t = "''t''" and limit = 1000 and
        now = "DT 2025 1 2 0 0 0 0", unfolded e] by blast
  then show ?thesis by simp
qed

text \<open>C24: A query made a favourite is listed under its normalised text and hash while there were fewer than ten;
  making it one again, in any spelling, changes nothing; and removing the hash, in any case and with blanks
  around it, restores what was there.\<close>

theorem favorite_route_roundtrip:
  assumes "hex_digest sha" "UUID i = Inr d" "QueryText query = Inr qt" "QueryText again = Inr qt"
    and "py_lower (py_strip given) = take 16 (sha qt)"
    and "\<not> is_favorite c (t, d, take 16 (sha qt))" "count_favorites t d c < 10"
  shows "\<exists>c'. add_favorite_route named (catalog_port_of now) sha now i t query (ds, c) =
        (Inr \<lparr>fi_hash = take 16 (sha qt), fi_text = qt, fi_created = now\<rparr>, (ds, c')) \<and>
      (\<exists>items items'. list_favorites_route named (catalog_port_of now) i t (ds, c) = (Inr items, (ds, c)) \<and>
        list_favorites_route named (catalog_port_of now) i t (ds, c') = (Inr items', (ds, c')) \<and>
        set items' = insert \<lparr>fi_hash = take 16 (sha qt), fi_text = qt, fi_created = now\<rparr> (set items)) \<and>
      add_favorite_route named (catalog_port_of now') sha now' i t again (ds, c') =
        (Inr \<lparr>fi_hash = take 16 (sha qt), fi_text = qt, fi_created = now'\<rparr>, (ds, c')) \<and>
      remove_favorite_route named (catalog_port_of now) i t given (ds, c') = (Inr True, (ds, c))"
proof -
  let ?h = "take 16 (sha qt)"
  let ?row = "\<lparr>f_key = (t, d, ?h), f_text = qt, f_created = now\<rparr>"
  let ?c = "c\<lparr>favorite_rows := favorite_rows c @ [?row]\<rparr>"
  have q: "query_identity_of sha query = Inr (qt, ?h)" "query_identity_of sha again = Inr (qt, ?h)"
    using assms(3,4) by (simp_all add: query_identity_of_def from_query_text_total [OF assms(1)])
  have add: "add_favorite now t d qt ?h c = (Inr (), ?c)" using assms(6,7) by (simp add: add_favorite_def)
  have twice: "add_favorite now' t d qt ?h ?c = (Inr (), ?c)" by (simp add: add_favorite_def is_favorite_def)
  have lists: "list_favorites_route named (catalog_port_of now) i t (ds, x) = (Inr (map item_of_row (list_favorites t d x)), (ds, x))" for x
    by (simp add: list_favorites_route_def bind_step query_database_uuid [OF assms(2)] catalog_port_simps ret_def)
  have "set (map item_of_row (list_favorites t d ?c)) =
      insert \<lparr>fi_hash = ?h, fi_text = qt, fi_created = now\<rparr> (set (map item_of_row (list_favorites t d c)))"
    by (auto simp: list_favorites_def in_db_def item_of_row_def)
  moreover have "remove_favorite_route named (catalog_port_of now) i t given (ds, ?c) = (Inr True, (ds, c))"
  proof -
    have "list_all hex_char ?h" "length ?h = 16"
      using assms(1) by (auto simp: hex_digest_def list.pred_set dest: in_set_takeD)
    then have "QueryHash (py_lower (py_strip given)) = Inr ?h" unfolding assms(5) by (simp add: QueryHash_hex)
    then have "every_error 400 (\<lambda>m. m) (of_result (QueryHash (py_lower (py_strip given)))) (ds, ?c) = (Inr ?h, (ds, ?c))"
      by (intro status_run(1)) (simp add: of_result_def)
    moreover have "filter (\<lambda>f. f_key f \<noteq> (t, d, ?h)) (favorite_rows c) = favorite_rows c"
      using assms(6) by (auto simp: is_favorite_def list_ex_iff filter_id_conv)
    then have "remove_favorite t d ?h ?c = (Inr True, c)" by (simp add: remove_favorite_def)
    ultimately show ?thesis
      by (simp add: remove_favorite_route_def bind_step query_database_uuid [OF assms(2)] catalog_port_simps)
  qed
  ultimately show ?thesis using add_route_run [OF assms(2) q(1) add] add_route_run [OF assms(2) q(2) twice] lists by blast
qed

theorem favorite_route_roundtrip_witness:
  defines "sha \<equiv> (\<lambda>_ :: string. replicate 64 CHR ''a'')" and "P \<equiv> catalog_port_of (DT 2025 1 1 0 0 0 0)"
    and "c \<equiv> \<lparr>usage_rows = [], favorite_rows = []\<rparr>"
  shows "\<exists>c'. add_favorite_route named P sha (DT 2025 1 1 0 0 0 0) uuid_a ''t'' ''RETURN  1 '' ([], c) =
      (Inr \<lparr>fi_hash = take 16 (sha ''RETURN 1''), fi_text = ''RETURN 1'', fi_created = DT 2025 1 1 0 0 0 0\<rparr>, ([], c')) \<and>
    remove_favorite_route named P uuid_a ''t'' ('' '' @ replicate 16 CHR ''A'') ([], c') = (Inr True, ([], c))"
proof -
  have "hex_digest sha" by (simp add: sha_def hex_digest_def hex_char_def list_all_iff)
  moreover have "QueryText ''RETURN  1 '' = Inr ''RETURN 1''" "QueryText ''RETURN 1'' = Inr ''RETURN 1''" by code_simp+
  moreover have "py_lower (py_strip ('' '' @ replicate 16 CHR ''A'')) = take 16 (sha ''RETURN 1'')"
    unfolding sha_def by code_simp
  moreover have "\<not> is_favorite c (''t'', uuid_a, take 16 (sha ''RETURN 1''))" "count_favorites ''t'' uuid_a c < 10"
    by (simp_all add: c_def is_favorite_def count_favorites_def)
  ultimately show ?thesis
    using favorite_route_roundtrip [OF _ UUID_demo(1), of sha "''RETURN  1 ''" "''RETURN 1''" "''RETURN 1''"] unfolding P_def by blast
qed

end
