(* ===== verification/Event_Feed.thy ===== *)
theory Event_Feed
  imports Message_Queue
begin

text \<open>
  The feed of a tenant's events (\<open>presentation/api/events/routes.py\<close>): the generator behind the response,
  which reads the tenant's stream from a position on and writes each entry as a server-sent event. Blocking
  \<open>XREAD\<close> is a parameter: while it waits other clients may append. JSON encoding is a parameter.
\<close>

section \<open>The generator\<close>

type_synonym entry = "string \<times> fields"

text \<open>\<open>xread stream position count\<close>; the generator always waits five seconds.\<close>

type_synonym 'r xread = "string \<Rightarrow> string \<Rightarrow> nat \<Rightarrow> ('r, entry list) act"

definition newline :: string where
  "newline = [CHR 0x0A]"

definition keep_alive :: string where
  "keep_alive = '':'' @ newline @ newline"

text \<open>The three chunks of an event.\<close>

definition sse_chunks :: "(fields \<Rightarrow> string) \<Rightarrow> entry \<Rightarrow> string list" where
  "sse_chunks dumps e = (let event = (case map_of (snd e) ''event_type'' of None \<Rightarrow> ''notification'' | Some x \<Rightarrow> x)
     in [''id: '' @ fst e @ newline, ''event: '' @ event @ newline, ''data: '' @ dumps (snd e) @ newline @ newline])"

definition sse_start :: "string \<Rightarrow> string" where
  "sse_start start_id = (if start_id = [] then ''$'' else start_id)"

text \<open>One turn of the loop: what it yields, and the position afterwards. A failed read is tried again.\<close>

definition sse_turn :: "'r xread \<Rightarrow> (fields \<Rightarrow> string) \<Rightarrow> string \<Rightarrow> string \<Rightarrow> ('r, string list \<times> string) act" where
  "sse_turn xread dumps k last_id = catch
     (bind (xread k last_id 10) (\<lambda>entries.
        if entries = [] then ret ([keep_alive], last_id)
        else ret (concat (map (sse_chunks dumps) entries), fst (List.last entries))))
     (\<lambda>_. ret ([], last_id))"

text \<open>The position a client asks for: the header of a reconnection, else the query parameter.\<close>

definition feed_position :: "string option \<Rightarrow> string option \<Rightarrow> string" where
  "feed_position header query = (case header of Some h \<Rightarrow> h | None \<Rightarrow> (case query of Some q \<Rightarrow> q | None \<Rightarrow> []))"

text \<open>What has been yielded and where the generator stands, after any number of turns, between which
  others act on the store.\<close>

inductive feed :: "'r xread \<Rightarrow> (fields \<Rightarrow> string) \<Rightarrow> ('r \<Rightarrow> 'r \<Rightarrow> bool) \<Rightarrow> string \<Rightarrow> string \<Rightarrow> 'r \<Rightarrow> string list \<Rightarrow> string \<Rightarrow> 'r \<Rightarrow> bool"
  for xread dumps others k start r0 where
  opens: "feed xread dumps others k start r0 [] (sse_start start) r0"
| waits: "feed xread dumps others k start r0 out p r \<Longrightarrow> others r r' \<Longrightarrow> feed xread dumps others k start r0 out p r'"
| turns: "feed xread dumps others k start r0 out p r \<Longrightarrow> sse_turn xread dumps k p r = (Inr (ys, p'), r') \<Longrightarrow>
    feed xread dumps others k start r0 (out @ ys) p' r'"

section \<open>What Redis documents\<close>

text \<open>Others only append to the stream, entries with greater ids.\<close>

definition appends :: "('r \<Rightarrow> keyspace) \<Rightarrow> string \<Rightarrow> 'r \<Rightarrow> 'r \<Rightarrow> bool" where
  "appends view k r r' \<longleftrightarrow> stream_ok (view r' k) \<and> (\<exists>new. entries_of (view r' k) = entries_of (view r k) @ new) \<and>
     sorted_wrt (<) (map fst (entries_of (view r' k)))"

definition after :: "nat \<Rightarrow> (nat \<times> fields) list \<Rightarrow> (nat \<times> fields) list" where
  "after i es = filter (\<lambda>e. i < fst e) es"

definition newest :: "(nat \<times> fields) list \<Rightarrow> nat" where
  "newest es = (if es = [] then 0 else fst (List.last es))"

definition written :: "(nat \<Rightarrow> string) \<Rightarrow> nat \<times> fields \<Rightarrow> entry" where
  "written id_text e = (id_text (fst e), snd e)"

section \<open>Entries after a position\<close>

definition frames :: "(fields \<Rightarrow> string) \<Rightarrow> (nat \<Rightarrow> string) \<Rightarrow> (nat \<times> fields) list \<Rightarrow> string list" where
  "frames dumps id_text es = concat (map (sse_chunks dumps \<circ> written id_text) es)"

lemma frames_Nil [simp]: "frames dumps id_text [] = []"
  by (simp add: frames_def)

text \<open>The output without the comments that keep the connection alive.\<close>

definition events_of :: "string list \<Rightarrow> string list" where
  "events_of out = filter (\<lambda>c. c \<noteq> keep_alive) out"

definition position :: "nat \<Rightarrow> nat \<Rightarrow> (nat \<times> fields) list \<Rightarrow> nat" where
  "position i n es = (if n = 0 then i else fst (es ! (n - 1)))"

lemma events_of_frames: "events_of [keep_alive] = []" "events_of (frames dumps id_text es) = frames dumps id_text es"
proof -
  have "events_of (sse_chunks dumps e) = sse_chunks dumps e" for e
    by (simp add: events_of_def sse_chunks_def keep_alive_def Let_def)
  then show "events_of (frames dumps id_text es) = frames dumps id_text es"
    by (induction es) (simp_all add: frames_def events_of_def)
qed (simp add: events_of_def)

lemma appends_more:
  assumes "appends view k r r'" "n \<le> length (after i (entries_of (view r k)))"
  shows "appends view k r' r'" "n \<le> length (after i (entries_of (view r' k)))"
    "take n (after i (entries_of (view r' k))) = take n (after i (entries_of (view r k)))"
    "position i n (after i (entries_of (view r' k))) = position i n (after i (entries_of (view r k)))"
  using assms by (auto simp: appends_def after_def position_def nth_append)

lemma filter_after_nth:
  "sorted_wrt (<) (map fst es) \<Longrightarrow> m < length es \<Longrightarrow> filter (\<lambda>e. fst (es ! m) < (fst e :: nat)) es = drop (Suc m) es"
proof (induction es arbitrary: m)
  case (Cons e es)
  show ?case
  proof (cases m)
    case 0
    with Cons.prems(1) show ?thesis by (simp add: filter_id_conv)
  next
    case (Suc j)
    with Cons.prems have j: "j < length es" "fst e < fst (es ! j)" "sorted_wrt (<) (map fst es)" by auto
    then show ?thesis using Cons.IH [OF j(3,1)] Suc by simp
  qed
qed simp

lemma after_position:
  assumes "sorted_wrt (<) (map fst es)" "n \<le> length (after i es)"
  shows "after (position i n (after i es)) es = drop n (after i es)"
proof (cases n)
  case (Suc m)
  let ?F = "after i es"
  have "m < length ?F" using Suc assms(2) by simp
  then have "i < fst (?F ! m)" using nth_mem [of m ?F] by (auto simp: after_def)
  then have "after (fst (?F ! m)) es = filter (\<lambda>e. fst (?F ! m) < fst e) ?F"
    unfolding after_def filter_filter by (intro filter_cong) auto
  moreover have "sorted_wrt (<) (map fst ?F)"
    using assms(1) unfolding after_def sorted_wrt_map by (rule sorted_wrt_filter)
  ultimately show ?thesis
    using filter_after_nth [of ?F m] \<open>m < length ?F\<close> Suc by (simp add: position_def)
qed (simp add: position_def)

lemma position_more:
  assumes "0 < l" "n + l \<le> length es"
  shows "position i (n + l) es = fst (List.last (take l (drop n es)))"
  using assms by (simp add: position_def last_conv_nth)

text \<open>\<open>XREAD\<close> gives the first \<open>n\<close> entries after the position once there are any, and \<open>$\<close> stands for the
  newest entry at the time of the call. A read may fail.\<close>

locale stream_reader =
  fixes xread :: "'r xread" and view :: "'r \<Rightarrow> keyspace" and id_text :: "nat \<Rightarrow> string"
  assumes id_texts: "id_text i = id_text j \<Longrightarrow> i = j" "id_text i \<noteq> ''$''" "id_text i \<noteq> []"
    and waiting: "appends view k r r \<Longrightarrow> appends view k r (snd (xread k p n r))"
    and reading: "appends view k r r \<Longrightarrow> xread k (id_text i) n r = (Inr es, r') \<Longrightarrow>
      es = map (written id_text) (take n (after i (entries_of (view r' k))))"
    and reading_live: "appends view k r r \<Longrightarrow> xread k ''$'' n r = (Inr es, r') \<Longrightarrow>
      es = map (written id_text) (take n (after (newest (entries_of (view r k))) (entries_of (view r' k))))"
begin

text \<open>What is left of the output without the comments that keep the connection alive.\<close>

lemma turn_run:
  assumes "appends view k r r" "sse_turn xread dumps k (id_text i) r = (Inr (ys, p), r')"
  shows "appends view k r r'"
    and "\<exists>new. events_of ys = frames dumps id_text new \<and> (ys = [] \<and> new = [] \<or> new = take 10 (after i (entries_of (view r' k)))) \<and>
      p = id_text (if new = [] then i else fst (List.last new))"
proof -
  obtain q s where x: "xread k (id_text i) 10 r = (q, s)" by (metis surj_pair)
  have r': "s = r'" using assms(2) x by (cases q) (auto simp: sse_turn_def catch_def bind_def ret_def split: if_splits)
  with waiting [OF assms(1), of "id_text i" 10] x show "appends view k r r'" by simp
  show "\<exists>new. events_of ys = frames dumps id_text new \<and> (ys = [] \<and> new = [] \<or> new = take 10 (after i (entries_of (view r' k)))) \<and>
      p = id_text (if new = [] then i else fst (List.last new))"
  proof (cases q)
    case (Inl e)
    with assms(2) x show ?thesis
      by (intro exI [of _ "[]"]) (simp add: sse_turn_def catch_def bind_def ret_def frames_def events_of_def)
  next
    case (Inr es)
    let ?new = "take 10 (after i (entries_of (view r' k)))"
    from Inr x r' have es: "es = map (written id_text) ?new" using reading [OF assms(1)] by auto
    with assms(2) x Inr have "ys = (if ?new = [] then [keep_alive] else frames dumps id_text ?new) \<and>
        p = id_text (if ?new = [] then i else fst (List.last ?new))"
      by (auto simp: sse_turn_def catch_def bind_def ret_def last_map written_def frames_def split: if_splits)
    then show ?thesis by (intro exI [of _ ?new]) (auto simp: events_of_frames split: if_splits)
  qed
qed

text \<open>From a position on, the first \<open>n\<close> entries after it have been sent.\<close>

lemma feed_sent:
  assumes "feed xread dumps (appends view k) k (id_text i) r0 out p r" "appends view k r0 r0"
  shows "appends view k r r \<and> (\<exists>n \<le> length (after i (entries_of (view r k))).
    events_of out = frames dumps id_text (take n (after i (entries_of (view r k)))) \<and>
    p = id_text (position i n (after i (entries_of (view r k)))))"
  using assms(1)
proof (induction rule: feed.induct)
  case opens
  then show ?case
    using assms(2) id_texts(3) by (intro conjI exI [of _ 0]) (simp_all add: sse_start_def events_of_def frames_def position_def)
next
  case (waits out p r r')
  then show ?case by (metis appends_more)
next
  case (turns out p r ys p' r')
  let ?es = "\<lambda>s. after i (entries_of (view s k))"
  from turns(3) obtain n where n: "n \<le> length (?es r)" "events_of out = frames dumps id_text (take n (?es r))"
    "p = id_text (position i n (?es r))" and ok: "appends view k r r" by blast
  note t = turn_run [OF ok turns(2) [unfolded n(3)]]
  from appends_more [OF t(1) n(1)] have m: "appends view k r' r'" "n \<le> length (?es r')" "take n (?es r') = take n (?es r)"
    "position i n (?es r') = position i n (?es r)" by auto
  have rest: "after (position i n (?es r)) (entries_of (view r' k)) = drop n (?es r')"
    using after_position [of "entries_of (view r' k)" n i] m by (simp add: appends_def)
  from t(2) obtain new where new: "events_of ys = frames dumps id_text new" "new = [] \<or> new = take 10 (drop n (?es r'))"
    "p' = id_text (if new = [] then position i n (?es r) else fst (List.last new))" unfolding rest by blast
  define l where "l = length new"
  with new(2) m(2) have l: "new = take l (drop n (?es r'))" "n + l \<le> length (?es r')" "l = length new"
    by (auto simp: min_def)
  have "events_of (out @ ys) = frames dumps id_text (take (n + l) (?es r'))"
    using n(2) new(1) m(3) l(1) by (simp add: events_of_def frames_def take_add)
  moreover have "p' = id_text (position i (n + l) (?es r'))"
  proof (cases "l = 0")
    case False
    with new(3) l(3) have "p' = id_text (fst (List.last new))" by auto
    with position_more [of l n "?es r'" i] False l(1,2) show ?thesis by simp
  qed (use new(3) l(3) m(4) in simp)
  ultimately show ?case using m(1) l(2) by blast
qed

lemma feed_next:
  assumes "feed xread dumps (appends view k) k (id_text i) r0 out p r" "appends view k r0 r0"
  shows "\<exists>n \<le> length (after i (entries_of (view r k))).
    events_of out = frames dumps id_text (take n (after i (entries_of (view r k)))) \<and>
    (\<forall>ys p' r'. sse_turn xread dumps k p r = (Inr (ys, p'), r') \<longrightarrow> ys \<noteq> [] \<longrightarrow>
      events_of ys = frames dumps id_text (take 10 (drop n (after i (entries_of (view r' k))))))"
proof -
  obtain n where n: "n \<le> length (after i (entries_of (view r k)))"
    "events_of out = frames dumps id_text (take n (after i (entries_of (view r k))))"
    "p = id_text (position i n (after i (entries_of (view r k))))" and ok: "appends view k r r"
    using feed_sent [OF assms] by blast
  have "events_of ys = frames dumps id_text (take 10 (drop n (after i (entries_of (view r' k)))))"
    if t: "sse_turn xread dumps k p r = (Inr (ys, p'), r')" "ys \<noteq> []" for ys p' r'
  proof -
    note t' = turn_run [OF ok t(1) [unfolded n(3)]]
    from appends_more [OF t'(1) n(1)]
    have "after (position i n (after i (entries_of (view r k)))) (entries_of (view r' k)) = drop n (after i (entries_of (view r' k)))"
      using after_position [of "entries_of (view r' k)" n i] by (simp add: appends_def)
    with t'(2) t(2) show ?thesis by auto
  qed
  with n show ?thesis by blast
qed

end

section \<open>A reference reader\<close>

definition ref_xread :: "keyspace xread" where
  "ref_xread k p n r = (case py_int_text p of
       Inr i \<Rightarrow> Inr (map (written py_str_nat) (take n (after i (entries_of (r k)))))
     | Inl e \<Rightarrow> if p = ''$'' then Inr [] else Inl e, r)"

lemma after_newest: "sorted_wrt (<) (map fst es) \<Longrightarrow> after (newest es) es = []"
  by (cases es rule: rev_cases) (auto simp: after_def newest_def sorted_wrt_append filter_empty_conv dest: less_asym)

lemma int_of_dollar [simp]: "\<not> is_ok (py_int_text ''$'')"
  by code_simp

interpretation ref_feed: stream_reader ref_xread "\<lambda>r. r" py_str_nat
proof
  have v: "py_int_text (py_str_nat n) = Inr n" for n by simp
  show "py_str_nat i = py_str_nat j \<Longrightarrow> i = j" for i j by (metis v sum.inject(2))
  show "py_str_nat i \<noteq> ''$''" for i by (metis v int_of_dollar is_ok_simps(1))
  show "py_str_nat i \<noteq> []" for i using v [of i] by (auto simp: py_int_text_def)
  show "appends (\<lambda>r. r) k r (snd (ref_xread k p n r))" if "appends (\<lambda>r. r) k r r" for k p n r
    using that by (simp add: ref_xread_def)
  show "es = map (written py_str_nat) (take n (after i (entries_of (r' k))))"
    if "ref_xread k (py_str_nat i) n r = (Inr es, r')" for k i n r es r'
    using that by (auto simp: ref_xread_def)
  show "es = map (written py_str_nat) (take n (after (newest (entries_of (r k))) (entries_of (r' k))))"
    if "appends (\<lambda>r. r) k r r" "ref_xread k ''$'' n r = (Inr es, r')" for k n r es r'
    using that int_of_dollar by (cases "py_int_text ''$''") (auto simp: ref_xread_def appends_def after_newest)
qed

definition demo_stream :: "(nat \<times> fields) list \<Rightarrow> keyspace" where
  "demo_stream es = [event_stream ''t'' \<mapsto> RStream es []]"

definition demo_event :: "nat \<Rightarrow> nat \<times> fields" where
  "demo_event i = (i, event_fields ''now'' ''query_completed'' ''T'' ''M'' [])"

lemma demo_stream_appends [simp]:
  "appends (\<lambda>r. r) (event_stream ''t'') (demo_stream es) (demo_stream (es @ new)) \<longleftrightarrow> sorted_wrt (<) (map fst (es @ new))"
  by (simp add: appends_def demo_stream_def)

section \<open>Properties\<close>



text \<open>A client without a position is served from \<open>$\<close>, which is asked for anew in every turn: an event that
  comes between two reads is never sent.\<close>

lemma live_feed_loses_event:
  defines "k \<equiv> event_stream ''t''" and "d \<equiv> (\<lambda>_. ''{}'')"
  shows "feed ref_xread d (appends (\<lambda>r. r) k) k [] (demo_stream []) [keep_alive] ''$'' (demo_stream [demo_event 1])"
    and "sse_turn ref_xread d k ''$'' (demo_stream [demo_event 1]) = (Inr ([keep_alive], ''$''), demo_stream [demo_event 1])"
proof -
  have x: "ref_xread k ''$'' 10 r = (Inr [], r)" for r
    using int_of_dollar by (cases "py_int_text ''$''") (simp_all add: ref_xread_def)
  then have t: "sse_turn ref_xread d k ''$'' r = (Inr ([keep_alive], ''$''), r)" for r
    by (simp add: sse_turn_def catch_def bind_def ret_def)
  then show "sse_turn ref_xread d k ''$'' (demo_stream [demo_event 1]) = (Inr ([keep_alive], ''$''), demo_stream [demo_event 1])" .
  have o: "feed ref_xread d (appends (\<lambda>r. r) k) k [] (demo_stream []) [] ''$'' (demo_stream [])"
    using feed.opens [of ref_xread d "appends (\<lambda>r. r) k" k "[]" "demo_stream []"] by (simp add: sse_start_def)
  have w: "appends (\<lambda>r. r) k (demo_stream []) (demo_stream [demo_event 1])"
    by (simp add: appends_def demo_stream_def k_def)
  from feed.waits [where others = "appends (\<lambda>r. r) k", OF feed.turns [OF o t] w]
  show "feed ref_xread d (appends (\<lambda>r. r) k) k [] (demo_stream []) [keep_alive] ''$'' (demo_stream [demo_event 1])" by simp
qed

end
