(* ===== verification/Worker_Process.thy ===== *)
theory Worker_Process
  imports Query_Worker
begin

text \<open>
  The process that runs queries: the loop of the worker (\<open>infrastructure/workers/query_worker.py\<close>) and the
  adapter's connections to the databases (\<open>infrastructure/kuzu/kuzu_query_execution_adapter.py\<close>), which it
  opens when a database is first asked for and keeps. The engine's objects are of types \<open>'d\<close> (a database)
  and \<open>'c\<close> (a connection).
\<close>

section \<open>The loop\<close>

text \<open>\<open>run_forever\<close>, given the rounds that start before \<open>stop\<close> is called, each with the texts of its times.
  The pauses between them change nothing.\<close>

definition run_forever :: "('w, 'b) worker \<Rightarrow> ((tx_status \<Rightarrow> string) \<times> dt) list \<Rightarrow> ('w, unit) act" where
  "run_forever W rounds = for_each (\<lambda>(clk, now). run_once W clk now) rounds"

lemma for_each_append: "for_each f (xs @ ys) w = (case for_each f xs w of
    (Inl e, w') \<Rightarrow> (Inl e, w') | (Inr u, w') \<Rightarrow> for_each f ys w')"
  by (induction xs arbitrary: w) (auto split: prod.splits sum.splits)

text \<open>A round in which the queue can not be read is the last one: nothing after it is done.\<close>

lemma unreadable_queue_ends_loop:
  assumes "run_forever W rounds w = (Inr (), w1)"
    and "dequeue_transaction (wk_queue W) (wk_group W) (wk_name W) w1 = (Inl e, w2)"
  shows "run_forever W (rounds @ r # rest) w =
    (raise UnboundLocalError ''local variable 'tx_id' referenced before assignment'', w2)"
  using assms by (simp add: run_forever_def for_each_append run_once_def split: prod.split)

text \<open>Rounds that find no message leave only what the queue leaves.\<close>

lemma idle_round: "dequeue_transaction (wk_queue W) (wk_group W) (wk_name W) w = (Inr None, w1) \<Longrightarrow>
    run_forever W (r # rest) w = run_forever W rest w1"
  by (cases r) (simp add: run_forever_def run_once_def)

section \<open>The adapter\<close>

record ('w, 'd, 'c) kuzu_lib =
  kz_mkdir :: "string \<Rightarrow> ('w, unit) act"
  kz_database :: "string \<Rightarrow> ('w, 'd) act"
  kz_connection :: "'d \<Rightarrow> ('w, 'c) act"
  kz_execute :: "'c \<Rightarrow> string \<Rightarrow> ('w, string list) act"

record ('d, 'c) kuzu_adapter =
  ka_base_dir :: string
  ka_databases :: "string \<Rightarrow> 'd option"
  ka_connections :: "string \<Rightarrow> 'c option"

text \<open>\<open>__init__\<close>, where \<open>resolve\<close> is \<open>Path(...).resolve()\<close>: an empty directory counts as none.\<close>

definition nonempty_text :: "string option \<Rightarrow> string option" where
  "nonempty_text s = (if s = Some [] then None else s)"

definition kuzu_adapter_init :: "('w, 'd, 'c) kuzu_lib \<Rightarrow> (string \<Rightarrow> string) \<Rightarrow> string option \<Rightarrow> string option \<Rightarrow>
    ('w, ('d, 'c) kuzu_adapter) act" where
  "kuzu_adapter_init K resolve base_dir env_dir = (
     case (case nonempty_text base_dir of Some b \<Rightarrow> Some b | None \<Rightarrow> nonempty_text env_dir) of
       None \<Rightarrow> throw RuntimeError ''KUZU_DATA_DIR environment variable must be set (no fallback).''
     | Some b \<Rightarrow> andthen (kz_mkdir K (resolve b))
         (ret \<lparr>ka_base_dir = resolve b, ka_databases = (\<lambda>k. None), ka_connections = (\<lambda>k. None)\<rparr>))"

definition connection_key :: "uuid \<Rightarrow> uuid \<Rightarrow> string" where
  "connection_key t d = t @ ''_'' @ d"

definition database_dir :: "string \<Rightarrow> uuid \<Rightarrow> uuid \<Rightarrow> string" where
  "database_dir base t d = base @ ''/'' @ t @ ''/'' @ d"

definition db_file_path :: "('w, 'd, 'c) kuzu_lib \<Rightarrow> uuid \<Rightarrow> uuid \<Rightarrow> (('d, 'c) kuzu_adapter \<times> 'w, string) act" where
  "db_file_path K t d aw = (let dir = database_dir (ka_base_dir (fst aw)) t d in
     andthen (on_snd (kz_mkdir K dir)) (ret (dir @ ''/data.kuzu'')) aw)"

definition ensure_initialized :: "('w, 'd, 'c) kuzu_lib \<Rightarrow> uuid \<Rightarrow> uuid \<Rightarrow> (('d, 'c) kuzu_adapter \<times> 'w, unit) act" where
  "ensure_initialized K t d aw = (
     if ka_connections (fst aw) (connection_key t d) \<noteq> None then ret () aw
     else bind (db_file_path K t d) (\<lambda>p.
       bind (on_snd (kz_database K p)) (\<lambda>db.
       bind (on_snd (kz_connection K db)) (\<lambda>c. \<lambda>(a, w).
         (Inr (), (a\<lparr>ka_databases := (ka_databases a)(connection_key t d := Some db),
                     ka_connections := (ka_connections a)(connection_key t d := Some c)\<rparr>, w))))) aw)"

definition get_connection :: "('w, 'd, 'c) kuzu_lib \<Rightarrow> uuid \<Rightarrow> uuid \<Rightarrow> (('d, 'c) kuzu_adapter \<times> 'w, 'c) act" where
  "get_connection K t d = andthen
     (\<lambda>aw. if ka_connections (fst aw) (connection_key t d) = None then ensure_initialized K t d aw else ret () aw)
     (\<lambda>aw. case ka_connections (fst aw) (connection_key t d) of
         Some c \<Rightarrow> (Inr c, aw) | None \<Rightarrow> (raise KeyError (connection_key t d), aw))"

definition adapter_run :: "('w, 'd, 'c) kuzu_lib \<Rightarrow> uuid \<Rightarrow> uuid \<Rightarrow> string \<Rightarrow>
    (('d, 'c) kuzu_adapter \<times> 'w, string list) act" where
  "adapter_run K t d cypher = andthen (ensure_initialized K t d)
     (bind (get_connection K t d) (\<lambda>c. on_snd (kz_execute K c cypher)))"

text \<open>The two operations of the port; the plan is a fixed text.\<close>

definition adapter_execute_query :: "('w, 'd, 'c) kuzu_lib \<Rightarrow> string \<Rightarrow> uuid \<Rightarrow> uuid \<Rightarrow> string \<Rightarrow> string option \<Rightarrow> nat \<Rightarrow>
    (('d, 'c) kuzu_adapter \<times> 'w, exec_result) act" where
  "adapter_execute_query K ms = kuzu_execute_query ms (adapter_run K)"

definition explain_query :: "uuid \<Rightarrow> uuid \<Rightarrow> string \<Rightarrow> string \<times> rat \<times> uuid \<times> uuid" where
  "explain_query t d cypher = (''EXPLAIN (mock) '' @ take 60 cypher @ ''...'', 1, t, d)"

section \<open>Whose data a query sees\<close>

text \<open>A connection made for the file \<open>p\<close>.\<close>

definition opened_on :: "('w, 'd, 'c) kuzu_lib \<Rightarrow> 'c \<Rightarrow> string \<Rightarrow> bool" where
  "opened_on K c p \<longleftrightarrow> (\<exists>db w w' v v'. kz_database K p w = (Inr db, w') \<and> kz_connection K db v = (Inr c, v'))"

definition connections_match :: "('w, 'd, 'c) kuzu_lib \<Rightarrow> ('d, 'c) kuzu_adapter \<Rightarrow> bool" where
  "connections_match K a \<longleftrightarrow> (\<forall>t d c. is_uuid t \<longrightarrow> is_uuid d \<longrightarrow>
     ka_connections a (connection_key t d) = Some c \<longrightarrow>
     opened_on K c (database_dir (ka_base_dir a) t d @ ''/data.kuzu''))"

lemma connection_key_inj:
  assumes "is_uuid t" "is_uuid t'" "connection_key t d = connection_key t' d'"
  shows "t = t' \<and> d = d'"
  using assms uuid_length [of t] uuid_length [of t'] by (simp add: connection_key_def)

lemma init_matches:
  "kuzu_adapter_init K resolve b e w = (Inr a, w') \<Longrightarrow> connections_match K a"
  unfolding kuzu_adapter_init_def connections_match_def
  by (auto split: option.splits elim!: andthen_okE simp: act_simps)

lemma ensure_initialized_match:
  assumes m: "connections_match K (fst aw)" and u: "is_uuid t" "is_uuid d"
    and run: "ensure_initialized K t d aw = (r, aw')"
  shows "connections_match K (fst aw') \<and> ka_base_dir (fst aw') = ka_base_dir (fst aw)"
proof (cases "ka_connections (fst aw) (connection_key t d) \<noteq> None")
  case True
  then show ?thesis using m run by (simp add: ensure_initialized_def ret_def)
next
  case False
  let ?p = "database_dir (ka_base_dir (fst aw)) t d @ ''/data.kuzu''"
  obtain u1 w1 where 1: "kz_mkdir K (database_dir (ka_base_dir (fst aw)) t d) (snd aw) = (u1, w1)" by force
  obtain r2 w2 where 2: "kz_database K ?p w1 = (r2, w2)" by force
  show ?thesis
  proof (cases "\<exists>x db. u1 = Inr x \<and> r2 = Inr db")
    case True
    then obtain db where db: "u1 = Inr ()" "r2 = Inr db" by auto
    obtain r3 w3 where 3: "kz_connection K db w2 = (r3, w3)" by force
    show ?thesis
    proof (cases r3)
      case (Inl e)
      then show ?thesis using run False 1 2 3 db m
        by (auto simp: ensure_initialized_def db_file_path_def bind_def andthen_def on_snd_def ret_def Let_def)
    next
      case (Inr c)
      then have o: "opened_on K c ?p" using 2 3 db unfolding opened_on_def by blast
      have "fst aw' = (fst aw)\<lparr>ka_databases := (ka_databases (fst aw))(connection_key t d := Some db),
          ka_connections := (ka_connections (fst aw))(connection_key t d := Some c)\<rparr>"
        using run False 1 2 3 db Inr
        by (auto simp: ensure_initialized_def db_file_path_def bind_def andthen_def on_snd_def ret_def Let_def)
      with m o u show ?thesis
        by (auto simp: connections_match_def dest: connection_key_inj split: if_splits)
    qed
  next
    case no: False
    then have "fst aw' = fst aw" using run False 1 2
      by (cases u1; cases r2)
        (auto simp: ensure_initialized_def db_file_path_def bind_def andthen_def on_snd_def ret_def Let_def)
    with m show ?thesis by simp
  qed
qed

text \<open>Every query of a tenant on a database runs, if it runs at all, on a connection made for the file of
  that tenant's database, whatever the adapter has been asked before.\<close>

lemma query_runs_on_own_file:
  assumes "connections_match K (fst aw)" "is_uuid t" "is_uuid d" "adapter_run K t d cypher aw = (r, aw')"
  shows "connections_match K (fst aw') \<and> (\<forall>rows. r = Inr rows \<longrightarrow> (\<exists>c w w'.
    opened_on K c (database_dir (ka_base_dir (fst aw)) t d @ ''/data.kuzu'') \<and> kz_execute K c cypher w = (Inr rows, w')))"
proof -
  obtain u aw1 where e: "ensure_initialized K t d aw = (u, aw1)" by (cases "ensure_initialized K t d aw")
  note m1 = ensure_initialized_match [OF assms(1-3) e]
  show ?thesis
  proof (cases u)
    case (Inl x)
    then show ?thesis using assms(4) e m1 by (auto simp: adapter_run_def andthen_def bind_def)
  next
    case (Inr x)
    have "ka_connections (fst aw1) (connection_key t d) \<noteq> None"
      using e Inr by (auto simp: ensure_initialized_def bind_def ret_def split: if_splits prod.splits sum.splits)
    then obtain c where c: "ka_connections (fst aw1) (connection_key t d) = Some c" by blast
    then have "opened_on K c (database_dir (ka_base_dir (fst aw)) t d @ ''/data.kuzu'')"
      using m1 assms(2,3) unfolding connections_match_def by metis
    moreover have "(r, aw') = on_snd (kz_execute K c cypher) aw1"
      using assms(4) e Inr c by (simp add: adapter_run_def get_connection_def andthen_def bind_def ret_def)
    ultimately show ?thesis using m1 by (fastforce simp: on_snd_def split: prod.splits)
  qed
qed

text \<open>A connection once made is used from then on: the files of the database are not opened again, also
  when they have been replaced.\<close>

lemma connection_is_kept:
  assumes "ka_connections (fst aw) (connection_key t d) = Some c"
  shows "adapter_run K t d cypher aw = on_snd (kz_execute K c cypher) aw"
  using assms by (simp add: adapter_run_def ensure_initialized_def get_connection_def andthen_def bind_def ret_def)

text \<open>The adapter after some queries, each of which finds the world as others have left it.\<close>

fun after_queries :: "('w, 'd, 'c) kuzu_lib \<Rightarrow> ('w \<times> uuid \<times> uuid \<times> string) list \<Rightarrow> ('d, 'c) kuzu_adapter \<Rightarrow>
    ('d, 'c) kuzu_adapter" where
  "after_queries K [] a = a"
| "after_queries K ((w, t, d, q) # qs) a = after_queries K qs (fst (snd (adapter_run K t d q (a, w))))"

lemma adapter_run_base:
  assumes "connections_match K (fst aw)" "is_uuid t" "is_uuid d" "adapter_run K t d cypher aw = (r, aw')"
  shows "ka_base_dir (fst aw') = ka_base_dir (fst aw)"
proof -
  obtain u aw1 where e: "ensure_initialized K t d aw = (u, aw1)" by (cases "ensure_initialized K t d aw")
  have "fst aw' = fst aw1"
  proof (cases u)
    case (Inl x)
    then show ?thesis using assms(4) e by (simp add: adapter_run_def andthen_def bind_def)
  next
    case (Inr x)
    have "ka_connections (fst aw1) (connection_key t d) \<noteq> None"
      using e Inr by (auto simp: ensure_initialized_def bind_def ret_def split: if_splits prod.splits sum.splits)
    then show ?thesis using assms(4) e Inr
      by (auto simp: adapter_run_def get_connection_def andthen_def bind_def ret_def on_snd_def split: prod.splits)
  qed
  with ensure_initialized_match [OF assms(1-3) e] show ?thesis by simp
qed

lemma after_queries_match:
  assumes "connections_match K a" "\<forall>(w, t, d, q) \<in> set qs. is_uuid t \<and> is_uuid d"
  shows "connections_match K (after_queries K qs a) \<and> ka_base_dir (after_queries K qs a) = ka_base_dir a"
  using assms
proof (induction qs arbitrary: a)
  case (Cons x qs)
  obtain w t d q where x: "x = (w, t, d, q)" by (cases x)
  obtain r aw where r: "adapter_run K t d q (a, w) = (r, aw)" by (cases "adapter_run K t d q (a, w)")
  have u: "is_uuid t" "is_uuid d" using Cons.prems(2) x by auto
  have m: "connections_match K (fst (a, w))" using Cons.prems(1) by simp
  from query_runs_on_own_file [OF m u r] adapter_run_base [OF m u r]
  have "connections_match K (fst aw)" "ka_base_dir (fst aw) = ka_base_dir a" by auto
  with Cons.IH [of "fst aw"] Cons.prems(2) x r show ?case by simp
qed simp

text \<open>C29: Queries of one process keep to the files of their tenant. Whatever queries an adapter has run since
  it was made, for whatever tenants and databases and whatever has happened to the disk in between, the rows
  of a query are what the engine returns for it on a connection made for the file of this tenant's database
  under the adapter's directory.\<close>

theorem queries_keep_to_own_database:
  assumes "kuzu_adapter_init K resolve base_dir env_dir w0 = (Inr a, w1)"
    and "\<forall>(w, t, d, q) \<in> set qs. is_uuid t \<and> is_uuid d" and "is_uuid t" "is_uuid d"
    and "adapter_run K t d cypher (after_queries K qs a, w) = (Inr rows, aw')"
  shows "\<exists>c v v'. opened_on K c (database_dir (ka_base_dir a) t d @ ''/data.kuzu'') \<and>
    kz_execute K c cypher v = (Inr rows, v')"
proof -
  note m = after_queries_match [OF init_matches [OF assms(1)] assms(2)]
  then have "connections_match K (fst (after_queries K qs a, w))" by simp
  from query_runs_on_own_file [OF this assms(3-5)] m show ?thesis by simp
qed

text \<open>An engine whose databases and connections are their paths, and which answers with the path.\<close>

definition demo_kuzu :: "(unit, string, string) kuzu_lib" where
  "demo_kuzu = \<lparr>kz_mkdir = (\<lambda>p. ret ()), kz_database = ret, kz_connection = ret, kz_execute = (\<lambda>c q. ret [c])\<rparr>"

definition demo_adapter :: "(string, string) kuzu_adapter" where
  "demo_adapter = \<lparr>ka_base_dir = ''/kuzu'', ka_databases = (\<lambda>k. None), ka_connections = (\<lambda>k. None)\<rparr>"

lemma demo_adapter_made: "kuzu_adapter_init demo_kuzu (\<lambda>p. p) None (Some ''/kuzu'') () = (Inr demo_adapter, ())"
  by (simp add: kuzu_adapter_init_def demo_kuzu_def demo_adapter_def nonempty_text_def andthen_def bind_def ret_def)

lemma demo_rows: "fst (adapter_run demo_kuzu t d q (after_queries demo_kuzu [((), t', d', q')] demo_adapter, ())) \<in>
    (if connection_key t d = connection_key t' d' then {Inr [database_dir ''/kuzu'' t' d' @ ''/data.kuzu'']}
     else {Inr [database_dir ''/kuzu'' t d @ ''/data.kuzu'']})"
  by (simp add: adapter_run_def ensure_initialized_def get_connection_def db_file_path_def demo_kuzu_def
      demo_adapter_def andthen_def bind_def ret_def on_snd_def Let_def)

lemma queries_keep_to_own_database_witness:
  "\<exists>rows c v v'. fst (adapter_run demo_kuzu uuid_a uuid_b ''RETURN 1''
      (after_queries demo_kuzu [((), uuid_b, uuid_a, ''RETURN 1'')] demo_adapter, ())) = Inr rows \<and>
    opened_on demo_kuzu c (database_dir ''/kuzu'' uuid_a uuid_b @ ''/data.kuzu'') \<and>
    kz_execute demo_kuzu c ''RETURN 1'' v = (Inr rows, v')"
proof -
  let ?run = "adapter_run demo_kuzu uuid_a uuid_b ''RETURN 1''
    (after_queries demo_kuzu [((), uuid_b, uuid_a, ''RETURN 1'')] demo_adapter, ())"
  obtain rows aw where r: "?run = (Inr rows, aw)"
    using demo_rows [of uuid_a uuid_b "''RETURN 1''" uuid_b uuid_a "''RETURN 1''"]
    by (cases ?run) (auto split: if_splits)
  have b: "ka_base_dir demo_adapter = ''/kuzu''" by (simp add: demo_adapter_def)
  have "\<forall>(w, t, d, q) \<in> set [((), uuid_b, uuid_a, ''RETURN 1'')]. is_uuid t \<and> is_uuid d"
    using demo_uuids by simp
  from queries_keep_to_own_database [OF demo_adapter_made this demo_uuids r] r b show ?thesis by auto
qed

end
