(* ===== verification/SDK_Descriptors.thy ===== *)
theory SDK_Descriptors
  imports SDK_Orm
begin

text \<open>
  The parts of the object mapper (\<open>src/sdk/python/python/casys_db/orm.py\<close>) beside entities: the cache of a
  relation descriptor, which is kept by the addresses of instances, the keywords of a class statement, and
  the property references with the conditions they build.
\<close>

section \<open>The cache of a descriptor\<close>

text \<open>\<open>_cache\<close> of a descriptor, by \<open>id(instance)\<close>; nothing takes an entry out. \<open>SDK_Orm\<close> keeps what it holds
  for an instance with the instance, which is the same for as long as no address is used again.\<close>

type_synonym rel_cache = "(int \<times> gval) list"

definition descriptor_get :: "int \<Rightarrow> rel_cache \<Rightarrow> gval \<times> rel_cache" where
  "descriptor_get a cache = (case map_of cache a of Some v \<Rightarrow> (v, cache)
     | None \<Rightarrow> (GList [], AList.update a (GList []) cache))"

definition descriptor_set :: "int \<Rightarrow> gval \<Rightarrow> rel_cache \<Rightarrow> rel_cache" where
  "descriptor_set a v cache = AList.update a v cache"

text \<open>\<open>with_props(**schema)\<close>: \<open>props_schema.update(schema)\<close>, types by their names.\<close>

definition with_props :: "(string \<times> string) list \<Rightarrow> (string \<times> string) list \<Rightarrow> (string \<times> string) list" where
  "with_props schema props_schema = AList.updates (map fst schema) (map snd schema) props_schema"

text \<open>The accesses of the instances that live at the addresses, in order.\<close>

datatype rel_access = Get int | Set int gval

fun accesses :: "rel_access list \<Rightarrow> rel_cache \<Rightarrow> rel_cache" where
  "accesses [] cache = cache"
| "accesses (Get a # xs) cache = accesses xs (snd (descriptor_get a cache))"
| "accesses (Set a v # xs) cache = accesses xs (descriptor_set a v cache)"

lemma descriptor_set_get [simp]: "fst (descriptor_get a (descriptor_set a v cache)) = v"
  by (simp add: descriptor_get_def descriptor_set_def update_conv')

lemma descriptor_get_kept: "map_of cache a = Some v \<Longrightarrow> map_of (snd (descriptor_get b cache)) a = Some v"
  by (auto simp: descriptor_get_def update_conv' split: option.split)

lemma descriptor_set_other: "a \<noteq> b \<Longrightarrow> map_of (descriptor_set b v cache) a = map_of cache a"
  by (simp add: descriptor_set_def update_conv')

text \<open>A value that is set stays for whoever is at that address, until it is set again: an instance that is
  made where an earlier one was sees the relations of the earlier one.\<close>

lemma address_keeps_value:
  assumes "map_of cache a = Some v" "\<And>u. Set a u \<notin> set xs"
  shows "fst (descriptor_get a (accesses xs cache)) = v"
  using assms
proof (induction xs arbitrary: cache)
  case Nil
  then show ?case by (simp add: descriptor_get_def)
next
  case (Cons x xs)
  show ?case
  proof (cases x)
    case (Get b)
    with Cons.IH [of "snd (descriptor_get b cache)"] Cons.prems show ?thesis
      by (simp add: descriptor_get_kept)
  next
    case (Set b u)
    with Cons.prems(2) have "b \<noteq> a" by auto
    with Set Cons.IH [of "descriptor_set b u cache"] Cons.prems show ?thesis
      by (auto simp: descriptor_set_other)
  qed
qed

section \<open>Class statements\<close>

text \<open>\<open>NodeEntity.__init_subclass__(label=, labels=)\<close>, markers by their names.\<close>

definition init_subclass :: "string option \<Rightarrow> string list option \<Rightarrow> entity \<Rightarrow> entity" where
  "init_subclass label labels_arg c = (case label of Some l \<Rightarrow> c\<lparr>labels := [l]\<rparr>
     | None \<Rightarrow> (case labels_arg of Some ls \<Rightarrow> c\<lparr>labels := ls\<rparr> | None \<Rightarrow> c))"

text \<open>\<open>class name(NodeEntity, keywords)\<close>: Python hands the keywords to \<open>EntityMeta.__new__\<close>, which takes none,
  before \<open>__init_subclass__\<close> is reached.\<close>

definition class_statement :: "string \<Rightarrow> (string \<times> relation_desc \<times> rel_target) list \<Rightarrow> string option \<Rightarrow>
    string list option \<Rightarrow> string list \<Rightarrow> entity result" where
  "class_statement name rels label_attr labels_attr keywords = (case keywords of
       [] \<Rightarrow> Inr (init_subclass None None (EntityMeta_new name rels label_attr labels_attr))
     | k # _ \<Rightarrow> raise TypeError (''EntityMeta.__new__() got an unexpected keyword argument '' @ [CHR 39] @ k @ [CHR 39]))"

lemma keyword_label_refused: "\<not> is_ok (class_statement name rels la ls (''label'' # ks))"
  by (simp add: class_statement_def)

section \<open>Property references\<close>

record property_ref =
  pr_class :: string
  pr_property :: string

text \<open>What the comparisons of a reference build, and \<open>&\<close> and \<open>|\<close> of a comparison; a \<open>LogicalExpr\<close> has no
  operators of its own. A condition on the right may be any value.\<close>

datatype condition =
    ComparisonExpr property_ref string gval
  | LogicalExpr condition string condition

record order_by_expr =
  oe_property :: property_ref
  oe_descending :: bool

definition property_compare :: "string \<Rightarrow> property_ref \<Rightarrow> gval \<Rightarrow> condition" where
  "property_compare opr p v = ComparisonExpr p opr v"

definition property_desc :: "property_ref \<Rightarrow> order_by_expr" where
  "property_desc p = \<lparr>oe_property = p, oe_descending = True\<rparr>"

definition property_asc :: "property_ref \<Rightarrow> order_by_expr" where
  "property_asc p = \<lparr>oe_property = p, oe_descending = False\<rparr>"

definition class_of_condition :: "condition \<Rightarrow> string" where
  "class_of_condition c = (case c of ComparisonExpr _ _ _ \<Rightarrow> ''ComparisonExpr'' | LogicalExpr _ _ _ \<Rightarrow> ''LogicalExpr'')"

definition combine :: "string \<Rightarrow> string \<Rightarrow> condition \<Rightarrow> condition \<Rightarrow> condition result" where
  "combine sign opr a b = (case a of
       ComparisonExpr _ _ _ \<Rightarrow> Inr (LogicalExpr a opr b)
     | LogicalExpr _ _ _ \<Rightarrow> raise TypeError (''unsupported operand type(s) for '' @ sign @ '': '' @ [CHR 39] @
         class_of_condition a @ [CHR 39] @ '' and '' @ [CHR 39] @ class_of_condition b @ [CHR 39]))"

definition condition_and :: "condition \<Rightarrow> condition \<Rightarrow> condition result" where
  "condition_and = combine ''&'' ''AND''"

definition condition_or :: "condition \<Rightarrow> condition \<Rightarrow> condition result" where
  "condition_or = combine ''|'' ''OR''"

text \<open>Three conditions can not be joined as Python reads \<open>a & b & c\<close>, from the left; from the right they can.\<close>

lemma chained_conditions_refused:
  "\<not> is_ok (bind_r (condition_and a b) (\<lambda>ab. condition_and ab c))"
  by (cases a) (auto simp: condition_and_def combine_def)

lemma nested_conditions_join:
  "bind_r (condition_and (property_compare o2 p v) (property_compare o3 q u)) (condition_and (property_compare o1 r x)) =
    Inr (LogicalExpr (property_compare o1 r x) ''AND'' (LogicalExpr (property_compare o2 p v) ''AND'' (property_compare o3 q u)))"
  by (simp add: condition_and_def combine_def property_compare_def)

end
