(* ===== verification/SDK_Database.thy ===== *)
theory SDK_Database
  imports SDK_Query
begin

text \<open>
  The high-level interface of the Python SDK (\<open>src/sdk/python/python/casys_db/database.py\<close>): \<open>Database\<close> and
  \<open>Branch\<close>, and the entry points of \<open>Session\<close> that hand work to the builder or to the branch. The engine
  is the native module \<open>casys_engine\<close>, here a record of its functions, with the promises of its stubs
  (\<open>casys_engine.pyi\<close>) as a locale; \<open>Casys_Engine\<close> models the binding that provides it.
\<close>

section \<open>The native module\<close>

text \<open>A \<open>CasysBranch\<close> (query, flush, load; \<open>add_node\<close> is what sessions use), and the engine whose objects
  are of the type \<open>'e\<close>. A snapshot is listed by its time and its branch.\<close>

record 'w casys_branch = "'w branch" +
  branch_flush :: "('w, unit) act"
  branch_load :: "('w, unit) act"

record snapshot_entry =
  se_timestamp :: nat
  se_branch :: string

record ('w, 'e) casys =
  eng_new :: "string \<Rightarrow> ('w, 'e) act"
  eng_open_database :: "'e \<Rightarrow> string \<Rightarrow> ('w, string) act"
  eng_open_branch :: "'e \<Rightarrow> string \<Rightarrow> string \<Rightarrow> ('w, 'w casys_branch) act"
  eng_create_branch :: "'e \<Rightarrow> string \<Rightarrow> string \<Rightarrow> ('w, unit) act"
  eng_list_snapshots :: "'e \<Rightarrow> string \<Rightarrow> string \<Rightarrow> ('w, snapshot_entry list) act"

section \<open>Branches\<close>

record ('w, 'e) sdk_branch =
  sb_engine :: 'e
  sb_db_name :: string
  sb_branch_name :: string
  sb_branch :: "'w casys_branch"

definition Branch_init :: "('w, 'e) casys \<Rightarrow> 'e \<Rightarrow> string \<Rightarrow> string \<Rightarrow> ('w, ('w, 'e) sdk_branch) act" where
  "Branch_init K e db_name name = bind (eng_open_branch K e db_name name) (\<lambda>b.
     ret \<lparr>sb_engine = e, sb_db_name = db_name, sb_branch_name = name, sb_branch = b\<rparr>)"

definition Branch_query :: "('w, 'e) sdk_branch \<Rightarrow> string \<Rightarrow> (string \<times> gval) list option \<Rightarrow>
    ('w, query_result) act" where
  "Branch_query b gql params = branch_query (sb_branch b) gql params"

definition Branch_commit :: "('w, 'e) sdk_branch \<Rightarrow> ('w, unit) act" where
  "Branch_commit b = branch_flush (sb_branch b)"

definition Branch_load :: "('w, 'e) sdk_branch \<Rightarrow> ('w, unit) act" where
  "Branch_load b = branch_load (sb_branch b)"

definition Branch_name :: "('w, 'e) sdk_branch \<Rightarrow> string" where
  "Branch_name b = sb_branch_name b"

section \<open>Databases\<close>

record ('w, 'e) sdk_database =
  sd_data_dir :: string
  sd_engine :: 'e
  sd_db_name :: string
  sd_current_branch :: "'w casys_branch"
  sd_branch_name :: string

text \<open>\<open>path.replace(".db", "").replace("/", "_")\<close>, and \<open>data_dir or "~/.casys_db"\<close>.\<close>

definition database_name_of :: "string \<Rightarrow> string" where
  "database_name_of path = map (\<lambda>c. if c = CHR ''/'' then CHR ''_'' else c) (remove_all ''.db'' path)"

definition data_dir_of :: "string option \<Rightarrow> string" where
  "data_dir_of data_dir = (case data_dir of Some (c # cs) \<Rightarrow> c # cs | _ \<Rightarrow> ''~/.casys_db'')"

definition Database_init :: "('w, 'e) casys \<Rightarrow> string \<Rightarrow> string option \<Rightarrow> ('w, ('w, 'e) sdk_database) act" where
  "Database_init K path data_dir =
     bind (eng_new K (data_dir_of data_dir)) (\<lambda>e.
     andthen (eng_open_database K e (database_name_of path))
     (andthen (catch (eng_create_branch K e (database_name_of path) ''main'') (\<lambda>_. ret ()))
     (bind (eng_open_branch K e (database_name_of path) ''main'') (\<lambda>b.
       ret \<lparr>sd_data_dir = data_dir_of data_dir, sd_engine = e, sd_db_name = database_name_of path,
            sd_current_branch = b, sd_branch_name = ''main''\<rparr>))))"

definition Database_query :: "('w, 'e) sdk_database \<Rightarrow> string \<Rightarrow> (string \<times> gval) list option \<Rightarrow>
    ('w, query_result) act" where
  "Database_query db gql params = branch_query (sd_current_branch db) gql params"

definition Database_commit :: "('w, 'e) sdk_database \<Rightarrow> ('w, unit) act" where
  "Database_commit db = branch_flush (sd_current_branch db)"

definition Database_create_branch :: "('w, 'e) casys \<Rightarrow> ('w, 'e) sdk_database \<Rightarrow> string \<Rightarrow>
    ('w, ('w, 'e) sdk_branch) act" where
  "Database_create_branch K db name =
     andthen (eng_create_branch K (sd_engine db) (sd_db_name db) name)
       (Branch_init K (sd_engine db) (sd_db_name db) name)"

definition Database_branch :: "('w, 'e) casys \<Rightarrow> ('w, 'e) sdk_database \<Rightarrow> string \<Rightarrow>
    ('w, ('w, 'e) sdk_branch) act" where
  "Database_branch K db name = Branch_init K (sd_engine db) (sd_db_name db) name"

definition Database_branch_at :: "('w, 'e) casys \<Rightarrow> ('w, 'e) sdk_database \<Rightarrow> string \<Rightarrow> string \<Rightarrow>
    ('w, ('w, 'e) sdk_branch) act" where
  "Database_branch_at K db name timestamp = Database_create_branch K db name"

definition Database_snapshots :: "('w, 'e) casys \<Rightarrow> ('w, 'e) sdk_database \<Rightarrow> ('w, snapshot_entry list) act" where
  "Database_snapshots K db = eng_list_snapshots K (sd_engine db) (sd_db_name db) (sd_branch_name db)"

definition Database_history :: "('w, 'e) casys \<Rightarrow> ('w, 'e) sdk_database \<Rightarrow> string option \<Rightarrow>
    ('w, snapshot_entry list) act" where
  "Database_history K db from_time = Database_snapshots K db"

section \<open>The entry points of a session\<close>

text \<open>\<open>Session.query\<close> and the attribute access that finds a registered class; \<open>flush\<close>, \<open>load\<close>,
  \<open>execute_raw\<close>.\<close>

definition session_query :: "entity \<Rightarrow> builder" where
  "session_query c = QueryBuilder c"

definition session_getattr :: "registry \<Rightarrow> string \<Rightarrow> builder result" where
  "session_getattr reg name = (case map_of reg name of Some c \<Rightarrow> Inr (session_query c)
     | None \<Rightarrow> raise AttributeError name)"

definition session_flush :: "'w casys_branch \<Rightarrow> ('w, unit) act" where
  "session_flush b = branch_flush b"

definition session_load :: "'w casys_branch \<Rightarrow> ('w, unit) act" where
  "session_load b = branch_load b"

definition execute_raw :: "'w casys_branch \<Rightarrow> string \<Rightarrow> (string \<times> gval) list option \<Rightarrow>
    ('w, query_result) act" where
  "execute_raw b gql params = (case params of None \<Rightarrow> branch_query b gql None
     | Some p \<Rightarrow> branch_query b gql (Some p))"

section \<open>Work on a database\<close>

text \<open>Queries and commits, one after the other; one that raises is over, and the next one comes.\<close>

datatype db_call = Query string "(string \<times> gval) list option" | Commit

fun after_calls :: "('w, 'e) sdk_database \<Rightarrow> db_call list \<Rightarrow> 'w \<Rightarrow> 'w" where
  "after_calls db [] w = w"
| "after_calls db (Query gql ps # cs) w = after_calls db cs (snd (Database_query db gql ps w))"
| "after_calls db (Commit # cs) w = after_calls db cs (snd (Database_commit db w))"

section \<open>What the engine promises\<close>

text \<open>Each engine holds a graph per database and branch, empty when the engine is new. Opening and
  creating touch neither the graphs that are held nor what is on disk; a query acts on the graph that is
  held; a flush puts it on disk, a load takes it from there.\<close>

locale embedded_engine =
  fixes K :: "('w, 'e) casys"
    and held :: "'e \<Rightarrow> string \<Rightarrow> string \<Rightarrow> 'w \<Rightarrow> 'g"
    and stored :: "'e \<Rightarrow> string \<Rightarrow> string \<Rightarrow> 'w \<Rightarrow> 'd option"
    and disk :: "'w \<Rightarrow> 'k"
    and new_graph :: 'g
    and exec :: "string \<Rightarrow> (string \<times> gval) list option \<Rightarrow> 'g \<Rightarrow> query_result result \<times> 'g"
    and save :: "'g \<Rightarrow> 'd"
    and restored :: "'d \<Rightarrow> 'g result"
  assumes new_engine: "eng_new K dir w = (Inr e, w1) \<Longrightarrow> held e d b w1 = new_graph \<and> disk w1 = disk w"
    and open_database: "eng_open_database K e n w = (r, w1) \<Longrightarrow> held e d b w1 = held e d b w \<and> disk w1 = disk w"
    and create_branch: "eng_create_branch K e n m w = (u, w1) \<Longrightarrow> held e d b w1 = held e d b w \<and> disk w1 = disk w"
    and open_branch: "eng_open_branch K e n m w = (v, w1) \<Longrightarrow> held e d b w1 = held e d b w \<and> disk w1 = disk w"
    and query: "eng_open_branch K e d b w = (Inr h, w1) \<Longrightarrow> branch_query h gql ps w2 = (q, w3) \<Longrightarrow>
      exec gql ps (held e d b w2) = (q, held e d b w3) \<and> disk w3 = disk w2 \<and>
        (\<forall>b'. b' \<noteq> b \<longrightarrow> held e d b' w3 = held e d b' w2)"
    and flush: "eng_open_branch K e d b w = (Inr h, w1) \<Longrightarrow>
      \<exists>w3. branch_flush h w2 = (Inr (), w3) \<and> stored e d b w3 = Some (save (held e d b w2)) \<and>
        (\<forall>b'. held e d b' w3 = held e d b' w2)"
    and load: "eng_open_branch K e d b w = (Inr h, w1) \<Longrightarrow> stored e d b w2 = Some x \<Longrightarrow> restored x = Inr g \<Longrightarrow>
      \<exists>w3. branch_load h w2 = (Inr (), w3) \<and> held e d b w3 = g \<and> disk w3 = disk w2"
begin

text \<open>A constructor that returned has opened \<open>main\<close> on a new engine.\<close>

lemma init_okE:
  assumes "Database_init K path dd w = (Inr db, w1)"
  obtains w0 where "eng_open_branch K (sd_engine db) (sd_db_name db) ''main'' w0 = (Inr (sd_current_branch db), w1)"
    "sd_db_name db = database_name_of path" "sd_branch_name db = ''main''" "sd_data_dir db = data_dir_of dd"
    "held (sd_engine db) d b w1 = new_graph" "disk w1 = disk w"
proof -
  let ?n = "database_name_of path"
  from assms obtain e wa r wb wc h
    where e: "eng_new K (data_dir_of dd) w = (Inr e, wa)" "eng_open_database K e ?n wa = (Inr r, wb)"
      and c: "catch (eng_create_branch K e ?n ''main'') (\<lambda>_. ret ()) wb = (Inr (), wc)"
      and h: "eng_open_branch K e ?n ''main'' wc = (Inr h, w1)"
      and db: "db = \<lparr>sd_data_dir = data_dir_of dd, sd_engine = e, sd_db_name = ?n, sd_current_branch = h,
        sd_branch_name = ''main''\<rparr>"
    unfolding Database_init_def by (elim bind_okE andthen_okE) (auto simp: ret_def)
  from c obtain u where "eng_create_branch K e ?n ''main'' wb = (u, wc)"
    by (auto simp: catch_def ret_def split: prod.splits sum.splits)
  with e h new_engine [OF e(1), of d b] have "held e d b w1 = new_graph \<and> disk w1 = disk w"
    by (metis open_database create_branch open_branch)
  with that [of wc] db h show thesis by simp
qed

text \<open>So a database that has been opened is empty, whatever is on disk, and to commit it is to replace
  what is there by an empty graph.\<close>

lemma opened_is_empty:
  assumes "Database_init K path dd w = (Inr db, w1)"
  shows "disk w1 = disk w"
    and "fst (Database_query db gql ps w1) = fst (exec gql ps new_graph)"
    and "\<exists>w2. Database_commit db w1 = (Inr (), w2) \<and>
      stored (sd_engine db) (database_name_of path) ''main'' w2 = Some (save new_graph)"
proof -
  from assms obtain w0
    where o: "eng_open_branch K (sd_engine db) (sd_db_name db) ''main'' w0 = (Inr (sd_current_branch db), w1)"
      "sd_db_name db = database_name_of path"
      "held (sd_engine db) (sd_db_name db) ''main'' w1 = new_graph" "disk w1 = disk w"
    by (rule init_okE) blast
  then show "disk w1 = disk w" by simp
  obtain q w3 where r: "branch_query (sd_current_branch db) gql ps w1 = (q, w3)" by force
  with query [OF o(1) r] o(3) show "fst (Database_query db gql ps w1) = fst (exec gql ps new_graph)"
    by (simp add: Database_query_def)
  from flush [OF o(1), of w1] o(2,3) show "\<exists>w2. Database_commit db w1 = (Inr (), w2) \<and>
      stored (sd_engine db) (database_name_of path) ''main'' w2 = Some (save new_graph)"
    by (auto simp: Database_commit_def)
qed

text \<open>A branch shows the graph its engine holds under its name, which creating it does not fill.\<close>

lemma created_branch_holds:
  assumes "Database_create_branch K db name w = (Inr br, w1)"
  shows "fst (Branch_query br gql ps w1) = fst (exec gql ps (held (sd_engine db) (sd_db_name db) name w))"
    and "disk w1 = disk w"
proof -
  let ?e = "sd_engine db" and ?n = "sd_db_name db"
  from assms obtain u wa where c: "eng_create_branch K ?e ?n name w = (u, wa)"
      and o: "eng_open_branch K ?e ?n name wa = (Inr (sb_branch br), w1)"
    unfolding Database_create_branch_def Branch_init_def
    by (elim andthen_okE bind_okE) (auto simp: ret_def)
  obtain q w3 where r: "branch_query (sb_branch br) gql ps w1 = (q, w3)" by force
  from query [OF o r] r open_branch [OF o, of ?n name] create_branch [OF c, of ?n name]
  show "fst (Branch_query br gql ps w1) = fst (exec gql ps (held ?e ?n name w))"
    by (simp add: Branch_query_def)
  from open_branch [OF o] create_branch [OF c] show "disk w1 = disk w" by metis
qed

text \<open>Queries and commits of the database leave the branches that are not \<open>main\<close> as they were.\<close>

lemma calls_keep_others:
  assumes "eng_open_branch K (sd_engine db) (sd_db_name db) ''main'' w0 = (Inr (sd_current_branch db), w00)" "b \<noteq> ''main''"
  shows "held (sd_engine db) (sd_db_name db) b (after_calls db cs w) = held (sd_engine db) (sd_db_name db) b w"
proof (induction cs arbitrary: w)
  case (Cons c cs)
  show ?case
  proof (cases c)
    case (Query gql ps)
    obtain q w3 where r: "branch_query (sd_current_branch db) gql ps w = (q, w3)" by force
    with query [OF assms(1) r] assms(2) Cons.IH Query show ?thesis by (simp add: Database_query_def)
  next
    case Commit
    with flush [OF assms(1), of w] Cons.IH show ?thesis by (auto simp: Database_commit_def)
  qed
qed simp

text \<open>So a branch made after any work on a database that was opened starts empty.\<close>

lemma new_branch_is_empty:
  assumes "Database_init K path dd w = (Inr db, w1)" "b \<noteq> ''main''"
    and "Database_create_branch K db b (after_calls db cs w1) = (Inr br, w2)"
  shows "fst (Branch_query br gql ps w2) = fst (exec gql ps new_graph)"
proof -
  from assms(1) obtain w0
    where "eng_open_branch K (sd_engine db) (sd_db_name db) ''main'' w0 = (Inr (sd_current_branch db), w1)"
      "held (sd_engine db) (sd_db_name db) b w1 = new_graph"
    by (rule init_okE) blast
  with calls_keep_others [OF _ assms(2)] created_branch_holds(1) [OF assms(3)] show ?thesis by metis
qed

text \<open>What is committed is there again after a load, when saving loses nothing.\<close>

lemma commit_then_load:
  assumes "eng_open_branch K e d b w = (Inr h, w1)" and "restored (save (held e d b w2)) = Inr (held e d b w2)"
  shows "\<exists>w3 w4. branch_flush h w2 = (Inr (), w3) \<and> branch_load h w3 = (Inr (), w4) \<and>
    held e d b w4 = held e d b w2 \<and> disk w4 = disk w3"
  using flush [OF assms(1), of w2] load [OF assms(1) _ assms(2)] by blast

end

section \<open>Lemmas\<close>

text \<open>The path of a database is not its identity: two paths open one database.\<close>

lemma paths_share_databases:
  "database_name_of ''a/b.db'' = database_name_of ''a_b''"
  "database_name_of ''my.dbase'' = database_name_of ''myase''"
  by (simp_all add: database_name_of_def remove_all.simps)

text \<open>A time that is asked for is not looked at.\<close>

lemma branch_at_ignores_time: "Database_branch_at K db name t = Database_branch_at K db name t'"
  by (simp add: Database_branch_at_def)

lemma history_ignores_start: "Database_history K db t = Database_snapshots K db"
  by (simp add: Database_history_def)

lemma session_of_registered:
  "cls_name c \<noteq> ''NodeEntity'' \<Longrightarrow> session_getattr (register c reg) (cls_name c) = Inr (QueryBuilder c)"
  by (simp add: session_getattr_def session_query_def)

end
