(* ===== verification/Casys_Engine.thy ===== *)
theory Casys_Engine
  imports SDK_Database "HOL-Library.List_Lexorder" "HOL-Library.Char_ord"
begin

text \<open>
  The native module of the Python SDK, as its binding has it (\<open>src/crates/casys_pyo3/src/lib.rs\<close>, built with
  the file system): an engine opened on a directory, which holds a graph per database and branch in
  memory; the segments a flush writes and a load reads (\<open>persistence.rs\<close> of \<open>casys_engine\<close>); the manifests
  that creating a branch writes (\<open>casys_storage_fs\<close>). The graphs, what a statement does to one and how one
  is written to its segments are arguments. Disks do not fail. The module is the engine of
  \<open>SDK_Database\<close>, whose laws it keeps.
\<close>

section \<open>Graphs, files, engines\<close>

record ('g, 'd) graph_store =
  gs_new :: 'g
  gs_execute :: "string \<Rightarrow> (string \<times> gval) list option \<Rightarrow> 'g \<Rightarrow> (string + query_result) \<times> 'g"
  gs_add_node :: "string list \<Rightarrow> (string \<times> gval) list \<Rightarrow> 'g \<Rightarrow> (string + int) \<times> 'g"
  gs_save :: "'g \<Rightarrow> 'd"
  gs_load :: "'d \<Rightarrow> string + 'g"

record manifest =
  mf_branch :: string
  mf_version_ts :: nat
  mf_segments :: "string list"
  mf_wal_tail :: "(nat \<times> nat) option"

text \<open>The world: the graphs of every engine under \<open>"db/branch"\<close>, the segments and the manifests of a branch
  under a directory, the clock in milliseconds, and the number of engines so far.\<close>

type_synonym place = "string \<times> string \<times> string"

record ('g, 'd) engine_world =
  ew_stores :: "(nat \<times> string) \<Rightarrow> 'g option"
  ew_segments :: "place \<Rightarrow> 'd option"
  ew_manifests :: "place \<Rightarrow> (nat \<times> manifest) list"
  ew_clock :: nat
  ew_engines :: nat

record engine =
  en_number :: nat
  en_data_dir :: string

section \<open>Names\<close>

text \<open>\<open>validate_identifier\<close>; a text's length is that of its UTF-8 form. An error is the text \<open>{:?}\<close> gives.\<close>

definition utf8_length :: "string \<Rightarrow> nat" where
  "utf8_length s = sum_list (map (\<lambda>c. if (of_char c :: nat) < 128 then 1 else 2) s)"

definition identifier_char :: "char \<Rightarrow> bool" where
  "identifier_char c \<longleftrightarrow> c \<in> set ''ABCDEFGHIJKLMNOPQRSTUVWXYZabcdefghijklmnopqrstuvwxyz0123456789-_''"

definition validate_identifier :: "string \<Rightarrow> string option" where
  "validate_identifier s = (if s = [] \<or> 128 < utf8_length s then Some ''InvalidArgument(\"identifier length\")''
     else if \<not> list_all identifier_char s then Some ''InvalidArgument(\"identifier charset\")'' else None)"

definition named :: "string \<Rightarrow> string \<Rightarrow> ('w, unit) act" where
  "named what s = (case validate_identifier s of None \<Rightarrow> ret ()
     | Some e \<Rightarrow> throw RuntimeError (what @ '': '' @ e))"

section \<open>Manifests\<close>

definition manifest_file :: "nat \<Rightarrow> string" where
  "manifest_file ts = ''manifest-'' @ py_str_nat ts @ ''.json''"

definition list_manifests :: "(nat \<times> manifest) list \<Rightarrow> (nat \<times> manifest) list" where
  "list_manifests ms = sort_key (\<lambda>(ts, m). manifest_file ts) ms"

definition latest_manifest :: "(nat \<times> manifest) list \<Rightarrow> manifest option" where
  "latest_manifest ms = (case list_manifests ms of [] \<Rightarrow> None | _ \<Rightarrow> Some (snd (last (list_manifests ms))))"

text \<open>\<open>FsBackend::create_branch\<close> without a time: a manifest of the new branch with the segments and the log
  position of the latest manifest of the branch it comes from.\<close>

definition fs_create_branch :: "string \<Rightarrow> string \<Rightarrow> string \<Rightarrow> string \<Rightarrow> ('g, 'd) engine_world \<Rightarrow>
    ('g, 'd) engine_world" where
  "fs_create_branch dir db old new w = (let base = latest_manifest (ew_manifests w (dir, db, old)) in
     w\<lparr>ew_manifests := (ew_manifests w)((dir, db, new) := AList.update (ew_clock w)
         \<lparr>mf_branch = new, mf_version_ts = ew_clock w,
          mf_segments = (case base of None \<Rightarrow> [] | Some m \<Rightarrow> mf_segments m),
          mf_wal_tail = (case base of None \<Rightarrow> None | Some m \<Rightarrow> mf_wal_tail m)\<rparr> (ew_manifests w (dir, db, new)))\<rparr>)"

section \<open>The binding\<close>

definition store_key :: "engine \<Rightarrow> string \<Rightarrow> string \<Rightarrow> nat \<times> string" where
  "store_key e db b = (en_number e, db @ ''/'' @ b)"

definition store_of :: "('g, 'd) graph_store \<Rightarrow> nat \<times> string \<Rightarrow> ('g, 'd) engine_world \<Rightarrow> 'g" where
  "store_of G k w = (case ew_stores w k of None \<Rightarrow> gs_new G | Some g \<Rightarrow> g)"

definition put_store :: "nat \<times> string \<Rightarrow> 'g \<Rightarrow> ('g, 'd) engine_world \<Rightarrow> ('g, 'd) engine_world" where
  "put_store k g w = w\<lparr>ew_stores := (ew_stores w)(k := Some g)\<rparr>"

definition CasysEngine_new :: "string \<Rightarrow> (('g, 'd) engine_world, engine) act" where
  "CasysEngine_new dir w = (Inr \<lparr>en_number = ew_engines w, en_data_dir = dir\<rparr>,
     w\<lparr>ew_engines := Suc (ew_engines w), ew_stores := (\<lambda>k. if fst k = ew_engines w then None else ew_stores w k)\<rparr>)"

definition open_database :: "engine \<Rightarrow> string \<Rightarrow> (('g, 'd) engine_world, string) act" where
  "open_database e n = andthen (named ''Failed to open database'' n) (ret n)"

text \<open>\<open>CasysBranch.query\<close>: no parameters and empty ones are the same; \<open>flush\<close>, \<open>load\<close>, \<open>add_node\<close>.\<close>

definition run_gql :: "('g, 'd) graph_store \<Rightarrow> string \<Rightarrow> (string \<times> gval) list option \<Rightarrow> 'g \<Rightarrow>
    query_result result \<times> 'g" where
  "run_gql G gql ps g = (case gs_execute G gql (if ps = Some [] then None else ps) g of
       (Inl e, g') \<Rightarrow> (raise RuntimeError (''Execution error: '' @ e), g')
     | (Inr r, g') \<Rightarrow> (Inr r, g'))"

definition pyo3_query :: "('g, 'd) graph_store \<Rightarrow> nat \<times> string \<Rightarrow> string \<Rightarrow> (string \<times> gval) list option \<Rightarrow>
    (('g, 'd) engine_world, query_result) act" where
  "pyo3_query G k gql ps w = (case run_gql G gql ps (store_of G k w) of (r, g) \<Rightarrow> (r, put_store k g w))"

definition pyo3_add_node :: "('g, 'd) graph_store \<Rightarrow> nat \<times> string \<Rightarrow> string list \<Rightarrow> (string \<times> gval) list \<Rightarrow>
    (('g, 'd) engine_world, int) act" where
  "pyo3_add_node G k ls ps w = (case gs_add_node G ls ps (store_of G k w) of
       (Inl e, g) \<Rightarrow> (raise RuntimeError (''Add node error: '' @ e), put_store k g w)
     | (Inr i, g) \<Rightarrow> (Inr i, put_store k g w))"

definition flush_to_segments :: "('g, 'd) graph_store \<Rightarrow> nat \<times> string \<Rightarrow> place \<Rightarrow>
    (('g, 'd) engine_world, unit) act" where
  "flush_to_segments G k p w =
     (Inr (), w\<lparr>ew_segments := (ew_segments w)(p := Some (gs_save G (store_of G k w)))\<rparr>)"

definition load_from_segments :: "('g, 'd) graph_store \<Rightarrow> place \<Rightarrow> ('g, 'd) engine_world \<Rightarrow> string + 'g" where
  "load_from_segments G p w = (case ew_segments w p of None \<Rightarrow> Inr (gs_new G) | Some x \<Rightarrow> gs_load G x)"

definition pyo3_load :: "('g, 'd) graph_store \<Rightarrow> nat \<times> string \<Rightarrow> place \<Rightarrow>
    (('g, 'd) engine_world, unit) act" where
  "pyo3_load G k p w = (case load_from_segments G p w of
       Inl e \<Rightarrow> (raise RuntimeError (''Load error: '' @ e), w)
     | Inr g \<Rightarrow> (Inr (), put_store k g w))"

definition pyo3_branch :: "('g, 'd) graph_store \<Rightarrow> engine \<Rightarrow> string \<Rightarrow> string \<Rightarrow>
    ('g, 'd) engine_world casys_branch" where
  "pyo3_branch G e db b = \<lparr>branch_query = pyo3_query G (store_key e db b),
     branch_add_node = pyo3_add_node G (store_key e db b),
     branch_flush = flush_to_segments G (store_key e db b) (en_data_dir e, db, b),
     branch_load = pyo3_load G (store_key e db b) (en_data_dir e, db, b)\<rparr>"

text \<open>\<open>open_branch\<close> makes an empty graph for a branch the engine holds none of; \<open>create_branch\<close> always
  starts from \<open>main\<close>.\<close>

definition open_branch :: "('g, 'd) graph_store \<Rightarrow> engine \<Rightarrow> string \<Rightarrow> string \<Rightarrow>
    (('g, 'd) engine_world, ('g, 'd) engine_world casys_branch) act" where
  "open_branch G e db b = andthen (named ''Failed to open database'' db)
     (andthen (named ''Failed to open branch'' b)
       (\<lambda>w. (Inr (pyo3_branch G e db b), put_store (store_key e db b) (store_of G (store_key e db b) w) w)))"

definition create_branch_of_main :: "engine \<Rightarrow> string \<Rightarrow> string \<Rightarrow> (('g, 'd) engine_world, unit) act" where
  "create_branch_of_main e db b = andthen (named ''Failed to open database'' db)
     (andthen (named ''Failed to create branch'' b)
       (\<lambda>w. (Inr (), fs_create_branch (en_data_dir e) db ''main'' b w)))"

definition list_snapshots :: "engine \<Rightarrow> string \<Rightarrow> string \<Rightarrow>
    (('g, 'd) engine_world, snapshot_entry list) act" where
  "list_snapshots e db b = andthen (named ''Failed to open database'' db)
     (andthen (named ''Failed to open branch'' b)
       (\<lambda>w. (Inr (map (\<lambda>(ts, m). \<lparr>se_timestamp = mf_version_ts m, se_branch = b\<rparr>)
         (list_manifests (ew_manifests w (en_data_dir e, db, b)))), w)))"

definition casys_engine :: "('g, 'd) graph_store \<Rightarrow> (('g, 'd) engine_world, engine) casys" where
  "casys_engine G = \<lparr>eng_new = CasysEngine_new, eng_open_database = open_database, eng_open_branch = open_branch G,
     eng_create_branch = create_branch_of_main, eng_list_snapshots = list_snapshots\<rparr>"

section \<open>The module keeps its promises\<close>

lemma named_run: "named what s w = (case validate_identifier s of None \<Rightarrow> (Inr (), w)
    | Some e \<Rightarrow> (raise RuntimeError (what @ '': '' @ e), w))"
  by (simp add: named_def exec_simps split: option.split)

lemma store_put [simp]: "store_of G k (put_store j g w) = (if k = j then g else store_of G k w)"
  by (simp add: store_of_def put_store_def)

lemma put_store_files [simp]:
  "ew_segments (put_store k g w) = ew_segments w" "ew_manifests (put_store k g w) = ew_manifests w"
  by (simp_all add: put_store_def)

lemma open_branch_ok:
  "open_branch G e db b w = (Inr h, w1) \<longleftrightarrow> validate_identifier db = None \<and> validate_identifier b = None \<and>
    h = pyo3_branch G e db b \<and> w1 = put_store (store_key e db b) (store_of G (store_key e db b) w) w"
  by (auto simp: open_branch_def andthen_def bind_def named_run split: option.splits)

lemma open_branch_world:
  "snd (open_branch G e db b w) \<in> {w, put_store (store_key e db b) (store_of G (store_key e db b) w) w}"
  by (auto simp: open_branch_def andthen_def bind_def named_run split: option.splits)

lemma open_database_world [simp]: "snd (open_database e n w) = w"
  by (auto simp: open_database_def andthen_def bind_def named_run ret_def split: option.splits)

lemma create_branch_world:
  "snd (create_branch_of_main e db b w) \<in> {w, fs_create_branch (en_data_dir e) db ''main'' b w}"
  by (auto simp: create_branch_of_main_def andthen_def bind_def named_run split: option.splits)

lemma fs_create_branch_simps [simp]:
  "ew_segments (fs_create_branch dir db old b w) = ew_segments w"
  "store_of G k (fs_create_branch dir db old b w) = store_of G k w"
  by (simp_all add: fs_create_branch_def Let_def store_of_def)

definition loaded_graph :: "('g, 'd) graph_store \<Rightarrow> 'd \<Rightarrow> 'g result" where
  "loaded_graph G x = (case gs_load G x of Inl e \<Rightarrow> raise RuntimeError (''Load error: '' @ e) | Inr g \<Rightarrow> Inr g)"

interpretation native: embedded_engine "casys_engine G" "\<lambda>e d b. store_of G (store_key e d b)"
    "\<lambda>e d b w. ew_segments w (en_data_dir e, d, b)" ew_segments "gs_new G" "run_gql G" "gs_save G" "loaded_graph G"
  for G :: "('g, 'd) graph_store"
proof unfold_locales
  fix dir e d b and w w1 :: "('g, 'd) engine_world"
  assume "eng_new (casys_engine G) dir w = (Inr e, w1)"
  then show "store_of G (store_key e d b) w1 = gs_new G \<and> ew_segments w1 = ew_segments w"
    by (auto simp: casys_engine_def CasysEngine_new_def store_of_def store_key_def)
next
  fix e n r d b and w w1 :: "('g, 'd) engine_world"
  assume "eng_open_database (casys_engine G) e n w = (r, w1)"
  then have "w1 = w" using open_database_world [of e n w] by (simp add: casys_engine_def)
  then show "store_of G (store_key e d b) w1 = store_of G (store_key e d b) w \<and> ew_segments w1 = ew_segments w"
    by simp
next
  fix e n m u d b and w w1 :: "('g, 'd) engine_world"
  assume "eng_create_branch (casys_engine G) e n m w = (u, w1)"
  with create_branch_world [of e n m w]
  show "store_of G (store_key e d b) w1 = store_of G (store_key e d b) w \<and> ew_segments w1 = ew_segments w"
    by (auto simp: casys_engine_def)
next
  fix e n m v d b and w w1 :: "('g, 'd) engine_world"
  assume "eng_open_branch (casys_engine G) e n m w = (v, w1)"
  with open_branch_world [of G e n m w]
  show "store_of G (store_key e d b) w1 = store_of G (store_key e d b) w \<and> ew_segments w1 = ew_segments w"
    by (auto simp: casys_engine_def)
next
  fix e d b h gql ps q and w w1 w2 w3 :: "('g, 'd) engine_world"
  assume "eng_open_branch (casys_engine G) e d b w = (Inr h, w1)" "branch_query h gql ps w2 = (q, w3)"
  then show "run_gql G gql ps (store_of G (store_key e d b) w2) = (q, store_of G (store_key e d b) w3) \<and>
      ew_segments w3 = ew_segments w2 \<and>
      (\<forall>b'. b' \<noteq> b \<longrightarrow> store_of G (store_key e d b') w3 = store_of G (store_key e d b') w2)"
    by (auto simp: store_key_def casys_engine_def open_branch_ok pyo3_branch_def pyo3_query_def split: prod.splits)
next
  fix e d b h and w w1 w2 :: "('g, 'd) engine_world"
  assume "eng_open_branch (casys_engine G) e d b w = (Inr h, w1)"
  then show "\<exists>w3. branch_flush h w2 = (Inr (), w3) \<and>
      ew_segments w3 (en_data_dir e, d, b) = Some (gs_save G (store_of G (store_key e d b) w2)) \<and>
      (\<forall>b'. store_of G (store_key e d b') w3 = store_of G (store_key e d b') w2)"
    by (auto simp: casys_engine_def open_branch_ok pyo3_branch_def flush_to_segments_def store_of_def)
next
  fix e d b h x g and w w1 w2 :: "('g, 'd) engine_world"
  assume "eng_open_branch (casys_engine G) e d b w = (Inr h, w1)"
    and "ew_segments w2 (en_data_dir e, d, b) = Some x" "loaded_graph G x = Inr g"
  then show "\<exists>w3. branch_load h w2 = (Inr (), w3) \<and> store_of G (store_key e d b) w3 = g \<and>
      ew_segments w3 = ew_segments w2"
    by (auto simp: casys_engine_def open_branch_ok pyo3_branch_def pyo3_load_def load_from_segments_def
        loaded_graph_def split: sum.splits)
qed

section \<open>Reopening a database\<close>

lemma init_native:
  assumes "Database_init (casys_engine G) path dd w = (Inr db, w1)"
  shows "en_data_dir (sd_engine db) = data_dir_of dd" "sd_db_name db = database_name_of path"
    "sd_current_branch db = pyo3_branch G (sd_engine db) (sd_db_name db) ''main''"
  using assms unfolding Database_init_def casys_engine_def
  by (elim bind_okE andthen_okE; force simp: CasysEngine_new_def open_branch_ok ret_def)+


text \<open>A branch made after any work shows an empty graph too, and what was committed comes back with an
  explicit load of the branch.\<close>

lemma new_branch_starts_empty:
  assumes "Database_init (casys_engine G) path dd w = (Inr db, w1)" "b \<noteq> ''main''"
    and "Database_create_branch (casys_engine G) db b (after_calls db cs w1) = (Inr br, w2)"
  shows "fst (Branch_query br gql ps w2) = fst (run_gql G gql ps (gs_new G))"
  using assms by (rule native.new_branch_is_empty)

lemma loaded_branch_has_commit:
  assumes "Database_branch (casys_engine G) db ''main'' w = (Inr br, w1)"
    and "ew_segments w (en_data_dir (sd_engine db), sd_db_name db, ''main'') = Some x" "gs_load G x = Inr g"
  shows "\<exists>w2. Branch_load br w1 = (Inr (), w2) \<and> fst (Branch_query br gql ps w2) = fst (run_gql G gql ps g)"
proof -
  have o: "open_branch G (sd_engine db) (sd_db_name db) ''main'' w = (Inr (sb_branch br), w1)"
    using assms(1) unfolding Database_branch_def Branch_init_def casys_engine_def
    by (elim bind_okE) (auto simp: ret_def)
  then show ?thesis using assms(2,3)
    by (auto simp: open_branch_ok pyo3_branch_def Branch_load_def Branch_query_def pyo3_load_def
        load_from_segments_def pyo3_query_def split: prod.splits)
qed

text \<open>A path with a dot that \<open>.db\<close> does not take away is no name of a database: relative paths do not open.\<close>

lemma dotted_path_refused:
  assumes "CHR ''.'' \<in> set (database_name_of path)"
  shows "\<exists>m w1. Database_init (casys_engine G) path dd w = (raise RuntimeError (''Failed to open database: '' @ m), w1)"
proof -
  have n: "validate_identifier (database_name_of path) \<noteq> None"
    using assms by (force simp: validate_identifier_def list_all_iff identifier_char_def)
  then obtain m where "validate_identifier (database_name_of path) = Some m" by blast
  then show ?thesis
    by (simp add: Database_init_def casys_engine_def bind_def andthen_def CasysEngine_new_def open_database_def
        named_run)
qed

section \<open>An instance\<close>

text \<open>Graphs that are the statements they have been given; a query answers with their number.\<close>

definition demo_graphs :: "(string list, string list) graph_store" where
  "demo_graphs = \<lparr>gs_new = [],
     gs_execute = (\<lambda>gql ps g. (Inr \<lparr>columns = [''n''], rows = [RList [GLit (PInt (int (length g)))]]\<rparr>, gql # g)),
     gs_add_node = (\<lambda>ls ps g. (Inr (int (length g)), [] # g)), gs_save = (\<lambda>g. g), gs_load = (\<lambda>x. Inr x)\<rparr>"

definition demo_engine_world :: "(string list, string list) engine_world" where
  "demo_engine_world = \<lparr>ew_stores = (\<lambda>k. None),
     ew_segments = (\<lambda>p. if p = (''/data'', ''social'', ''main'') then Some [''CREATE (a)''] else None),
     ew_manifests = (\<lambda>p. []), ew_clock = 7, ew_engines = 0\<rparr>"

lemma demo_opens: "is_ok (fst (Database_init (casys_engine demo_graphs) ''social.db'' (Some ''/data'') demo_engine_world))"
  by code_simp

lemma demo_names: "data_dir_of (Some ''/data'') = ''/data''" "database_name_of ''social.db'' = ''social''"
  by code_simp+

lemma demo_holds: "ew_segments demo_engine_world (''/data'', ''social'', ''main'') = Some [''CREATE (a)'']"
  by code_simp

lemma demo_counts: "fst (run_gql demo_graphs ''MATCH (a)'' None (gs_new demo_graphs)) =
    Inr \<lparr>columns = [''n''], rows = [RList [GLit (PInt 0)]]\<rparr>" "gs_save demo_graphs (gs_new demo_graphs) = []"
  by (simp_all add: run_gql_def demo_graphs_def)


end
