(* ===== verification/Spec2Isabelle.thy ===== *)
theory Spec2Isabelle
  imports Value_Objects Customer_Account Branch_Names WAL_History Query_Worker Query_Catalog Query_Service PITR_Timeline SDK_Query PITR_Run Branch_Copies Access Branch_Routes Query_Routes Event_Feed Worker_Process SDK_Descriptors Casys_Engine
begin

text \<open>
  KuzuEventBus serves Kuzu graph databases to tenants: requests come in through a web API, queries go
  through a queue to a worker that runs them on the tenant's database, databases are snapshotted to an
  object store, branched, and taken back to a point in time with the help of a log of the statements the
  worker has run. A Python client builds queries from Python expressions. This development models the
  Python of \<open>backend/src\<close> (below \<open>src/backend/\<close>) and of the client (\<open>src/sdk/python/python/casys_db\<close>) and
  proves what holds of it, and in some places what does not.

  How the program is modelled. A method is a function of the same name, prefixed where the name is a
  constant of the library or used twice. A function that may raise returns a \<open>result\<close>: an exception with its
  class and text, or a value. A method that acts on something outside itself is an \<open>act\<close>: it takes the world
  and returns its result and the world it leaves, also when it raises (\<open>Effects\<close>: \<open>bind\<close>, \<open>andthen\<close>,
  \<open>catch\<close> for \<open>except\<close>, \<open>finally_do\<close>). \<open>async\<close> methods run to their end before the next one starts; where
  the order of several clients' steps matters the steps are an inductive relation (locks, transactions,
  catalogs, accounts, customers, the event feed). Texts are lists of characters of Latin-1, ids are the texts of UUIDs,
  floats are rationals, times are \<open>dt\<close> records in UTC with microseconds (\<open>Timestamps\<close>) or integers of
  microseconds (accounts). What a call gets from \<open>uuid4\<close>, the clock, \<open>secrets\<close> or \<open>mkdtemp\<close> is an argument.

  What is a parameter. Redis, MinIO, Kuzu, JSON, SHA-256, the ISO parser and python-jose are not under
  \<open>src/\<close>. Their commands are records of functions (\<open>redis\<close>, \<open>s3\<close>, \<open>codec\<close>, \<open>jose\<close>, the engine's constructor
  \<open>bk_kuzu\<close> and \<open>run\<close>), and what the code relies on is stated as the laws of a locale (\<open>redis_client\<close>,
  \<open>s3_client\<close>) or a named predicate (\<open>json_codec\<close>, \<open>hex_digest\<close>, \<open>creates_dir\<close>). The ports of
  \<open>domain/shared/ports\<close> are records too (\<open>Ports\<close>), with the contracts the use cases need as locales
  (\<open>object_storage\<close>, \<open>lock_service\<close>, \<open>transaction_repository\<close>, \<open>site_services\<close>, \<open>branch_services\<close>); the adapters of
  \<open>infrastructure\<close> interpret them over any Redis or MinIO that keeps its laws, and \<open>ref_redis\<close> and
  \<open>ref_s3\<close>, which compute, show that the laws can be kept.

  The theories.
  \<^item> \<open>Prelude\<close>, \<open>Effects\<close>, \<open>PyString\<close>, \<open>Timestamps\<close>: exceptions and results, sequencing, Python's string
    methods, \<open>UUID\<close>, \<open>int\<close>, \<open>strftime\<close> and \<open>strptime\<close> of the compact format.
  \<^item> \<open>Value_Objects\<close>, \<open>Customer_Account\<close>, \<open>Branch_Names\<close>: the domain. Query texts and their hashes, e-mail
    addresses, tenant and database names, storage sizes; the account aggregate with its invariant; branch
    names, their full names, and the listing of branches.
  \<^item> \<open>Redis_Client\<close>, \<open>Redis_Locks\<close>, \<open>Transactions\<close>, \<open>Message_Queue\<close>: Redis as key spaces of typed values,
    the lock with its release script, the cache, transaction hashes with their index of running ones, the
    queue on a stream with one group, the event stream.
  \<^item> \<open>Query_Catalog\<close>, \<open>Query_Service\<close>, \<open>Query_Worker\<close>, \<open>Worker_Process\<close>: the catalog of used and favorite
    queries, submission, status, results, cancellation and statistics of queries, the worker with its
    handlers, its loop, and the adapter that keeps connections to the databases.
  \<^item> \<open>WAL_Files\<close>, \<open>Nearest_Snapshot\<close>, \<open>PITR_Replay\<close>, \<open>WAL_History\<close>, \<open>PITR_Timeline\<close>: the log of statements,
    which the worker appends to and three use cases read; the choice of the snapshot to start from; the three
    replays; the recovery of a history; the timeline with its windows and plan.
  \<^item> \<open>Files\<close>, \<open>Database_Tables\<close>, \<open>Site\<close>, \<open>Snapshots\<close>, \<open>Provisioning\<close>, \<open>Branching\<close>, \<open>PITR_Restore\<close>: the disk as a
    map from paths to directories and files with the operations of \<open>os\<close>, \<open>shutil\<close> and \<open>tarfile\<close> the code uses,
    the PostgreSQL tables of databases, snapshots and bookmarks, and the use cases over them and the services.
  \<^item> \<open>Deployment\<close>, \<open>PITR_Run\<close>, \<open>Branch_Run\<close>, \<open>Branch_Copies\<close>: the wiring of the routes (Redis locks and cache,
    MinIO storage) as an instance of the services, and whole runs of the restores and of branching.
  \<^item> \<open>Customers\<close>, \<open>Access\<close>: the table of customers and its repository, the use cases about customers, stream
    tokens, the middleware that decides for whom a request acts, and the routes about accounts.
  \<^item> \<open>Routing\<close>, \<open>Database_Routes\<close>, \<open>Branch_Routes\<close>, \<open>Query_Routes\<close>, \<open>Event_Feed\<close>: the other routes of
    \<open>presentation/api\<close> with their resolving of names, their statuses and the checks of their requests, and the
    generator of server-sent events.
  \<^item> \<open>SDK_Expr\<close>, \<open>SDK_Lambda\<close>, \<open>SDK_Orm\<close>, \<open>SDK_Query\<close>: the client's expressions and their printing, its
    reading of lambda sources, entities and sessions, and the query builder.
  \<^item> \<open>SDK_Descriptors\<close>, \<open>SDK_Database\<close>, \<open>Casys_Engine\<close>: the caches of descriptors and the conditions over
    properties, the client's databases and branches over the native module (the locale \<open>embedded_engine\<close>),
    and the binding of that module (\<open>src/crates/casys_pyo3\<close>), which interprets it.

  What the lemmas show. The properties are numbered C1 and so on in the theories. History and files: a
  restore replays exactly the logged statements between the snapshot and the target (C1), puts the
  snapshot's tree at the database's path (C2), a snapshot restores the tree it was taken of (C3), a branch
  gets the tree of its source and touches nothing else (C4), a preview leaves no trace (C17), and the three
  replays agree on logs in order (C11). Concurrency and state: settled transactions, mutual exclusion, the
  index of running transactions, first in first out, a feed of events without gaps, tenants' isolation (C5
  to C10). Customers: the table's type, requests act for the key's owner, suspension locks out, registration
  and login (C12 to C15). The routes refuse databases of other tenants (C16), list at most fifty popular
  queries (C27) and take favourites in and out (C24). The tables refine maps from keys to rows (C22). The
  rest covers submission, the catalog, the account, names and values, the timeline and the client. Where
  the code does not do what it means to, the property says what it does: merging never succeeds (C19), a
  branch takes any tenant's snapshot (C20) and is never made of a database given by its id (C21), failed
  queries are completed (C25), a reopened database of the client starts empty and
  is overwritten by its next commit (C36). Queries of a worker keep to the files of their tenant (C29). Lemmas
  show that the timeline fails on leap days, \<open>count()\<close> ignores joins, \<open>depth()\<close> has no
  effect and a feed without a position loses events.

  Bounds and termination. Recursion is structural or has a measure (\<open>py_split\<close>, \<open>py_replace\<close>, the scanner
  of lambda bodies); no fuel is used. The search for a free alias, a \<open>while\<close> of the source, is a
  recursion whose measure is the finite set of used aliases not yet tried. The endless loop of the worker is
  modelled by the rounds it starts before it is stopped, and that of the event feed is a relation with any number of turns. Integers of PostgreSQL columns are checked against 32 bits.

  Not modelled. Messages of exceptions are shortened where no code reads them, and logging is left out.
  The file system has no links, permissions or full disks, and extraction of archives follows no path out of
  its directory. Sorting keeps the order of equal keys where SQL leaves it open. Times that are stored
  without a zone, years before 1000 in \<open>strftime\<close>, characters beyond Latin-1 and the rounding of floats are
  outside the model. The framework's own checks of requests are stated as predicates but not run before a
  route; \<open>main.py\<close>, health and analytics, which mount routers and answer constants, are left out. Of the
  Rust engine behind the client only the binding and its files are modelled, with disks that do not fail;
  its graphs and queries are parameters. The website, scripts, notebooks,
  settings and the generated parts of the ORM are not modelled.
\<close>

end
